(* ===== verification/Prelude.thy ===== *)
theory Prelude
  imports Main "HOL-Library.Monad_Syntax"
begin

text \<open>
  Shared vocabulary of the development: Go's 64-bit integers and durations, instants of
  \<^verbatim>\<open>time.Time\<close>, the panics of slice indexing, and small facts on options and lists
  that the components share.

  A Go \<^verbatim>\<open>int\<close>, \<^verbatim>\<open>int64\<close> or \<^verbatim>\<open>time.Duration\<close> is an \<open>int\<close>; an operation
  that can leave the 64-bit range is followed by \<open>wrap64\<close> (two's complement wrap-around) or,
  where the standard library saturates, by \<open>clamp64\<close>. An instant counts nanoseconds from
  Go's zero time (1 January of year 1), so that the zero value is the instant \<open>0\<close>.
\<close>

named_theorems go_simps \<open>evaluation of the Go library operations the model uses\<close>
named_theorems run_iff \<open>inversion of computations that may panic\<close>

section \<open>64-bit integers\<close>

definition wrap64 :: "int \<Rightarrow> int" where
  "wrap64 x = (x + 2 ^ 63) mod 2 ^ 64 - 2 ^ 63"

definition in64 :: "int \<Rightarrow> bool" where
  "in64 x \<longleftrightarrow> - (2 ^ 63) \<le> x \<and> x < 2 ^ 63"

definition clamp64 :: "int \<Rightarrow> int" where
  "clamp64 x = max (- (2 ^ 63)) (min (2 ^ 63 - 1) x)"

lemma wrap64_in64 [intro, simp]: "in64 (wrap64 x)"
  by (simp add: wrap64_def in64_def algebra_simps)

lemma wrap64_id [go_simps]: "in64 x \<Longrightarrow> wrap64 x = x"
  by (simp add: wrap64_def in64_def)

lemma clamp64_in64 [intro, simp]: "in64 (clamp64 x)"
  by (simp add: clamp64_def in64_def)

lemma clamp64_id [go_simps]: "in64 x \<Longrightarrow> clamp64 x = x"
  by (simp add: clamp64_def in64_def)

lemma clamp64_nonneg [simp]: "0 \<le> x \<Longrightarrow> 0 \<le> clamp64 x"
  by (simp add: clamp64_def)

lemma clamp64_nonpos [simp]: "x \<le> 0 \<Longrightarrow> clamp64 x \<le> 0"
  by (simp add: clamp64_def)

lemma clamp64_pos [simp]: "0 < x \<Longrightarrow> 0 < clamp64 x"
  by (simp add: clamp64_def)

lemma in64_small: "\<bar>x\<bar> < 2 ^ 62 \<Longrightarrow> in64 x"
  by (auto simp: in64_def abs_less_iff)

section \<open>Durations and instants\<close>

type_synonym duration = int

definition time_Second :: duration where
  "time_Second = 1000000000"

datatype gotime = Instant (nanos: int)

instantiation gotime :: linorder
begin

definition less_eq_gotime :: "gotime \<Rightarrow> gotime \<Rightarrow> bool" where
  "less_eq_gotime t u \<longleftrightarrow> nanos t \<le> nanos u"

definition less_gotime :: "gotime \<Rightarrow> gotime \<Rightarrow> bool" where
  "less_gotime t u \<longleftrightarrow> nanos t < nanos u"

instance
  by standard (auto simp: less_eq_gotime_def less_gotime_def intro: gotime.expand)

end

lemmas gotime_order [go_simps] = less_eq_gotime_def less_gotime_def

definition zero_time :: gotime where
  "zero_time = Instant 0"

definition time_IsZero :: "gotime \<Rightarrow> bool" where
  "time_IsZero t \<longleftrightarrow> t = zero_time"

definition time_After :: "gotime \<Rightarrow> gotime \<Rightarrow> bool" where
  "time_After t u \<longleftrightarrow> u < t"

definition time_Add :: "gotime \<Rightarrow> duration \<Rightarrow> gotime" where
  "time_Add t d = Instant (nanos t + d)"

definition time_Sub :: "gotime \<Rightarrow> gotime \<Rightarrow> duration" where
  "time_Sub t u = clamp64 (nanos t - nanos u)"

lemma time_IsZero_zero [simp]: "time_IsZero zero_time"
  by (simp add: time_IsZero_def)

lemma nanos_zero_time [simp]: "nanos zero_time = 0"
  by (simp add: zero_time_def)

lemma time_IsZero_nanos: "time_IsZero t \<longleftrightarrow> nanos t = 0"
  by (cases t) (simp add: time_IsZero_def zero_time_def)

lemma nanos_time_Add [simp]: "nanos (time_Add t d) = nanos t + d"
  by (simp add: time_Add_def)

lemma time_Sub_in64 [simp]: "in64 (time_Sub t u)"
  by (simp add: time_Sub_def)

lemma time_Sub_self [simp]: "time_Sub t t = 0"
  by (simp add: time_Sub_def clamp64_def)

text \<open>Adding a duration and subtracting the start gives the duration back.\<close>

lemma time_Sub_Add [simp]: "in64 d \<Longrightarrow> time_Sub (time_Add t d) t = d"
  by (simp add: time_Sub_def clamp64_id)

lemma time_After_irrefl [simp]: "\<not> time_After t t"
  by (simp add: time_After_def)

lemma time_After_Add: "time_After t (time_Add u d) \<longleftrightarrow> d < nanos t - nanos u"
  by (auto simp: time_After_def less_gotime_def)

section \<open>Panics\<close>

text \<open>
  A computation that may panic returns an option, \<open>None\<close> being the panic. \<open>index0\<close> is
  Go's \<^verbatim>\<open>xs[0]\<close>, which panics on an empty slice.
\<close>

definition index0 :: "'a list \<Rightarrow> 'a option" where
  "index0 xs = (case xs of [] \<Rightarrow> None | x # _ \<Rightarrow> Some x)"

lemma index0_Nil [simp]: "index0 [] = None"
  by (simp add: index0_def)

lemma index0_Cons [simp]: "index0 (x # xs) = Some x"
  by (simp add: index0_def)

lemma index0_eq_Some: "index0 xs = Some x \<longleftrightarrow> xs \<noteq> [] \<and> hd xs = x"
  by (cases xs) auto

lemma index0_ok: "xs \<noteq> [] \<Longrightarrow> index0 xs = Some (hd xs)"
  by (simp add: index0_eq_Some)

lemma bind_Some_iff [run_iff]: "Option.bind m f = Some y \<longleftrightarrow> (\<exists>x. m = Some x \<and> f x = Some y)"
  by (cases m) auto

lemma bind_None_iff [run_iff]: "Option.bind m f = None \<longleftrightarrow> m = None \<or> (\<exists>x. m = Some x \<and> f x = None)"
  by (cases m) auto

lemma if_Some_iff [run_iff]:
  "(if b then m else n) = Some y \<longleftrightarrow> (b \<and> m = Some y) \<or> (\<not> b \<and> n = Some y)"
  by simp

section \<open>Strings\<close>

text \<open>Go's \<^verbatim>\<open>strings.Contains\<close>, \<^verbatim>\<open>HasPrefix\<close>, \<^verbatim>\<open>HasSuffix\<close>, \<^verbatim>\<open>TrimSuffix\<close> and \<^verbatim>\<open>Join\<close>.\<close>

definition str_hasPrefix :: "string \<Rightarrow> string \<Rightarrow> bool" where
  "str_hasPrefix s p \<longleftrightarrow> take (length p) s = p"

definition str_hasSuffix :: "string \<Rightarrow> string \<Rightarrow> bool" where
  "str_hasSuffix s p \<longleftrightarrow> str_hasPrefix (rev s) (rev p)"

definition str_trimSuffix :: "string \<Rightarrow> string \<Rightarrow> string" where
  "str_trimSuffix s p = (if str_hasSuffix s p then take (length s - length p) s else s)"

fun str_contains :: "string \<Rightarrow> string \<Rightarrow> bool" where
  "str_contains [] p \<longleftrightarrow> p = []"
| "str_contains (c # s) p \<longleftrightarrow> str_hasPrefix (c # s) p \<or> str_contains s p"

fun str_join :: "string \<Rightarrow> string list \<Rightarrow> string" where
  "str_join sep [] = []"
| "str_join sep [s] = s"
| "str_join sep (s # t # ts) = s @ sep @ str_join sep (t # ts)"

text \<open>
  The verb \<^verbatim>\<open>%q\<close>: the text between double quotes, with the escapes of ASCII characters; bytes
  beyond ASCII are kept, as Go keeps printable runes.
\<close>

definition hex_digit :: "nat \<Rightarrow> char" where
  "hex_digit n = (if n < 10 then char_of (48 + n) else char_of (87 + n))"

definition quote_char :: "char \<Rightarrow> string" where
  "quote_char c =
     (let n = (of_char c :: nat)
      in if n = 0x22 then [CHR 0x5C, CHR 0x22]
         else if n = 0x5C then [CHR 0x5C, CHR 0x5C]
         else if n = 7 then [CHR 0x5C, CHR ''a'']
         else if n = 8 then [CHR 0x5C, CHR ''b'']
         else if n = 9 then [CHR 0x5C, CHR ''t'']
         else if n = 10 then [CHR 0x5C, CHR ''n'']
         else if n = 11 then [CHR 0x5C, CHR ''v'']
         else if n = 12 then [CHR 0x5C, CHR ''f'']
         else if n = 13 then [CHR 0x5C, CHR ''r'']
         else if n < 32 \<or> n = 127 then [CHR 0x5C, CHR ''x'', hex_digit (n div 16), hex_digit (n mod 16)]
         else [c])"

definition quoted :: "string \<Rightarrow> string" where
  "quoted s = [CHR 0x22] @ concat (map quote_char s) @ [CHR 0x22]"

lemma str_hasPrefix_append [simp]: "str_hasPrefix (p @ s) p"
  by (simp add: str_hasPrefix_def)

lemma str_hasSuffix_append [simp]: "str_hasSuffix (s @ p) p"
  by (simp add: str_hasSuffix_def)

lemma str_contains_prefix: "str_hasPrefix s p \<Longrightarrow> str_contains s p"
  by (cases s) (auto simp: str_hasPrefix_def)

lemma str_contains_append: "str_contains s p \<Longrightarrow> str_contains (r @ s) p"
  by (induction r) auto

lemma list_all_update: "list_all P xs \<Longrightarrow> P y \<Longrightarrow> list_all P (xs[k := y])"
  using set_update_subset_insert [of xs k y] by (auto simp: list_all_iff)

end
