(* ===== verification/Go_Errors.thy ===== *)
theory Go_Errors
  imports Prelude
begin

text \<open>
  Go's error values, as far as the program looks at them: package sentinels compared with
  \<^verbatim>\<open>errors.Is\<close>, messages built by \<^verbatim>\<open>errors.New\<close> and \<^verbatim>\<open>fmt.Errorf\<close>, joined errors,
  the WebSocket library's close error and foreign errors (from the network or a resolver)
  of which the program can see the sentinels they report, their \<^verbatim>\<open>Timeout()\<close> and their text.
  A Go \<^verbatim>\<open>error\<close> variable is a \<open>go_error option\<close>, \<open>None\<close> being \<^verbatim>\<open>nil\<close>.
\<close>

datatype sentinel =
  ErrInvalidDNSPolicy
| ErrNoTTLAnswer
| ContextCanceled
| ContextDeadlineExceeded
| NetErrClosed
| IoEOF

datatype go_error =
  Sentinel sentinel
| ErrorString string
| Errorf string go_error
| JoinError "go_error list"
| CloseError int string string
| ForeignError "sentinel list" "bool option" string

type_synonym go_err = "go_error option"

fun sentinel_text :: "sentinel \<Rightarrow> string" where
  "sentinel_text ErrInvalidDNSPolicy = ''invalid DNS policy configuration''"
| "sentinel_text ErrNoTTLAnswer = ''no DNS answers with TTL''"
| "sentinel_text ContextCanceled = ''context canceled''"
| "sentinel_text ContextDeadlineExceeded = ''context deadline exceeded''"
| "sentinel_text NetErrClosed = ''use of closed network connection''"
| "sentinel_text IoEOF = ''EOF''"

text \<open>
  \<open>error_text\<close> is \<^verbatim>\<open>Error()\<close>. \<open>Errorf p e\<close> is \<^verbatim>\<open>fmt.Errorf("p%w", e)\<close>; the
  third argument of \<open>CloseError\<close> is the text its library renders.
\<close>

fun error_text :: "go_error \<Rightarrow> string" where
  "error_text (Sentinel s) = sentinel_text s"
| "error_text (ErrorString m) = m"
| "error_text (Errorf p e) = p @ error_text e"
| "error_text (JoinError es) = str_join ''\<newline>'' (map error_text es)"
| "error_text (CloseError code txt rendered) = rendered"
| "error_text (ForeignError ss tmo m) = m"

text \<open>\<^verbatim>\<open>errors.Is(err, target)\<close> for a sentinel target: some error of the tree is the target.\<close>

fun errors_Is :: "go_error \<Rightarrow> sentinel \<Rightarrow> bool" where
  "errors_Is (Sentinel s) t \<longleftrightarrow> s = t"
| "errors_Is (ErrorString m) t \<longleftrightarrow> False"
| "errors_Is (Errorf p e) t \<longleftrightarrow> errors_Is e t"
| "errors_Is (JoinError es) t \<longleftrightarrow> list_ex (\<lambda>e. errors_Is e t) es"
| "errors_Is (CloseError code txt rendered) t \<longleftrightarrow> False"
| "errors_Is (ForeignError ss tmo m) t \<longleftrightarrow> t \<in> set ss"

text \<open>\<^verbatim>\<open>errors.Join\<close> drops the nil errors and is nil when nothing is left.\<close>

definition errors_Join :: "go_err list \<Rightarrow> go_err" where
  "errors_Join errs =
     (case List.map_filter id errs of [] \<Rightarrow> None | es \<Rightarrow> Some (JoinError es))"

text \<open>The accumulation \<^verbatim>\<open>if err != nil { errs = errors.Join(errs, err) }\<close> of the program's loops.\<close>

definition join_into :: "go_err \<Rightarrow> go_err \<Rightarrow> go_err" where
  "join_into errs err = (case err of None \<Rightarrow> errs | Some e \<Rightarrow> errors_Join [errs, Some e])"

definition err_Is :: "go_err \<Rightarrow> sentinel \<Rightarrow> bool" where
  "err_Is err t \<longleftrightarrow> (case err of None \<Rightarrow> False | Some e \<Rightarrow> errors_Is e t)"

lemma err_Is_simps [simp]:
  "err_Is None t \<longleftrightarrow> False"
  "err_Is (Some e) t \<longleftrightarrow> errors_Is e t"
  by (simp_all add: err_Is_def)

lemma errors_Join_Nil [simp]: "errors_Join [] = None"
  by (simp add: errors_Join_def List.map_filter_simps)

lemma errors_Join_two [simp]: "errors_Join [Some a, Some b] = Some (JoinError [a, b])"
  by (simp add: errors_Join_def List.map_filter_simps)

lemma errors_Join_None_iff: "errors_Join errs = None \<longleftrightarrow> (\<forall>e \<in> set errs. e = None)"
  by (induction errs) (auto simp: errors_Join_def List.map_filter_def split: list.splits)

lemma err_Is_Join: "err_Is (errors_Join errs) t \<longleftrightarrow> (\<exists>e \<in> set errs. err_Is e t)"
proof -
  have "err_Is (errors_Join errs) t \<longleftrightarrow> list_ex (\<lambda>e. errors_Is e t) (List.map_filter id errs)"
    by (simp add: errors_Join_def split: list.splits)
  also have "\<dots> \<longleftrightarrow> (\<exists>e \<in> set errs. err_Is e t)"
    by (induction errs) (auto simp: List.map_filter_simps err_Is_def split: option.splits)
  finally show ?thesis .
qed

lemma join_into_None_iff [simp]: "join_into errs err = None \<longleftrightarrow> errs = None \<and> err = None"
  by (auto simp: join_into_def errors_Join_None_iff split: option.splits)

lemma err_Is_join_into: "err_Is (join_into errs err) t \<longleftrightarrow> err_Is errs t \<or> err_Is err t"
  by (auto simp: join_into_def err_Is_Join split: option.splits)

text \<open>A whole loop of accumulations: nil exactly if every step was, and no error is lost.\<close>

lemma fold_join_into_None:
  "foldl join_into errs es = None \<longleftrightarrow> errs = None \<and> (\<forall>e \<in> set es. e = None)"
  by (induction es arbitrary: errs) auto

lemma fold_join_into_Is:
  "err_Is (foldl join_into errs es) t \<longleftrightarrow> err_Is errs t \<or> (\<exists>e \<in> set es. err_Is e t)"
  by (induction es arbitrary: errs) (auto simp: err_Is_join_into)

end
