(* ===== verification/Net_Addr.thy ===== *)
theory Net_Addr
  imports Go_Errors "HOL-Library.Word"
begin

text \<open>
  What the program uses of Go's \<^verbatim>\<open>net/netip\<close>, \<^verbatim>\<open>net\<close> and \<^verbatim>\<open>net/url\<close>: IP addresses and
  their text, \<^verbatim>\<open>netip.ParseAddr\<close>, \<^verbatim>\<open>netip.AddrFromSlice\<close>, \<^verbatim>\<open>net.JoinHostPort\<close>, and the
  host and port of a URL. IPv6 addresses are eight 16-bit groups with a zone.
\<close>

section \<open>Addresses\<close>

datatype netip_addr =
  AddrZero
| AddrV4 "8 word" "8 word" "8 word" "8 word"
| AddrV6 "16 word list" string

record addr_port =
  ap_addr :: netip_addr
  ap_port :: "16 word"

definition addr_port_zero :: addr_port where
  "addr_port_zero = \<lparr>ap_addr = AddrZero, ap_port = 0\<rparr>"

text \<open>\<^verbatim>\<open>netip.AddrFromSlice\<close>: four bytes give an IPv4 address, sixteen an IPv6 address.\<close>

definition word_pair :: "8 word \<Rightarrow> 8 word \<Rightarrow> 16 word" where
  "word_pair hi lo = word_of_nat (256 * unat hi + unat lo)"

fun word_pairs :: "8 word list \<Rightarrow> 16 word list" where
  "word_pairs (hi # lo # bs) = word_pair hi lo # word_pairs bs"
| "word_pairs _ = []"

definition addr_from_slice :: "8 word list \<Rightarrow> netip_addr option" where
  "addr_from_slice bs =
     (case bs of
        [a, b, c, d] \<Rightarrow> Some (AddrV4 a b c d)
      | _ \<Rightarrow> if length bs = 16 then Some (AddrV6 (word_pairs bs) []) else None)"

section \<open>Text of addresses\<close>

definition digit_char :: "nat \<Rightarrow> char" where
  "digit_char n = char_of (if n < 10 then 48 + n else 87 + n)"

fun nat_string :: "nat \<Rightarrow> nat \<Rightarrow> string" where
  "nat_string base n =
     (if n < base \<or> base < 2 then [digit_char n]
      else nat_string base (n div base) @ [digit_char (n mod base)])"

declare nat_string.simps [simp del]

abbreviation dec_string :: "nat \<Rightarrow> string" where
  "dec_string \<equiv> nat_string 10"

definition int_string :: "int \<Rightarrow> string" where
  "int_string i = (if i < 0 then ''-'' @ dec_string (nat (- i)) else dec_string (nat i))"

definition string4 :: "8 word \<Rightarrow> 8 word \<Rightarrow> 8 word \<Rightarrow> 8 word \<Rightarrow> string" where
  "string4 a b c d =
     dec_string (unat a) @ ''.'' @ dec_string (unat b) @ ''.'' @
     dec_string (unat c) @ ''.'' @ dec_string (unat d)"

text \<open>The longest run of at least two zero groups, the first of them in case of a tie.\<close>

fun zero_run :: "16 word list \<Rightarrow> nat \<Rightarrow> nat \<times> nat \<Rightarrow> nat \<times> nat" where
  "zero_run [] i best = best"
| "zero_run (g # gs) i best =
     (let l = length (takeWhile (\<lambda>x. x = 0) (g # gs))
      in zero_run gs (Suc i) (if 2 \<le> l \<and> snd best < l then (i, l) else best))"

definition hex_groups :: "16 word list \<Rightarrow> string" where
  "hex_groups gs = str_join '':'' (map (\<lambda>g. nat_string 16 (unat g)) gs)"

definition zone_suffix :: "string \<Rightarrow> string" where
  "zone_suffix z = (if z = [] then [] else CHR ''%'' # z)"

definition string6 :: "16 word list \<Rightarrow> string" where
  "string6 gs =
     (let (start, len) = zero_run gs 0 (0, 0)
      in if len = 0 then hex_groups gs
         else hex_groups (take start gs) @ ''::'' @ hex_groups (drop (start + len) gs))"

definition is4in6 :: "16 word list \<Rightarrow> bool" where
  "is4in6 gs \<longleftrightarrow> length gs = 8 \<and> take 6 gs = [0, 0, 0, 0, 0, 0xffff]"

definition hi_byte :: "16 word \<Rightarrow> 8 word" where
  "hi_byte g = word_of_nat (unat g div 256)"

definition lo_byte :: "16 word \<Rightarrow> 8 word" where
  "lo_byte g = word_of_nat (unat g mod 256)"

fun addr_string :: "netip_addr \<Rightarrow> string" where
  "addr_string AddrZero = ''invalid IP''"
| "addr_string (AddrV4 a b c d) = string4 a b c d"
| "addr_string (AddrV6 gs z) =
     (if is4in6 gs
      then ''::ffff:'' @ string4 (hi_byte (gs ! 6)) (lo_byte (gs ! 6)) (hi_byte (gs ! 7)) (lo_byte (gs ! 7))
      else string6 gs) @ zone_suffix z"

definition addr_port_string :: "addr_port \<Rightarrow> string" where
  "addr_port_string ap =
     (case ap_addr ap of
        AddrZero \<Rightarrow> ''invalid AddrPort''
      | AddrV4 a b c d \<Rightarrow> string4 a b c d @ '':'' @ dec_string (unat (ap_port ap))
      | AddrV6 gs z \<Rightarrow> ''['' @ addr_string (AddrV6 gs z) @ '']:'' @ dec_string (unat (ap_port ap)))"

section \<open>Parsing addresses\<close>

definition is_digit :: "char \<Rightarrow> bool" where
  "is_digit c \<longleftrightarrow> 48 \<le> (of_char c :: nat) \<and> (of_char c :: nat) \<le> 57"

definition hex_value :: "char \<Rightarrow> nat option" where
  "hex_value c =
     (let n = (of_char c :: nat)
      in if 48 \<le> n \<and> n \<le> 57 then Some (n - 48)
         else if 97 \<le> n \<and> n \<le> 102 then Some (n - 87)
         else if 65 \<le> n \<and> n \<le> 70 then Some (n - 55)
         else None)"

text \<open>
  \<open>parse4 s octets v len\<close> reads the rest of a dotted quad: \<open>octets\<close> are the octets read,
  \<open>v\<close> and \<open>len\<close> the value and the number of digits of the current one.
\<close>

fun parse4 :: "string \<Rightarrow> nat list \<Rightarrow> nat \<Rightarrow> nat \<Rightarrow> nat list option" where
  "parse4 [] octets v len = (if length octets < 3 then None else Some (octets @ [v]))"
| "parse4 (c # s) octets v len =
     (if is_digit c then
        (if len = 1 \<and> v = 0 then None
         else if 255 < v * 10 + (of_char c - 48) then None
         else parse4 s octets (v * 10 + (of_char c - 48)) (Suc len))
      else if c = CHR ''.'' then
        (if len = 0 \<or> s = [] \<or> length octets = 3 then None
         else parse4 s (octets @ [v]) 0 0)
      else None)"

definition hex_number :: "string \<Rightarrow> nat" where
  "hex_number s = foldl (\<lambda>n c. 16 * n + the (hex_value c)) 0 s"

lemma dropWhile_eq_length: "c # r = dropWhile P s \<Longrightarrow> length r < length s"
  by (metis Suc_le_eq length_Cons length_dropWhile_le)

text \<open>
  \<open>parse6 s gs ell\<close> is the loop over the groups of an IPv6 address: \<open>gs\<close> are the groups read
  and \<open>ell\<close> the position of the \<^verbatim>\<open>::\<close>; it returns the unread text, the groups and the position.
\<close>

function parse6 :: "string \<Rightarrow> nat list \<Rightarrow> nat option \<Rightarrow> (string \<times> nat list \<times> nat option) option" where
  "parse6 s gs ell =
     (if 8 \<le> length gs then Some (s, gs, ell)
      else
        let hs = takeWhile (\<lambda>c. hex_value c \<noteq> None) s;
            rest = dropWhile (\<lambda>c. hex_value c \<noteq> None) s;
            gs' = gs @ [hex_number hs]
        in if hs = [] \<or> 4 < length hs then None
           else case rest of
             [] \<Rightarrow> Some ([], gs', ell)
           | c # r \<Rightarrow>
               if c = CHR ''.'' then
                 (if (ell = None \<and> length gs \<noteq> 6) \<or> 8 < length gs + 2 then None
                  else case parse4 s [] 0 0 of
                         Some [w, x, y, z] \<Rightarrow> Some ([], gs @ [256 * w + x, 256 * y + z], ell)
                       | _ \<Rightarrow> None)
               else if c \<noteq> CHR '':'' then None
               else case r of
                 [] \<Rightarrow> None
               | d # r' \<Rightarrow>
                   if d = CHR '':'' then
                     (if ell \<noteq> None then None
                      else if r' = [] then Some ([], gs', Some (length gs'))
                      else parse6 r' gs' (Some (length gs')))
                   else parse6 (d # r') gs' ell)"
  by pat_completeness auto
termination
  by (relation "measure (\<lambda>(s, gs, ell). length s)") (auto dest!: dropWhile_eq_length)

declare parse6.simps [simp del]

text \<open>The groups of the address, the \<^verbatim>\<open>::\<close> expanded to the zero groups it stands for.\<close>

definition expand_ellipsis :: "string \<times> nat list \<times> nat option \<Rightarrow> nat list option" where
  "expand_ellipsis r =
     (case r of (s, gs, ell) \<Rightarrow>
        if s \<noteq> [] then None
        else if length gs < 8 then
          (case ell of
             None \<Rightarrow> None
           | Some e \<Rightarrow> Some (take e gs @ replicate (8 - length gs) 0 @ drop e gs))
        else if ell \<noteq> None then None
        else Some gs)"

definition parse_ipv6 :: "string \<Rightarrow> netip_addr option" where
  "parse_ipv6 s =
     (let body = takeWhile (\<lambda>c. c \<noteq> CHR ''%'') s;
          zoned = dropWhile (\<lambda>c. c \<noteq> CHR ''%'') s;
          zone = drop 1 zoned
      in if zoned \<noteq> [] \<and> zone = [] then None
         else if body = ''::'' then Some (AddrV6 (replicate 8 0) zone)
         else
           (let start = (if str_hasPrefix body ''::'' then parse6 (drop 2 body) [] (Some 0)
                         else parse6 body [] None)
            in do { r \<leftarrow> start; gs \<leftarrow> expand_ellipsis r;
                    Some (AddrV6 (map word_of_nat gs) zone) }))"

text \<open>The first dot, colon or percent sign decides which syntax is tried.\<close>

definition parse_addr :: "string \<Rightarrow> netip_addr option" where
  "parse_addr s =
     (case dropWhile (\<lambda>c. c \<notin> {CHR ''.'', CHR '':'', CHR ''%''}) s of
        [] \<Rightarrow> None
      | c # _ \<Rightarrow>
          if c = CHR ''.'' then
            (case parse4 s [] 0 0 of
               Some [w, x, y, z] \<Rightarrow> Some (AddrV4 (word_of_nat w) (word_of_nat x) (word_of_nat y) (word_of_nat z))
             | _ \<Rightarrow> None)
          else if c = CHR '':'' then parse_ipv6 s
          else None)"

section \<open>Host and port\<close>

definition JoinHostPort :: "string \<Rightarrow> string \<Rightarrow> string" where
  "JoinHostPort host port =
     (if CHR '':'' \<in> set host then ''['' @ host @ '']:'' @ port else host @ '':'' @ port)"

record url =
  url_Scheme :: string
  url_Host :: string
  url_Path :: string

text \<open>The text after the last colon, if there is a colon.\<close>

definition after_last_colon :: "string \<Rightarrow> string option" where
  "after_last_colon s =
     (if CHR '':'' \<in> set s then Some (rev (takeWhile (\<lambda>c. c \<noteq> CHR '':'') (rev s))) else None)"

definition strip_brackets :: "string \<Rightarrow> string" where
  "strip_brackets h =
     (if str_hasPrefix h ''['' \<and> str_hasSuffix h '']'' then butlast (tl h) else h)"

text \<open>\<open>split_host_port\<close> is what \<^verbatim>\<open>URL.Hostname\<close> and \<^verbatim>\<open>URL.Port\<close> do with \<^verbatim>\<open>URL.Host\<close>.\<close>

definition split_host_port :: "string \<Rightarrow> string \<times> string" where
  "split_host_port hp =
     (case after_last_colon hp of
        Some p \<Rightarrow>
          if list_all is_digit p then (strip_brackets (take (length hp - length p - 1) hp), p)
          else (strip_brackets hp, [])
      | None \<Rightarrow> (strip_brackets hp, []))"

definition url_Hostname :: "url \<Rightarrow> string" where
  "url_Hostname u = fst (split_host_port (url_Host u))"

definition url_Port :: "url \<Rightarrow> string" where
  "url_Port u = snd (split_host_port (url_Host u))"

section \<open>Facts on the text of addresses\<close>

lemma of_char_digit_char [simp]: "n < 10 \<Longrightarrow> (of_char (digit_char n) :: nat) = 48 + n"
  by (simp add: digit_char_def)

lemma is_digit_digit_char [simp]: "n < 10 \<Longrightarrow> is_digit (digit_char n)"
  by (simp add: is_digit_def)

lemma nat_string_digits: "c \<in> set (dec_string n) \<Longrightarrow> is_digit c"
proof (induction n rule: less_induct)
  case (less n)
  show ?case
  proof (cases "n < 10")
    case True
    with less.prems show ?thesis by (simp add: nat_string.simps)
  next
    case False
    with less.prems have "c \<in> set (dec_string (n div 10)) \<or> c = digit_char (n mod 10)"
      by (subst (asm) nat_string.simps) auto
    with False less.IH [of "n div 10"] show ?thesis by auto
  qed
qed

lemma dec_string_1: "n < 10 \<Longrightarrow> dec_string n = [digit_char n]"
  by (simp add: nat_string.simps)

lemma dec_string_step: "10 \<le> n \<Longrightarrow> dec_string n = dec_string (n div 10) @ [digit_char (n mod 10)]"
  by (subst nat_string.simps) simp

lemma dec_string_2: "10 \<le> n \<Longrightarrow> n < 100 \<Longrightarrow> dec_string n = [digit_char (n div 10), digit_char (n mod 10)]"
  by (simp add: dec_string_step dec_string_1)

lemma dec_string_3:
  "100 \<le> n \<Longrightarrow> n < 1000 \<Longrightarrow>
   dec_string n = [digit_char (n div 100), digit_char (n div 10 mod 10), digit_char (n mod 10)]"
  by (simp add: dec_string_step [of n] dec_string_2 div_mult2_eq [symmetric])

lemma is_digit_not: "\<not> is_digit CHR ''.''" "\<not> is_digit CHR '':''" "\<not> is_digit CHR ''%''"
  by (simp_all add: is_digit_def)

lemma parse4_octet:
  assumes "n < 256"
  shows "parse4 (dec_string n @ rest) octets 0 0 = parse4 rest octets n (length (dec_string n))"
proof -
  consider (one) "n < 10" | (two) "10 \<le> n" "n < 100" | (three) "100 \<le> n" by linarith
  then show ?thesis
  proof cases
    case one
    then show ?thesis by (simp add: dec_string_1)
  next
    case two
    have eq: "n div 10 * 10 + n mod 10 = n" by simp
    from two have "0 < n div 10" "n div 10 < 10" by (simp_all add: div_greater_zero_iff)
    with two eq show ?thesis by (simp add: dec_string_2)
  next
    case three
    have q: "n div 100 = n div 10 div 10" by (simp add: div_mult2_eq [symmetric])
    have q10: "n div 100 * 10 + n div 10 mod 10 = n div 10" unfolding q by simp
    then have eq: "(n div 100 * 10 + n div 10 mod 10) * 10 + n mod 10 = n" by simp
    have le: "n div 100 * 10 + n div 10 mod 10 \<le> 255" "n div 100 \<le> 255" "n div 100 < 10" "0 < n div 100"
      using assms three by (simp_all add: q10 div_greater_zero_iff)
    from three assms eq le show ?thesis by (simp add: dec_string_3)
  qed
qed

lemma dec_string_nonempty [simp]: "dec_string n \<noteq> []"
  by (subst nat_string.simps) simp

lemma parse4_dot:
  "length octets < 3 \<Longrightarrow> s \<noteq> [] \<Longrightarrow> n < 256 \<Longrightarrow>
   parse4 (dec_string n @ ''.'' @ s) octets 0 0 = parse4 s (octets @ [n]) 0 0"
  by (simp add: parse4_octet is_digit_not)

lemma octet_bound [simp]: "unat (a :: 8 word) < 256"
  using unsigned_less [of a] by simp

lemma parse4_string4: "parse4 (string4 a b c d) [] 0 0 = Some [unat a, unat b, unat c, unat d]"
proof -
  have "parse4 (dec_string (unat d)) [unat a, unat b, unat c] 0 0 =
      Some [unat a, unat b, unat c, unat d]"
    using parse4_octet [of "unat d" "[]" "[unat a, unat b, unat c]"] by simp
  then have "parse4 (dec_string (unat c) @ ''.'' @ dec_string (unat d)) [unat a, unat b] 0 0 =
      Some [unat a, unat b, unat c, unat d]"
    by (subst parse4_dot) simp_all
  then have "parse4 (dec_string (unat b) @ ''.'' @ dec_string (unat c) @ ''.'' @ dec_string (unat d)) [unat a] 0 0 =
      Some [unat a, unat b, unat c, unat d]"
    by (subst parse4_dot) simp_all
  then show ?thesis
    unfolding string4_def by (subst parse4_dot) simp_all
qed

lemma string4_chars: "ch \<in> set (string4 a b c d) \<Longrightarrow> is_digit ch \<or> ch = CHR ''.''"
  by (auto simp: string4_def dest: nat_string_digits)

lemma string4_no_colon: "CHR '':'' \<notin> set (string4 a b c d)" "CHR ''%'' \<notin> set (string4 a b c d)"
  using string4_chars is_digit_not by fastforce+

lemma first_separator_dot:
  assumes "\<And>ch. ch \<in> set s \<Longrightarrow> is_digit ch \<or> ch = CHR ''.''" and "CHR ''.'' \<in> set s"
  shows "\<exists>r. dropWhile (\<lambda>c. c \<notin> {CHR ''.'', CHR '':'', CHR ''%''}) s = CHR ''.'' # r"
  using assms
proof (induction s)
  case (Cons ch s)
  show ?case
  proof (cases "ch = CHR ''.''")
    case True
    then show ?thesis by simp
  next
    case False
    with Cons.prems have "is_digit ch" "CHR ''.'' \<in> set s" by auto
    moreover from this have "ch \<notin> {CHR ''.'', CHR '':'', CHR ''%''}" using is_digit_not by blast
    ultimately show ?thesis using Cons by simp
  qed
qed simp

text \<open>Reading the text of an IPv4 address back gives the address.\<close>

lemma parse_addr_string4: "parse_addr (addr_string (AddrV4 a b c d)) = Some (AddrV4 a b c d)"
proof -
  have "CHR ''.'' \<in> set (string4 a b c d)" by (simp add: string4_def)
  then obtain r where
    "dropWhile (\<lambda>c. c \<notin> {CHR ''.'', CHR '':'', CHR ''%''}) (string4 a b c d) = CHR ''.'' # r"
    using first_separator_dot [of "string4 a b c d"] string4_chars by blast
  then show ?thesis by (simp add: parse_addr_def parse4_string4)
qed

lemma JoinHostPort_IPv4: "JoinHostPort (addr_string (AddrV4 a b c d)) p = string4 a b c d @ '':'' @ p"
  by (simp add: JoinHostPort_def string4_no_colon)

text \<open>Splitting a joined host and port gives both back, for a numeric port and a host that is not
  itself written in brackets.\<close>

lemma digits_no_colon: "list_all is_digit p \<Longrightarrow> CHR '':'' \<notin> set p"
  using is_digit_not by (auto simp: list_all_iff)

lemma after_last_colon_append:
  "CHR '':'' \<notin> set p \<Longrightarrow> after_last_colon (h @ CHR '':'' # p) = Some p"
proof -
  assume "CHR '':'' \<notin> set p"
  then have "takeWhile (\<lambda>c. c \<noteq> CHR '':'') (rev p @ CHR '':'' # rev h) = rev p"
    by (subst takeWhile_append2) auto
  then show ?thesis by (simp add: after_last_colon_def)
qed

lemma strip_brackets_unbracketed:
  "hd h \<noteq> CHR ''['' \<Longrightarrow> strip_brackets h = h"
  by (cases h) (auto simp: strip_brackets_def str_hasPrefix_def)

lemma strip_brackets_bracketed [simp]: "strip_brackets (CHR ''['' # h @ '']'') = h"
proof -
  have "str_hasSuffix (CHR ''['' # h @ '']'') '']''"
    using str_hasSuffix_append [of "CHR ''['' # h" "'']''"] by simp
  then show ?thesis by (simp add: strip_brackets_def str_hasPrefix_def)
qed

lemma split_host_port_join:
  assumes "list_all is_digit p" and "hd h \<noteq> CHR ''[''"
  shows "split_host_port (JoinHostPort h p) = (h, p)"
proof (cases "CHR '':'' \<in> set h")
  case True
  have "after_last_colon (JoinHostPort h p) = Some p"
    using after_last_colon_append [OF digits_no_colon [OF assms(1)], of "''['' @ h @ '']''"] True
    by (simp add: JoinHostPort_def)
  with True assms show ?thesis by (simp add: split_host_port_def JoinHostPort_def)
next
  case False
  have "after_last_colon (JoinHostPort h p) = Some p"
    using after_last_colon_append [OF digits_no_colon [OF assms(1)], of h] False
    by (simp add: JoinHostPort_def)
  with False assms show ?thesis
    by (simp add: split_host_port_def JoinHostPort_def strip_brackets_unbracketed)
qed

end
