(* ===== verification/DNS_Policy.thy ===== *)
theory DNS_Policy
  imports Net_Addr
begin

text \<open>
  \<^verbatim>\<open>dns_policy.go\<close>: the refresh modes, the guard-rail policy, the policy of an endpoint
  with its validation and TTL clamping, and the record of a decision. A \<^verbatim>\<open>uint8\<close> enum is a
  datatype with a constructor for the values the source gives no name.
\<close>

datatype DNSRefreshMode =
  DNSRefreshDefault
| DNSRefreshStatic
| DNSRefreshSingleLookup
| DNSRefreshTTL
| DNSRefreshCadence
| DNSRefreshUnnamed nat

datatype DNSGuardRailAction =
  DNSGuardRailActionNone
| DNSGuardRailActionFlush
| DNSGuardRailActionForceLookup
| DNSGuardRailActionUnnamed nat

record DNSGuardRailPolicy =
  grp_ConsecutiveErrorThreshold :: int
  grp_Window :: duration
  grp_Action :: DNSGuardRailAction

definition guard_Enabled :: "DNSGuardRailPolicy \<Rightarrow> bool" where
  "guard_Enabled p \<longleftrightarrow>
     grp_ConsecutiveErrorThreshold p > 0 \<and> grp_Action p \<noteq> DNSGuardRailActionNone"

text \<open>
  A resolver is an interface value: one the user supplies (by a name of ours) or the
  default resolver of \<^verbatim>\<open>dns_resolver.go\<close>.
\<close>

datatype TTLResolver = CustomResolver nat | DefaultTTLResolver

record DNSPolicy =
  pol_Mode :: DNSRefreshMode
  pol_StaticAddr :: addr_port
  pol_Cadence :: duration
  pol_TTLMin :: duration
  pol_TTLMax :: duration
  pol_DisableFallback :: bool
  pol_GuardRail :: DNSGuardRailPolicy
  pol_Resolver :: "TTLResolver option"

text \<open>The zero values of the structs.\<close>

definition zero_guard_policy :: DNSGuardRailPolicy where
  "zero_guard_policy =
     \<lparr>grp_ConsecutiveErrorThreshold = 0, grp_Window = 0, grp_Action = DNSGuardRailActionNone\<rparr>"

definition zero_policy :: DNSPolicy where
  "zero_policy =
     \<lparr>pol_Mode = DNSRefreshDefault, pol_StaticAddr = addr_port_zero, pol_Cadence = 0,
      pol_TTLMin = 0, pol_TTLMax = 0, pol_DisableFallback = False,
      pol_GuardRail = zero_guard_policy, pol_Resolver = None\<rparr>"

record DNSDecision =
  dec_Host :: string
  dec_Mode :: DNSRefreshMode
  dec_ResolvedAddrs :: "netip_addr list"
  dec_TTL :: duration
  dec_ExpiresAt :: gotime
  dec_LookupDuration :: duration
  dec_GuardRailTriggered :: bool
  dec_Err :: go_err
  dec_FallbackUsed :: bool

text \<open>\<open>new_decision h m\<close> is the literal \<^verbatim>\<open>DNSDecision{Host: h, Mode: m}\<close>.\<close>

definition new_decision :: "string \<Rightarrow> DNSRefreshMode \<Rightarrow> DNSDecision" where
  "new_decision h m =
     \<lparr>dec_Host = h, dec_Mode = m, dec_ResolvedAddrs = [], dec_TTL = 0, dec_ExpiresAt = zero_time,
      dec_LookupDuration = 0, dec_GuardRailTriggered = False, dec_Err = None,
      dec_FallbackUsed = False\<rparr>"

definition invalid_policy :: "string \<Rightarrow> go_err" where
  "invalid_policy msg = errors_Join [Some (Sentinel ErrInvalidDNSPolicy), Some (ErrorString msg)]"

definition policy_Validate :: "DNSPolicy \<Rightarrow> go_err" where
  "policy_Validate p =
     (case pol_Mode p of
        DNSRefreshDefault \<Rightarrow> None
      | DNSRefreshSingleLookup \<Rightarrow> None
      | DNSRefreshStatic \<Rightarrow>
          if pol_StaticAddr p = addr_port_zero
          then invalid_policy ''static mode requires StaticAddr'' else None
      | DNSRefreshTTL \<Rightarrow>
          if pol_TTLMax p > 0 \<and> pol_TTLMin p > pol_TTLMax p
          then invalid_policy ''TTLMin must be <= TTLMax'' else None
      | DNSRefreshCadence \<Rightarrow>
          if pol_Cadence p \<le> 0
          then invalid_policy ''cadence mode requires positive Cadence'' else None
      | DNSRefreshUnnamed _ \<Rightarrow> invalid_policy ''unknown DNS refresh mode'')"

definition normalizeTTL :: "DNSPolicy \<Rightarrow> duration \<Rightarrow> duration" where
  "normalizeTTL p ttl =
     (if ttl \<le> 0 then pol_TTLMin p
      else if pol_TTLMin p > 0 \<and> ttl < pol_TTLMin p then pol_TTLMin p
      else if pol_TTLMax p > 0 \<and> ttl > pol_TTLMax p then pol_TTLMax p
      else ttl)"

definition fallbackEnabled :: "DNSPolicy \<Rightarrow> bool" where
  "fallbackEnabled p \<longleftrightarrow> \<not> pol_DisableFallback p"

section \<open>Lemmas\<close>

lemma invalid_policy_Some [simp]: "invalid_policy msg \<noteq> None"
  by (simp add: invalid_policy_def)

lemma invalid_policy_Is [simp]: "err_Is (invalid_policy msg) ErrInvalidDNSPolicy"
  by (simp add: invalid_policy_def)

text \<open>What a policy must satisfy, mode by mode.\<close>

definition policy_ok :: "DNSPolicy \<Rightarrow> bool" where
  "policy_ok p \<longleftrightarrow>
     (\<forall>n. pol_Mode p \<noteq> DNSRefreshUnnamed n) \<and>
     (pol_Mode p = DNSRefreshStatic \<longrightarrow> pol_StaticAddr p \<noteq> addr_port_zero) \<and>
     (pol_Mode p = DNSRefreshTTL \<longrightarrow> pol_TTLMax p \<le> 0 \<or> pol_TTLMin p \<le> pol_TTLMax p) \<and>
     (pol_Mode p = DNSRefreshCadence \<longrightarrow> 0 < pol_Cadence p)"

lemma policy_Validate_None_iff: "policy_Validate p = None \<longleftrightarrow> policy_ok p"
  by (auto simp: policy_Validate_def policy_ok_def split: DNSRefreshMode.splits)

lemma policy_Validate_Is:
  "policy_Validate p \<noteq> None \<Longrightarrow> err_Is (policy_Validate p) ErrInvalidDNSPolicy"
  by (auto simp: policy_Validate_def split: DNSRefreshMode.splits if_splits)

lemma zero_policy_Validate [simp]: "policy_Validate zero_policy = None"
  by (simp add: policy_Validate_def zero_policy_def)

lemma normalizeTTL_in64:
  "in64 ttl \<Longrightarrow> in64 (pol_TTLMin p) \<Longrightarrow> in64 (pol_TTLMax p) \<Longrightarrow> in64 (normalizeTTL p ttl)"
  by (simp add: normalizeTTL_def)

lemma normalizeTTL_lower: "0 < pol_TTLMin p \<Longrightarrow> pol_TTLMax p \<le> 0 \<or> pol_TTLMin p \<le> pol_TTLMax p \<Longrightarrow>
   pol_TTLMin p \<le> normalizeTTL p ttl"
  by (auto simp: normalizeTTL_def)

lemma normalizeTTL_upper: "0 < pol_TTLMax p \<Longrightarrow> pol_TTLMin p \<le> pol_TTLMax p \<Longrightarrow>
   normalizeTTL p ttl \<le> pol_TTLMax p"
  by (auto simp: normalizeTTL_def)

section \<open>Properties\<close>

text \<open>
  A policy is accepted exactly when it meets the requirement of its mode, and every
  rejection can be recognised as \<^verbatim>\<open>ErrInvalidDNSPolicy\<close> through \<^verbatim>\<open>errors.Is\<close>.
\<close>

theorem policy_Validate_correct:
  "(policy_Validate p = None \<longleftrightarrow> policy_ok p) \<and>
   err_Is (policy_Validate p) ErrInvalidDNSPolicy = (\<not> policy_ok p)"
  using policy_Validate_None_iff [of p] policy_Validate_Is [of p] by auto

text \<open>
  For a TTL policy that validates, the TTL that is used respects the configured bounds
  whatever the resolver reports, clamping it again changes nothing, and a TTL that is
  positive and within the bounds is used as it is.
\<close>

theorem normalizeTTL_bounds:
  assumes "policy_Validate p = None" and "pol_Mode p = DNSRefreshTTL"
  shows "(0 < pol_TTLMin p \<longrightarrow> pol_TTLMin p \<le> normalizeTTL p ttl) \<and>
    (0 < pol_TTLMax p \<longrightarrow> normalizeTTL p ttl \<le> pol_TTLMax p) \<and>
    normalizeTTL p (normalizeTTL p ttl) = normalizeTTL p ttl \<and>
    (0 < ttl \<and> pol_TTLMin p \<le> ttl \<and> (0 < pol_TTLMax p \<longrightarrow> ttl \<le> pol_TTLMax p) \<longrightarrow>
       normalizeTTL p ttl = ttl)"
proof -
  have "pol_TTLMax p \<le> 0 \<or> pol_TTLMin p \<le> pol_TTLMax p"
    using assms by (simp add: policy_Validate_None_iff policy_ok_def)
  then show ?thesis by (auto simp: normalizeTTL_def)
qed

theorem normalizeTTL_bounds_witness:
  "normalizeTTL (zero_policy\<lparr>pol_Mode := DNSRefreshTTL, pol_TTLMin := 5, pol_TTLMax := 30\<rparr>) 90 \<le> 30"
  using normalizeTTL_bounds
    [of "zero_policy\<lparr>pol_Mode := DNSRefreshTTL, pol_TTLMin := 5, pol_TTLMax := 30\<rparr>" 90]
  by (simp add: policy_Validate_def)

end
