(* ===== verification/DNS_Resolver.thy ===== *)
theory DNS_Resolver
  imports DNS_Policy
begin

text \<open>
  \<^verbatim>\<open>dns_resolver.go\<close>: the default resolver. It asks the configured servers for A and AAAA
  records, collects the addresses with the least positive TTL, and falls back to the system
  resolver.

  The network, the DNS client library and the configuration file are a parameter: a record of
  functions over a world state \<open>'w\<close> that every call may change, so that nothing is assumed of
  the answers or of their order in time.
\<close>

section \<open>Resource records\<close>

record rr_header =
  hdr_Ttl :: "32 word"

datatype rr_data = RR_A "8 word list" | RR_AAAA "8 word list" | RR_Other

record dns_rr =
  rr_Header :: "rr_header option"
  rr_Data :: rr_data

record dns_msg =
  msg_Rcode :: int
  msg_Answer :: "dns_rr list"

record dns_config =
  cfg_Servers :: "string list"
  cfg_Port :: string

definition RcodeSuccess :: int where
  "RcodeSuccess = 0"

definition TypeA :: nat where
  "TypeA = 1"

definition TypeAAAA :: nat where
  "TypeAAAA = 28"

type_synonym answer = "netip_addr list \<times> duration"

section \<open>Reading an answer section\<close>

definition extractAddr :: "dns_rr \<Rightarrow> netip_addr option" where
  "extractAddr rr =
     (case rr_Data rr of
        RR_A bs \<Rightarrow> addr_from_slice bs
      | RR_AAAA bs \<Rightarrow> addr_from_slice bs
      | RR_Other \<Rightarrow> None)"

definition ttl_duration :: "32 word \<Rightarrow> duration" where
  "ttl_duration t = wrap64 (int (unat t) * time_Second)"

text \<open>
  The accumulators of the loops over answers: the addresses, the least TTL and whether a
  positive TTL has been seen.
\<close>

fun parse_loop :: "dns_rr list \<Rightarrow> netip_addr list \<Rightarrow> duration \<Rightarrow> bool \<Rightarrow> netip_addr list \<times> duration" where
  "parse_loop [] addresses minTTL seenTTL = (addresses, minTTL)"
| "parse_loop (rr # rrs) addresses minTTL seenTTL =
     (case rr_Header rr of
        None \<Rightarrow> parse_loop rrs addresses minTTL seenTTL
      | Some h \<Rightarrow>
          (case extractAddr rr of
             None \<Rightarrow> parse_loop rrs addresses minTTL seenTTL
           | Some addr \<Rightarrow>
               (let ttl = ttl_duration (hdr_Ttl h)
                in if ttl > 0 \<and> (\<not> seenTTL \<or> ttl < minTTL)
                   then parse_loop rrs (addresses @ [addr]) ttl True
                   else parse_loop rrs (addresses @ [addr]) minTTL seenTTL)))"

definition parseAnswers :: "dns_rr list \<Rightarrow> go_error + answer" where
  "parseAnswers rrs =
     (let (addresses, minTTL) = parse_loop rrs [] 0 False
      in if addresses = [] then Inl (Sentinel ErrNoTTLAnswer) else Inr (addresses, minTTL))"

section \<open>Queries\<close>

record 'w dns_world =
  dw_ConfigFromFile :: "'w \<Rightarrow> (go_error + dns_config) \<times> 'w"
  dw_ctxErr :: "'w \<Rightarrow> go_err \<times> 'w"
  dw_Fqdn :: "string \<Rightarrow> string"
  dw_ExchangeContext :: "string \<Rightarrow> nat \<Rightarrow> string \<Rightarrow> 'w \<Rightarrow> (go_error + dns_msg option) \<times> 'w"
  dw_LookupNetIP :: "string \<Rightarrow> 'w \<Rightarrow> (go_error + netip_addr list) \<times> 'w"

record defaultTTLResolver =
  res_once :: bool
  res_cfg :: "dns_config option"
  res_cfgErr :: go_err
  res_clientTimeout :: duration

definition newDefaultTTLResolver :: defaultTTLResolver where
  "newDefaultTTLResolver =
     \<lparr>res_once = False, res_cfg = None, res_cfgErr = None, res_clientTimeout = 0\<rparr>"

definition initConfig :: "'w dns_world \<Rightarrow> defaultTTLResolver \<Rightarrow> 'w \<Rightarrow> go_err \<times> defaultTTLResolver \<times> 'w" where
  "initConfig W r w =
     (if res_once r then (res_cfgErr r, r, w)
      else
        (case dw_ConfigFromFile W w of
           (Inl e, w') \<Rightarrow>
             (Some e, r\<lparr>res_once := True, res_cfg := None, res_cfgErr := Some e\<rparr>, w')
         | (Inr cfg, w') \<Rightarrow>
             (None, r\<lparr>res_once := True, res_cfg := Some cfg, res_cfgErr := None,
                res_clientTimeout := 5 * time_Second\<rparr>, w')))"

definition exchange ::
    "'w dns_world \<Rightarrow> dns_config \<Rightarrow> string \<Rightarrow> nat \<Rightarrow> string \<Rightarrow> 'w \<Rightarrow> (go_error + answer) \<times> 'w" where
  "exchange W cfg question qtype server w =
     (case dw_ExchangeContext W question qtype (JoinHostPort server (cfg_Port cfg)) w of
        (Inl e, w') \<Rightarrow> (Inl e, w')
      | (Inr None, w') \<Rightarrow> (Inl (Sentinel ErrNoTTLAnswer), w')
      | (Inr (Some resp), w') \<Rightarrow>
          if msg_Rcode resp \<noteq> RcodeSuccess then (Inl (Sentinel ErrNoTTLAnswer), w')
          else (parseAnswers (msg_Answer resp), w'))"

definition ctx_error :: "go_error \<Rightarrow> bool" where
  "ctx_error e \<longleftrightarrow> errors_Is e ContextCanceled \<or> errors_Is e ContextDeadlineExceeded"

fun query_servers ::
    "'w dns_world \<Rightarrow> dns_config \<Rightarrow> string \<Rightarrow> nat \<Rightarrow> string list \<Rightarrow> 'w \<Rightarrow> (go_error + answer) \<times> 'w" where
  "query_servers W cfg question qtype [] w = (Inl (Sentinel ErrNoTTLAnswer), w)"
| "query_servers W cfg question qtype (server # servers) w =
     (case dw_ctxErr W w of
        (Some e, w1) \<Rightarrow> (Inl e, w1)
      | (None, w1) \<Rightarrow>
          (case exchange W cfg question qtype server w1 of
             (Inl e, w2) \<Rightarrow>
               if errors_Is e ErrNoTTLAnswer then query_servers W cfg question qtype servers w2
               else if ctx_error e then (Inl e, w2)
               else query_servers W cfg question qtype servers w2
           | (Inr (addrs, ttl), w2) \<Rightarrow>
               if addrs \<noteq> [] then (Inr (addrs, ttl), w2)
               else query_servers W cfg question qtype servers w2))"

text \<open>\<open>None\<close> is the nil dereference of \<^verbatim>\<open>r.cfg\<close>, which needs a configuration.\<close>

definition queryType ::
    "'w dns_world \<Rightarrow> defaultTTLResolver \<Rightarrow> string \<Rightarrow> nat \<Rightarrow> 'w \<Rightarrow> ((go_error + answer) \<times> 'w) option" where
  "queryType W r host qtype w =
     (case res_cfg r of
        None \<Rightarrow> None
      | Some cfg \<Rightarrow> Some (query_servers W cfg (dw_Fqdn W host) qtype (cfg_Servers cfg) w))"

fun collect_types ::
    "'w dns_world \<Rightarrow> defaultTTLResolver \<Rightarrow> string \<Rightarrow> nat list \<Rightarrow> netip_addr list \<Rightarrow> duration \<Rightarrow> bool \<Rightarrow> 'w
       \<Rightarrow> ((go_error + answer) \<times> 'w) option" where
  "collect_types W r host [] collected minTTL seenTTL w =
     Some (if collected = [] then Inl (Sentinel ErrNoTTLAnswer) else Inr (collected, minTTL), w)"
| "collect_types W r host (qtype # qtypes) collected minTTL seenTTL w =
     do { q \<leftarrow> queryType W r host qtype w;
          (case q of
             (Inl e, w') \<Rightarrow>
               if errors_Is e ErrNoTTLAnswer
               then collect_types W r host qtypes collected minTTL seenTTL w'
               else Some (Inl e, w')
           | (Inr (addrs, ttl), w') \<Rightarrow>
               if addrs = [] then collect_types W r host qtypes collected minTTL seenTTL w'
               else if ttl > 0 \<and> (\<not> seenTTL \<or> ttl < minTTL)
               then collect_types W r host qtypes (collected @ addrs) ttl True w'
               else collect_types W r host qtypes (collected @ addrs) minTTL seenTTL w') }"

definition lookupWithTTL ::
    "'w dns_world \<Rightarrow> defaultTTLResolver \<Rightarrow> string \<Rightarrow> 'w
       \<Rightarrow> ((go_error + answer) \<times> defaultTTLResolver \<times> 'w) option" where
  "lookupWithTTL W r host w =
     (case initConfig W r w of
        (Some e, r', w') \<Rightarrow> Some (Inl e, r', w')
      | (None, r', w') \<Rightarrow>
          do { q \<leftarrow> collect_types W r' host [TypeA, TypeAAAA] [] 0 False w';
               Some (fst q, r', snd q) })"

definition resolver_Lookup ::
    "'w dns_world \<Rightarrow> defaultTTLResolver \<Rightarrow> string \<Rightarrow> 'w
       \<Rightarrow> ((go_error + answer) \<times> defaultTTLResolver \<times> 'w) option" where
  "resolver_Lookup W r host w =
     (case parse_addr host of
        Some ip \<Rightarrow> Some (Inr ([ip], 0), r, w)
      | None \<Rightarrow>
          do { (res, r', w') \<leftarrow> lookupWithTTL W r (str_trimSuffix host ''.'') w;
               (case res of
                  Inr (a # addrs, ttl) \<Rightarrow> Some (Inr (a # addrs, ttl), r', w')
                | _ \<Rightarrow>
                    (case dw_LookupNetIP W host w' of
                       (Inl fallbackErr, w'') \<Rightarrow>
                         (case res of
                            Inl e \<Rightarrow> Some (Inl (JoinError [e, fallbackErr]), r', w'')
                          | Inr _ \<Rightarrow> Some (Inl fallbackErr, r', w''))
                     | (Inr ips, w'') \<Rightarrow> Some (Inr (ips, 0), r', w''))) })"

section \<open>The least positive TTL\<close>

text \<open>
  The loops over records and over record types keep the least positive TTL in the same way.
  \<open>ttl_step\<close> is that update, \<open>min_positive\<close> what it computes.
\<close>

fun ttl_step :: "duration \<times> bool \<Rightarrow> duration \<Rightarrow> duration \<times> bool" where
  "ttl_step (m, seen) t = (if t > 0 \<and> (\<not> seen \<or> t < m) then (t, True) else (m, seen))"

definition min_positive :: "duration list \<Rightarrow> duration" where
  "min_positive ts =
     (if \<exists>t \<in> set ts. 0 < t then Min {t \<in> set ts. 0 < t} else 0)"

lemma min_positive_Nil [simp]: "min_positive [] = 0"
  by (simp add: min_positive_def)

lemma min_positive_in: "min_positive ts \<noteq> 0 \<Longrightarrow> min_positive ts \<in> set ts \<and> 0 < min_positive ts"
proof -
  assume "min_positive ts \<noteq> 0"
  then have "{t \<in> set ts. 0 < t} \<noteq> {}" by (auto simp: min_positive_def split: if_splits)
  then have "Min {t \<in> set ts. 0 < t} \<in> {t \<in> set ts. 0 < t}" by (intro Min_in) auto
  then show ?thesis by (auto simp: min_positive_def)
qed

lemma min_positive_le: "t \<in> set ts \<Longrightarrow> 0 < t \<Longrightarrow> min_positive ts \<le> t"
  by (auto simp: min_positive_def)

lemma min_positive_nonneg [simp]: "0 \<le> min_positive ts"
  using min_positive_in [of ts] by fastforce

lemma min_positive_snoc:
  "min_positive (ts @ [t]) =
     (if 0 < t \<and> ((\<forall>u \<in> set ts. u \<le> 0) \<or> t < min_positive ts) then t else min_positive ts)"
proof (cases "0 < t")
  case True
  then have eq: "{u \<in> set (ts @ [t]). 0 < u} = insert t {u \<in> set ts. 0 < u}" by auto
  show ?thesis
  proof (cases "\<exists>u \<in> set ts. 0 < u")
    case True
    then have "Min (insert t {u \<in> set ts. 0 < u}) = min t (Min {u \<in> set ts. 0 < u})"
      by (intro Min_insert) auto
    with True \<open>0 < t\<close> show ?thesis unfolding min_positive_def eq by (auto simp: not_le)
  next
    case False
    then have "{u \<in> set ts. 0 < u} = {}" by auto
    with eq have "{u \<in> set (ts @ [t]). 0 < u} = {t}" by simp
    with False \<open>0 < t\<close> show ?thesis by (auto simp: min_positive_def not_less)
  qed
next
  case False
  then have "{u \<in> set (ts @ [t]). 0 < u} = {u \<in> set ts. 0 < u}" by auto
  with False show ?thesis by (auto simp: min_positive_def)
qed

lemma foldl_ttl_step: "foldl ttl_step (0, False) ts = (min_positive ts, \<exists>t \<in> set ts. 0 < t)"
  by (induction ts rule: rev_induct) (auto simp: min_positive_snoc not_le)

section \<open>Lemmas on answer sections\<close>

lemma seconds_in64: "0 \<le> n \<Longrightarrow> n < 4294967296 \<Longrightarrow> in64 (n * time_Second)"
  by (simp add: in64_def time_Second_def)

lemma ttl_duration_exact: "ttl_duration t = int (unat t) * time_Second"
proof -
  have "in64 (int (unat t) * time_Second)"
    using unsigned_less [of t, where ?'a = int] by (intro seconds_in64) simp_all
  then show ?thesis by (simp add: ttl_duration_def wrap64_id)
qed

text \<open>The records that count: those with a header and an extractable address, with their TTL.\<close>

definition usable_rr :: "dns_rr \<Rightarrow> (netip_addr \<times> duration) option" where
  "usable_rr rr =
     (case (rr_Header rr, extractAddr rr) of
        (Some h, Some addr) \<Rightarrow> Some (addr, int (unat (hdr_Ttl h)) * time_Second)
      | _ \<Rightarrow> None)"

definition usable :: "dns_rr list \<Rightarrow> (netip_addr \<times> duration) list" where
  "usable rrs = List.map_filter usable_rr rrs"

lemma usable_simps [simp]:
  "usable [] = []"
  "usable (rr # rrs) = (case usable_rr rr of None \<Rightarrow> usable rrs | Some x \<Rightarrow> x # usable rrs)"
  by (simp_all add: usable_def List.map_filter_simps split: option.split)

lemma parse_loop_eq:
  "parse_loop rrs addresses m seen =
     (addresses @ map fst (usable rrs), fst (foldl ttl_step (m, seen) (map snd (usable rrs))))"
  by (induction rrs arbitrary: addresses m seen)
     (auto simp: usable_rr_def ttl_duration_exact Let_def split: option.splits)

lemma parseAnswers_eq:
  "parseAnswers rrs =
     (if usable rrs = [] then Inl (Sentinel ErrNoTTLAnswer)
      else Inr (map fst (usable rrs), min_positive (map snd (usable rrs))))"
  by (simp add: parseAnswers_def parse_loop_eq foldl_ttl_step)

lemma usable_ttl_bounds:
  "(addr, ttl) \<in> set (usable rrs) \<Longrightarrow> 0 \<le> ttl \<and> ttl \<le> (2 ^ 32 - 1) * time_Second"
proof -
  assume "(addr, ttl) \<in> set (usable rrs)"
  then obtain rr where "usable_rr rr = Some (addr, ttl)"
    by (auto simp: usable_def List.map_filter_def)
  then obtain h :: rr_header where ttl: "ttl = int (unat (hdr_Ttl h)) * time_Second"
    unfolding usable_rr_def by (auto split: option.splits simp del: of_nat_unat)
  have "int (unat (hdr_Ttl h)) < 2 ^ 32"
    using unsigned_less [of "hdr_Ttl h", where ?'a = int] by simp
  then show ?thesis unfolding ttl by (simp add: time_Second_def)
qed

lemma min_positive_bounds:
  "\<forall>t \<in> set ts. t \<le> b \<Longrightarrow> 0 \<le> b \<Longrightarrow> min_positive ts \<le> b"
  using min_positive_in [of ts] by (cases "min_positive ts = 0") auto

section \<open>Lemmas on queries\<close>

definition resolver_inv :: "defaultTTLResolver \<Rightarrow> bool" where
  "resolver_inv r \<longleftrightarrow> (res_once r \<and> res_cfgErr r = None \<longrightarrow> res_cfg r \<noteq> None)"

lemma resolver_inv_new [simp]: "resolver_inv newDefaultTTLResolver"
  by (simp add: resolver_inv_def newDefaultTTLResolver_def)

lemma initConfig_spec:
  assumes "initConfig W r w = (e, r', w')" and "resolver_inv r"
  shows "resolver_inv r' \<and> res_once r' \<and> (e = None \<longrightarrow> res_cfg r' \<noteq> None) \<and>
    (res_once r \<longrightarrow> r' = r \<and> w' = w)"
  using assms by (auto simp: initConfig_def resolver_inv_def split: if_splits prod.splits sum.splits)

lemma queryType_Some: "res_cfg r \<noteq> None \<Longrightarrow> \<exists>q. queryType W r host qtype w = Some q"
  by (auto simp: queryType_def)

lemma collect_types_Some:
  "res_cfg r \<noteq> None \<Longrightarrow> \<exists>q. collect_types W r host qtypes collected m seen w = Some q"
proof (induction qtypes arbitrary: collected m seen w)
  case (Cons qtype qtypes)
  obtain q w' where "queryType W r host qtype w = Some (q, w')"
    using queryType_Some [OF Cons.prems] by (metis surj_pair)
  with Cons show ?case by (auto split: sum.splits)
qed simp

lemma query_servers_nonempty:
  "query_servers W cfg question qtype servers w = (Inr (addrs, ttl), w') \<Longrightarrow> addrs \<noteq> []"
  by (induction W cfg question qtype servers w rule: query_servers.induct)
     (auto split: prod.splits sum.splits option.splits if_splits)

lemma collect_types_nonempty:
  "collect_types W r host qtypes collected m seen w = Some (Inr (addrs, ttl), w') \<Longrightarrow> addrs \<noteq> []"
proof (induction qtypes arbitrary: collected m seen w)
  case (Cons qtype qtypes)
  then obtain q w1 where "queryType W r host qtype w = Some (q, w1)" by (auto simp: run_iff)
  with Cons show ?case by (cases q) (auto split: if_splits prod.splits)
qed (auto split: if_splits)

lemma lookupWithTTL_Some:
  assumes "resolver_inv r"
  shows "\<exists>res r' w'. lookupWithTTL W r host w = Some (res, r', w') \<and> resolver_inv r' \<and>
    (res_once r \<longrightarrow> r' = r)"
proof -
  obtain e r' w' where init: "initConfig W r w = (e, r', w')" by (cases "initConfig W r w")
  note spec = initConfig_spec [OF this assms]
  show ?thesis
  proof (cases e)
    case None
    then have "res_cfg r' \<noteq> None" using spec by simp
    from collect_types_Some [OF this, of W host "[TypeA, TypeAAAA]" "[]" 0 False w'] obtain q
      where "collect_types W r' host [TypeA, TypeAAAA] [] 0 False w' = Some q" by blast
    with None init spec show ?thesis
      by (simp add: lookupWithTTL_def del: collect_types.simps)
  next
    case (Some a)
    with init spec show ?thesis by (simp add: lookupWithTTL_def)
  qed
qed

lemma resolver_Lookup_name:
  assumes "parse_addr host = None"
    and "lookupWithTTL W r (str_trimSuffix host ''.'') w = Some (res, r1, w1)"
    and "dw_LookupNetIP W host w1 = (reply, w2)"
  shows "resolver_Lookup W r host w =
    Some (if \<exists>ans. res = Inr ans \<and> fst ans \<noteq> [] then (res, r1, w1)
      else (case reply of
              Inr ips \<Rightarrow> Inr (ips, 0)
            | Inl fe \<Rightarrow> Inl (case res of Inl e \<Rightarrow> JoinError [e, fe] | Inr _ \<Rightarrow> fe), r1, w2))"
  using assms by (simp add: resolver_Lookup_def split: sum.split prod.split list.split)

section \<open>Reference descriptions of a query\<close>

text \<open>
  A reply is decisive if it ends the loop over the servers: an answer with addresses, or a
  cancellation. Any other reply makes the resolver try the next server.
\<close>

definition decisive :: "go_error + answer \<Rightarrow> bool" where
  "decisive reply =
     (case reply of
        Inl e \<Rightarrow> \<not> errors_Is e ErrNoTTLAnswer \<and> ctx_error e
      | Inr (addrs, ttl) \<Rightarrow> addrs \<noteq> [])"

text \<open>The non-empty answers of the two queries, merged.\<close>

definition answers_of :: "go_error + answer \<Rightarrow> answer list" where
  "answers_of reply = (case reply of Inl e \<Rightarrow> [] | Inr ans \<Rightarrow> if fst ans = [] then [] else [ans])"

definition merge_answers :: "answer list \<Rightarrow> go_error + answer" where
  "merge_answers xs =
     (if xs = [] then Inl (Sentinel ErrNoTTLAnswer)
      else Inr (concat (map fst xs), min_positive (map snd xs)))"

definition no_answer :: "go_error + answer \<Rightarrow> bool" where
  "no_answer reply = (case reply of Inl e \<Rightarrow> errors_Is e ErrNoTTLAnswer | Inr _ \<Rightarrow> True)"

lemma min_positive_one: "min_positive [t] = (if 0 < t then t else 0)"
  using min_positive_snoc [of "[]" t] by simp

lemma min_positive_two:
  "min_positive [t, u] = (if 0 < u \<and> (t \<le> 0 \<or> u < t) then u else if 0 < t then t else 0)"
  using min_positive_snoc [of "[t]" u] by (auto simp: min_positive_one)

section \<open>Properties\<close>

text \<open>
  C15. Reading an answer section yields exactly the addresses of the A and AAAA records that
  have a header, in order, with the least positive TTL among them (0 if none is positive); the
  TTL in nanoseconds never overflows 64 bits; with no address the result is the no-answer error.
\<close>

theorem parseAnswers_correct:
  "parseAnswers rrs =
     (if usable rrs = [] then Inl (Sentinel ErrNoTTLAnswer)
      else Inr (map fst (usable rrs), min_positive (map snd (usable rrs)))) \<and>
   0 \<le> min_positive (map snd (usable rrs)) \<and>
   min_positive (map snd (usable rrs)) \<le> (2 ^ 32 - 1) * time_Second"
proof -
  have "\<forall>t \<in> set (map snd (usable rrs)). t \<le> (2 ^ 32 - 1) * time_Second"
    using usable_ttl_bounds by fastforce
  then have "min_positive (map snd (usable rrs)) \<le> (2 ^ 32 - 1) * time_Second"
    by (rule min_positive_bounds) (simp add: time_Second_def)
  then show ?thesis by (simp add: parseAnswers_eq)
qed

text \<open>
  Fail-over between servers: while the context stays alive, the query returns the reply of
  the first server whose reply is decisive, and the no-answer error if there is none. A server
  that fails, refuses or answers without addresses never ends the query.
\<close>

theorem query_servers_failover:
  assumes "\<And>w. dw_ctxErr W w = (None, w)"
    and "\<And>s w. exchange W cfg question qtype s w = (reply s, w)"
  shows "query_servers W cfg question qtype servers w =
    (case find (\<lambda>s. decisive (reply s)) servers of
       None \<Rightarrow> Inl (Sentinel ErrNoTTLAnswer)
     | Some s \<Rightarrow> reply s, w)"
proof (induction servers)
  case (Cons s servers)
  then show ?case using assms
    by (auto simp: decisive_def split: sum.splits prod.splits)
qed simp

definition example_world :: "unit dns_world" where
  "example_world =
     \<lparr>dw_ConfigFromFile = (\<lambda>w. (Inr \<lparr>cfg_Servers = [''a'', ''b''], cfg_Port = ''53''\<rparr>, w)),
      dw_ctxErr = (\<lambda>w. (None, w)),
      dw_Fqdn = (\<lambda>h. h @ ''.''),
      dw_ExchangeContext = (\<lambda>q ty server w.
        (if server = ''a:53'' then Inl (ErrorString ''refused'')
         else Inr (Some \<lparr>msg_Rcode = 0,
                msg_Answer = [\<lparr>rr_Header = Some \<lparr>hdr_Ttl = 60\<rparr>, rr_Data = RR_A [192, 0, 2, 1]\<rparr>]\<rparr>), w)),
      dw_LookupNetIP = (\<lambda>h w. (Inl (ErrorString ''no such host''), w))\<rparr>"

theorem query_servers_failover_witness:
  "query_servers example_world \<lparr>cfg_Servers = [''a'', ''b''], cfg_Port = ''53''\<rparr> ''h.'' TypeA [''a'', ''b''] () =
     (Inr ([AddrV4 192 0 2 1], 60 * time_Second), ())"
proof -
  let ?cfg = "\<lparr>cfg_Servers = [''a'', ''b''], cfg_Port = ''53''\<rparr>"
  let ?reply = "\<lambda>s. fst (exchange example_world ?cfg ''h.'' TypeA s ())"
  have "query_servers example_world ?cfg ''h.'' TypeA [''a'', ''b''] () =
    (case find (\<lambda>s. decisive (?reply s)) [''a'', ''b''] of
       None \<Rightarrow> Inl (Sentinel ErrNoTTLAnswer) | Some s \<Rightarrow> ?reply s, ())"
    by (rule query_servers_failover) (simp add: example_world_def, simp add: prod_eq_iff)
  moreover have "?reply ''a'' = Inl (ErrorString ''refused'')"
    by (simp add: exchange_def example_world_def JoinHostPort_def)
  moreover have "?reply ''b'' = Inr ([AddrV4 192 0 2 1], 60 * time_Second)"
    by (simp add: exchange_def example_world_def JoinHostPort_def RcodeSuccess_def parseAnswers_eq
        usable_rr_def extractAddr_def addr_from_slice_def min_positive_one time_Second_def)
  ultimately show ?thesis by (simp add: decisive_def ctx_error_def)
qed

text \<open>
  The lookup with TTLs asks for A records, then for AAAA records, and merges the two
  answers: addresses in that order, least positive TTL; a type without an answer is skipped,
  and the no-answer error means that neither type has one.
\<close>

theorem lookupWithTTL_merges:
  assumes "initConfig W r w = (None, r', w0)"
    and "queryType W r' host TypeA w0 = Some (reply4, w1)"
    and "queryType W r' host TypeAAAA w1 = Some (reply6, w2)"
    and "no_answer reply4" and "no_answer reply6"
  shows "lookupWithTTL W r host w = Some (merge_answers (answers_of reply4 @ answers_of reply6), r', w2)"
  using assms
  by (auto simp: lookupWithTTL_def merge_answers_def answers_of_def no_answer_def
      min_positive_one min_positive_two split: sum.splits prod.splits)

theorem lookupWithTTL_merges_witness:
  "lookupWithTTL example_world newDefaultTTLResolver ''h'' () =
     Some (Inr ([AddrV4 192 0 2 1, AddrV4 192 0 2 1], 60 * time_Second),
       \<lparr>res_once = True, res_cfg = Some \<lparr>cfg_Servers = [''a'', ''b''], cfg_Port = ''53''\<rparr>,
        res_cfgErr = None, res_clientTimeout = 5 * time_Second\<rparr>, ())"
proof -
  let ?r = "\<lparr>res_once = True, res_cfg = Some \<lparr>cfg_Servers = [''a'', ''b''], cfg_Port = ''53''\<rparr>,
        res_cfgErr = None, res_clientTimeout = 5 * time_Second\<rparr>"
  let ?ans = "Inr ([AddrV4 192 0 2 1], 60 * time_Second) :: go_error + answer"
  have init: "initConfig example_world newDefaultTTLResolver () = (None, ?r, ())"
    by (simp add: initConfig_def example_world_def newDefaultTTLResolver_def)
  have q: "queryType example_world ?r ''h'' qtype () = Some (?ans, ())" for qtype
    by (simp add: queryType_def exchange_def example_world_def JoinHostPort_def RcodeSuccess_def
        parseAnswers_eq usable_rr_def extractAddr_def addr_from_slice_def min_positive_one
        time_Second_def ctx_error_def)
  have na: "no_answer ?ans" by (simp add: no_answer_def)
  show ?thesis
    using lookupWithTTL_merges [OF init q [of TypeA] q [of TypeAAAA] na na]
    by (simp add: merge_answers_def answers_of_def min_positive_two time_Second_def)
qed

text \<open>
  Looking up the text of an IPv4 address returns that address with TTL 0 and touches
  neither the network nor the resolver's state.
\<close>

theorem resolver_Lookup_literal:
  "resolver_Lookup W r (addr_string (AddrV4 a b c d)) w = Some (Inr ([AddrV4 a b c d], 0), r, w)"
  by (simp add: resolver_Lookup_def parse_addr_string4 del: addr_string.simps)

text \<open>
  A lookup of the default resolver always returns: the configuration pointer it uses is
  never nil. The configuration file is read at most once in the life of a resolver, and what
  it gave, error included, is kept.
\<close>

theorem resolver_Lookup_total:
  assumes "resolver_inv r"
  shows "\<exists>res r' w'. resolver_Lookup W r host w = Some (res, r', w') \<and> resolver_inv r' \<and>
    (res_once r \<longrightarrow> r' = r)"
proof (cases "parse_addr host")
  case None
  obtain res r1 w1 where lk: "lookupWithTTL W r (str_trimSuffix host ''.'') w = Some (res, r1, w1)"
    and r1: "resolver_inv r1 \<and> (res_once r \<longrightarrow> r1 = r)"
    using lookupWithTTL_Some [OF assms, of W "str_trimSuffix host ''.''" w] by blast
  obtain reply w2 where "dw_LookupNetIP W host w1 = (reply, w2)" by fastforce
  from resolver_Lookup_name [OF None lk this] r1 show ?thesis
    by (cases "\<exists>ans. res = Inr ans \<and> fst ans \<noteq> []") auto
next
  case (Some ip)
  with assms show ?thesis by (simp add: resolver_Lookup_def)
qed

theorem resolver_Lookup_total_witness:
  "\<exists>res r' w'. resolver_Lookup example_world newDefaultTTLResolver ''h'' () = Some (res, r', w') \<and>
     resolver_inv r' \<and> (res_once newDefaultTTLResolver \<longrightarrow> r' = newDefaultTTLResolver)"
  by (rule resolver_Lookup_total) simp

text \<open>
  The default resolver reports an error only when the system resolver has failed as well,
  and the error it reports is then the system resolver's, alone or joined with the one of the
  TTL lookup.
\<close>

theorem resolver_Lookup_error:
  assumes "resolver_Lookup W r host w = Some (Inl e, r', w')"
  shows "\<exists>w1 fallbackErr. dw_LookupNetIP W host w1 = (Inl fallbackErr, w') \<and>
    (e = fallbackErr \<or> (\<exists>ttlErr. e = JoinError [ttlErr, fallbackErr]))"
proof -
  from assms obtain res r1 w1 where name: "parse_addr host = None"
    and lk: "lookupWithTTL W r (str_trimSuffix host ''.'') w = Some (res, r1, w1)"
    by (auto simp: resolver_Lookup_def run_iff split: option.splits)
  obtain reply w2 where sys: "dw_LookupNetIP W host w1 = (reply, w2)" by fastforce
  have "w' = w2 \<and> (\<exists>fe. reply = Inl fe \<and> (e = fe \<or> (\<exists>a. e = JoinError [a, fe])))"
    using assms resolver_Lookup_name [OF name lk sys] by (auto split: if_splits sum.splits)
  with sys show ?thesis by blast
qed

theorem resolver_Lookup_error_witness:
  "\<exists>w1 fallbackErr.
     dw_LookupNetIP (example_world\<lparr>dw_ConfigFromFile := (\<lambda>w. (Inl (ErrorString ''x''), w))\<rparr>) ''h'' w1
       = (Inl fallbackErr, ()) \<and>
     (JoinError [ErrorString ''x'', ErrorString ''no such host''] = fallbackErr \<or>
      (\<exists>ttlErr. JoinError [ErrorString ''x'', ErrorString ''no such host''] = JoinError [ttlErr, fallbackErr]))"
proof (rule resolver_Lookup_error)
  show "resolver_Lookup (example_world\<lparr>dw_ConfigFromFile := (\<lambda>w. (Inl (ErrorString ''x''), w))\<rparr>)
      newDefaultTTLResolver ''h'' () =
    Some (Inl (JoinError [ErrorString ''x'', ErrorString ''no such host'']),
      newDefaultTTLResolver\<lparr>res_once := True, res_cfgErr := Some (ErrorString ''x'')\<rparr>, ())"
    by (simp add: resolver_Lookup_def parse_addr_def lookupWithTTL_def initConfig_def
        example_world_def newDefaultTTLResolver_def)
qed

end
