(* ===== verification/DNS_Manager.thy ===== *)
theory DNS_Manager
  imports DNS_Policy
begin

text \<open>
  \<^verbatim>\<open>dns_policy_manager.go\<close>, part one: the state of a \<^verbatim>\<open>dnsPolicyManager\<close>, the lookup, the
  refresh modes and the guard rail.

  The mutex \<^verbatim>\<open>mu\<close> is held for the critical sections only; each of them is a definition here, and a
  resolve function is their composition with a lookup in between. \<^verbatim>\<open>DNS_Concurrent\<close> interleaves the
  same critical sections. What one call sees of the outside (the clock, the resolver's reply through
  the shared \<^verbatim>\<open>singleflight\<close> call, the cancellation that may win the \<^verbatim>\<open>select\<close>) is the record
  \<open>lookup_env\<close>. \<open>None\<close> as the result of a resolve function is a panic.
\<close>

section \<open>State\<close>

record dnsCacheEntry =
  ce_addrs :: "netip_addr list"
  ce_expiresAt :: gotime
  ce_lastLookup :: gotime

record guardRailState =
  gr_policy :: DNSGuardRailPolicy
  gr_count :: int
  gr_firstFailure :: gotime
  gr_lastFailure :: gotime
  gr_triggered :: bool

record dnsPolicyManager =
  mgr_policy :: DNSPolicy
  mgr_resolver :: "TTLResolver option"
  mgr_hook :: bool
  mgr_cache :: dnsCacheEntry
  mgr_cadenceNext :: gotime
  mgr_forceLookup :: bool
  mgr_guard :: guardRailState
  mgr_lastDecision :: "DNSDecision option"

definition empty_cache :: dnsCacheEntry where
  "empty_cache = \<lparr>ce_addrs = [], ce_expiresAt = zero_time, ce_lastLookup = zero_time\<rparr>"

text \<open>\<open>mgr_hook\<close> says whether the decision callback is set.\<close>

definition newDNSPolicyManager :: "DNSPolicy \<Rightarrow> bool \<Rightarrow> dnsPolicyManager" where
  "newDNSPolicyManager policy hook =
     \<lparr>mgr_policy = policy,
      mgr_resolver = (case pol_Resolver policy of
                        Some r \<Rightarrow> Some r
                      | None \<Rightarrow> Some DefaultTTLResolver),
      mgr_hook = hook,
      mgr_cache = empty_cache,
      mgr_cadenceNext = zero_time,
      mgr_forceLookup = False,
      mgr_guard = \<lparr>gr_policy = pol_GuardRail policy, gr_count = 0, gr_firstFailure = zero_time,
                   gr_lastFailure = zero_time, gr_triggered = False\<rparr>,
      mgr_lastDecision = None\<rparr>"

record dnsResolveOutcome =
  ro_address :: string
  ro_forceNewConn :: bool
  ro_decision :: "DNSDecision option"
  ro_fallbackErr :: go_err

definition zero_outcome :: dnsResolveOutcome where
  "zero_outcome =
     \<lparr>ro_address = [], ro_forceNewConn = False, ro_decision = None, ro_fallbackErr = None\<rparr>"

text \<open>A Go pair \<^verbatim>\<open>(dnsResolveOutcome, error)\<close>: the outcome is looked at even beside an error.\<close>

type_synonym resolved = "dnsResolveOutcome \<times> go_err"

definition nonNegativeDuration :: "duration \<Rightarrow> duration" where
  "nonNegativeDuration d = (if d < 0 then 0 else d)"

section \<open>Lookup\<close>

record lfResult =
  lf_addrs :: "netip_addr list"
  lf_ttl :: duration
  lf_lookupDur :: duration

text \<open>
  \<open>le_now\<close> is \<^verbatim>\<open>time.Now()\<close> on entry and \<open>le_after\<close> after the lookup; \<open>le_reply\<close> and \<open>le_dur\<close> are the
  resolver's return and the measured duration in the shared call; \<open>le_done\<close> is set when the
  \<^verbatim>\<open>select\<close> takes the branch of the cancelled context.
\<close>

record lookup_env =
  le_now :: gotime
  le_after :: gotime
  le_reply :: "go_error + netip_addr list \<times> duration"
  le_dur :: duration
  le_done :: go_err

text \<open>The function run by \<^verbatim>\<open>singleflight\<close>.\<close>

definition lookup_closure :: "go_error + netip_addr list \<times> duration \<Rightarrow> duration \<Rightarrow> go_error + lfResult" where
  "lookup_closure reply dur =
     (case reply of
        Inl err \<Rightarrow> Inl err
      | Inr (addrs, ttl) \<Rightarrow>
          if addrs = [] then Inl (ErrorString ''resolver returned no addresses'')
          else Inr \<lparr>lf_addrs = addrs, lf_ttl = ttl, lf_lookupDur = dur\<rparr>)"

definition mgr_lookup :: "dnsPolicyManager \<Rightarrow> lookup_env \<Rightarrow> go_error + lfResult" where
  "mgr_lookup m env =
     (if mgr_resolver m = None then Inl (ErrorString ''resolver not configured'')
      else
        (case le_done env of
           Some e \<Rightarrow> Inl e
         | None \<Rightarrow> lookup_closure (le_reply env) (le_dur env)))"

text \<open>The decision and the outcome of a lookup that failed with nothing to fall back to.\<close>

definition failed_lookup :: "DNSPolicy \<Rightarrow> string \<Rightarrow> go_error \<Rightarrow> resolved" where
  "failed_lookup policy host err =
     (zero_outcome\<lparr>ro_decision :=
        Some ((new_decision host (pol_Mode policy))\<lparr>dec_LookupDuration := 0, dec_Err := Some err\<rparr>)\<rparr>,
      Some err)"

text \<open>\<^verbatim>\<open>net.JoinHostPort(addrs[0].String(), port)\<close>, which panics without addresses.\<close>

definition dial_address :: "netip_addr list \<Rightarrow> string \<Rightarrow> string option" where
  "dial_address addrs port = do { a \<leftarrow> index0 addrs; Some (JoinHostPort (addr_string a) port) }"

section \<open>Single lookup\<close>

definition single_reuse :: "DNSPolicy \<Rightarrow> dnsCacheEntry \<Rightarrow> string \<Rightarrow> string \<Rightarrow> resolved option" where
  "single_reuse policy cached host port = do {
     addr \<leftarrow> dial_address (ce_addrs cached) port;
     Some (zero_outcome\<lparr>ro_address := addr,
             ro_decision := Some ((new_decision host (pol_Mode policy))
                               \<lparr>dec_ResolvedAddrs := ce_addrs cached\<rparr>)\<rparr>, None) }"

definition single_entry :: "lookup_env \<Rightarrow> lfResult \<Rightarrow> dnsCacheEntry" where
  "single_entry env lf =
     \<lparr>ce_addrs = lf_addrs lf, ce_expiresAt = zero_time, ce_lastLookup = le_after env\<rparr>"

definition single_refreshed :: "DNSPolicy \<Rightarrow> string \<Rightarrow> string \<Rightarrow> lfResult \<Rightarrow> resolved option" where
  "single_refreshed policy host port lf = do {
     addr \<leftarrow> dial_address (lf_addrs lf) port;
     Some (zero_outcome\<lparr>ro_address := addr, ro_forceNewConn := True,
             ro_decision := Some ((new_decision host (pol_Mode policy))
                               \<lparr>dec_ResolvedAddrs := lf_addrs lf, dec_TTL := lf_ttl lf,
                                dec_LookupDuration := lf_lookupDur lf\<rparr>)\<rparr>, None) }"

definition resolveSingle ::
    "dnsPolicyManager \<Rightarrow> lookup_env \<Rightarrow> string \<Rightarrow> string \<Rightarrow> (dnsPolicyManager \<times> resolved) option" where
  "resolveSingle m env host port =
     (let cached = mgr_cache m
      in if ce_addrs cached \<noteq> [] then do { r \<leftarrow> single_reuse (mgr_policy m) cached host port; Some (m, r) }
         else
           (case mgr_lookup m env of
              Inl err \<Rightarrow> Some (m, failed_lookup (mgr_policy m) host err)
            | Inr lf \<Rightarrow> do {
                r \<leftarrow> single_refreshed (mgr_policy m) host port lf;
                Some (m\<lparr>mgr_cache := single_entry env lf\<rparr>, r) }))"

section \<open>TTL refresh\<close>

text \<open>The first critical section: is a lookup needed? The force flag is consumed either way.\<close>

definition ttl_expired :: "dnsPolicyManager \<Rightarrow> gotime \<Rightarrow> bool" where
  "ttl_expired m now \<longleftrightarrow>
     mgr_forceLookup m \<or> ce_addrs (mgr_cache m) = [] \<or>
     (\<not> time_IsZero (ce_expiresAt (mgr_cache m)) \<and> time_After now (ce_expiresAt (mgr_cache m)))"

definition clear_force :: "dnsPolicyManager \<Rightarrow> dnsPolicyManager" where
  "clear_force m = m\<lparr>mgr_forceLookup := False\<rparr>"

definition cached_ttl :: "dnsCacheEntry \<Rightarrow> duration" where
  "cached_ttl cached = nonNegativeDuration (time_Sub (ce_expiresAt cached) (ce_lastLookup cached))"

definition ttl_reuse :: "DNSPolicy \<Rightarrow> dnsCacheEntry \<Rightarrow> string \<Rightarrow> string \<Rightarrow> resolved option" where
  "ttl_reuse policy cached host port = do {
     addr \<leftarrow> dial_address (ce_addrs cached) port;
     Some (zero_outcome\<lparr>ro_address := addr,
             ro_decision := Some ((new_decision host (pol_Mode policy))
                               \<lparr>dec_ResolvedAddrs := ce_addrs cached, dec_TTL := cached_ttl cached,
                                dec_ExpiresAt := ce_expiresAt cached\<rparr>)\<rparr>, None) }"

definition ttl_failed :: "DNSPolicy \<Rightarrow> dnsCacheEntry \<Rightarrow> string \<Rightarrow> string \<Rightarrow> go_error \<Rightarrow> resolved option" where
  "ttl_failed policy cached host port err =
     (if ce_addrs cached \<noteq> [] \<and> fallbackEnabled policy then do {
        addr \<leftarrow> dial_address (ce_addrs cached) port;
        Some (zero_outcome\<lparr>ro_address := addr,
                ro_decision := Some ((new_decision host (pol_Mode policy))
                                  \<lparr>dec_ResolvedAddrs := ce_addrs cached, dec_TTL := cached_ttl cached,
                                   dec_ExpiresAt := ce_expiresAt cached, dec_Err := Some err\<rparr>),
                ro_fallbackErr := Some err\<rparr>, None) }
      else Some (failed_lookup policy host err))"

definition ttl_entry :: "DNSPolicy \<Rightarrow> gotime \<Rightarrow> lfResult \<Rightarrow> dnsCacheEntry" where
  "ttl_entry policy now lf =
     (let ttl = normalizeTTL policy (lf_ttl lf)
      in \<lparr>ce_addrs = lf_addrs lf,
          ce_expiresAt = (if ttl \<le> 0 then now else time_Add now ttl),
          ce_lastLookup = now\<rparr>)"

definition ttl_refreshed :: "DNSPolicy \<Rightarrow> gotime \<Rightarrow> string \<Rightarrow> string \<Rightarrow> lfResult \<Rightarrow> resolved option" where
  "ttl_refreshed policy now host port lf = do {
     addr \<leftarrow> dial_address (lf_addrs lf) port;
     Some (zero_outcome\<lparr>ro_address := addr, ro_forceNewConn := True,
             ro_decision := Some ((new_decision host (pol_Mode policy))
                               \<lparr>dec_ResolvedAddrs := lf_addrs lf,
                                dec_TTL := normalizeTTL policy (lf_ttl lf),
                                dec_ExpiresAt := ce_expiresAt (ttl_entry policy now lf),
                                dec_LookupDuration := lf_lookupDur lf\<rparr>)\<rparr>, None) }"

definition resolveTTL ::
    "dnsPolicyManager \<Rightarrow> lookup_env \<Rightarrow> string \<Rightarrow> string \<Rightarrow> (dnsPolicyManager \<times> resolved) option" where
  "resolveTTL m env host port =
     (let now = le_now env; cached = mgr_cache m; m1 = clear_force m; policy = mgr_policy m
      in if \<not> ttl_expired m now then do { r \<leftarrow> ttl_reuse policy cached host port; Some (m1, r) }
         else
           (case mgr_lookup m1 env of
              Inl err \<Rightarrow> do { r \<leftarrow> ttl_failed policy cached host port err; Some (m1, r) }
            | Inr lf \<Rightarrow> do {
                r \<leftarrow> ttl_refreshed policy now host port lf;
                Some (m1\<lparr>mgr_cache := ttl_entry policy now lf\<rparr>, r) }))"

section \<open>Cadence refresh\<close>

definition cadence_due :: "dnsPolicyManager \<Rightarrow> gotime \<Rightarrow> bool" where
  "cadence_due m now \<longleftrightarrow>
     mgr_forceLookup m \<or> ce_addrs (mgr_cache m) = [] \<or>
     (\<not> time_IsZero (mgr_cadenceNext m) \<and> time_After now (mgr_cadenceNext m))"

definition cadence_reuse :: "DNSPolicy \<Rightarrow> dnsCacheEntry \<Rightarrow> gotime \<Rightarrow> string \<Rightarrow> string \<Rightarrow> resolved option" where
  "cadence_reuse policy cached cadenceNext host port = do {
     addr \<leftarrow> dial_address (ce_addrs cached) port;
     Some (zero_outcome\<lparr>ro_address := addr,
             ro_decision := Some ((new_decision host (pol_Mode policy))
                               \<lparr>dec_ResolvedAddrs := ce_addrs cached, dec_ExpiresAt := cadenceNext\<rparr>)\<rparr>, None) }"

definition cadence_failed ::
    "DNSPolicy \<Rightarrow> dnsCacheEntry \<Rightarrow> gotime \<Rightarrow> string \<Rightarrow> string \<Rightarrow> go_error \<Rightarrow> resolved option" where
  "cadence_failed policy cached cadenceNext host port err =
     (if ce_addrs cached \<noteq> [] \<and> fallbackEnabled policy then do {
        addr \<leftarrow> dial_address (ce_addrs cached) port;
        Some (zero_outcome\<lparr>ro_address := addr,
                ro_decision := Some ((new_decision host (pol_Mode policy))
                                  \<lparr>dec_ResolvedAddrs := ce_addrs cached, dec_ExpiresAt := cadenceNext,
                                   dec_Err := Some err\<rparr>),
                ro_fallbackErr := Some err\<rparr>, None) }
      else Some (failed_lookup policy host err))"

definition cadence_entry :: "gotime \<Rightarrow> lfResult \<Rightarrow> dnsCacheEntry" where
  "cadence_entry now lf =
     \<lparr>ce_addrs = lf_addrs lf, ce_expiresAt = zero_time, ce_lastLookup = now\<rparr>"

definition cadence_refreshed :: "DNSPolicy \<Rightarrow> gotime \<Rightarrow> string \<Rightarrow> string \<Rightarrow> lfResult \<Rightarrow> resolved option" where
  "cadence_refreshed policy now host port lf = do {
     addr \<leftarrow> dial_address (lf_addrs lf) port;
     Some (zero_outcome\<lparr>ro_address := addr, ro_forceNewConn := True,
             ro_decision := Some ((new_decision host (pol_Mode policy))
                               \<lparr>dec_ResolvedAddrs := lf_addrs lf, dec_TTL := lf_ttl lf,
                                dec_ExpiresAt := time_Add now (pol_Cadence policy),
                                dec_LookupDuration := lf_lookupDur lf\<rparr>)\<rparr>, None) }"

definition resolveCadence ::
    "dnsPolicyManager \<Rightarrow> lookup_env \<Rightarrow> string \<Rightarrow> string \<Rightarrow> (dnsPolicyManager \<times> resolved) option" where
  "resolveCadence m env host port =
     (let now = le_now env; cached = mgr_cache m; cadenceNext = mgr_cadenceNext m;
          m1 = clear_force m; policy = mgr_policy m
      in if \<not> cadence_due m now \<and> ce_addrs cached \<noteq> []
         then do { r \<leftarrow> cadence_reuse policy cached cadenceNext host port; Some (m1, r) }
         else
           (case mgr_lookup m1 env of
              Inl err \<Rightarrow> do { r \<leftarrow> cadence_failed policy cached cadenceNext host port err; Some (m1, r) }
            | Inr lf \<Rightarrow> do {
                r \<leftarrow> cadence_refreshed policy now host port lf;
                Some (m1\<lparr>mgr_cache := cadence_entry now lf,
                         mgr_cadenceNext := time_Add now (pol_Cadence policy)\<rparr>, r) }))"

section \<open>Dispatch on the mode\<close>

definition mgr_resolve ::
    "dnsPolicyManager \<Rightarrow> lookup_env \<Rightarrow> string \<Rightarrow> string \<Rightarrow> (dnsPolicyManager \<times> resolved) option" where
  "mgr_resolve m env host port =
     (case pol_Mode (mgr_policy m) of
        DNSRefreshDefault \<Rightarrow> Some (m, zero_outcome, None)
      | DNSRefreshStatic \<Rightarrow>
          (let addr = pol_StaticAddr (mgr_policy m)
           in if addr = addr_port_zero
              then Some (m, zero_outcome, invalid_policy ''static address missing'')
              else Some (m, zero_outcome\<lparr>ro_address := addr_port_string addr,
                     ro_decision := Some ((new_decision host (pol_Mode (mgr_policy m)))
                                       \<lparr>dec_ResolvedAddrs := [ap_addr addr]\<rparr>)\<rparr>, None))
      | DNSRefreshSingleLookup \<Rightarrow> resolveSingle m env host port
      | DNSRefreshTTL \<Rightarrow> resolveTTL m env host port
      | DNSRefreshCadence \<Rightarrow> resolveCadence m env host port
      | DNSRefreshUnnamed _ \<Rightarrow> Some (m, zero_outcome, invalid_policy ''unsupported DNS mode''))"

section \<open>Guard rail\<close>

text \<open>The update of the window and the counters in the critical section of \<^verbatim>\<open>registerGuardFailure\<close>.\<close>

definition guard_window :: "guardRailState \<Rightarrow> gotime \<Rightarrow> guardRailState" where
  "guard_window g now =
     (if grp_Window (gr_policy g) > 0 then
        (if time_IsZero (gr_firstFailure g) \<or> time_Sub now (gr_firstFailure g) > grp_Window (gr_policy g)
         then g\<lparr>gr_count := 0, gr_firstFailure := now\<rparr> else g)
      else if time_IsZero (gr_firstFailure g) then g\<lparr>gr_firstFailure := now\<rparr> else g)"

definition registerGuardFailure :: "dnsPolicyManager \<Rightarrow> gotime \<Rightarrow> dnsPolicyManager" where
  "registerGuardFailure m now =
     (let policy = gr_policy (mgr_guard m)
      in if \<not> guard_Enabled policy then m
         else
           let g = guard_window (mgr_guard m) now;
               g' = g\<lparr>gr_count := wrap64 (gr_count g + 1), gr_lastFailure := now\<rparr>
           in if gr_count g' \<ge> grp_ConsecutiveErrorThreshold policy
              then m\<lparr>mgr_guard := g'\<lparr>gr_triggered := True, gr_count := 0, gr_firstFailure := zero_time\<rparr>,
                     mgr_forceLookup := (grp_Action policy = DNSGuardRailActionForceLookup \<or> mgr_forceLookup m)\<rparr>
              else m\<lparr>mgr_guard := g'\<rparr>)"

definition resetGuard :: "dnsPolicyManager \<Rightarrow> dnsPolicyManager" where
  "resetGuard m = m\<lparr>mgr_guard := (mgr_guard m)\<lparr>gr_count := 0, gr_firstFailure := zero_time,
                                    gr_lastFailure := zero_time\<rparr>\<rparr>"

definition serverErrorThreshold :: int where
  "serverErrorThreshold = 500"

definition observeResult :: "dnsPolicyManager \<Rightarrow> gotime \<Rightarrow> int \<Rightarrow> go_err \<Rightarrow> dnsPolicyManager" where
  "observeResult m now statusCode resultErr =
     (if \<not> guard_Enabled (gr_policy (mgr_guard m)) then m
      else if resultErr \<noteq> None \<or> statusCode \<ge> serverErrorThreshold then registerGuardFailure m now
      else resetGuard m)"

definition consumeGuardTrigger :: "dnsPolicyManager \<Rightarrow> bool \<times> dnsPolicyManager" where
  "consumeGuardTrigger m =
     (if \<not> gr_triggered (mgr_guard m) then (False, m)
      else (grp_Action (gr_policy (mgr_guard m)) \<noteq> DNSGuardRailActionNone,
            m\<lparr>mgr_guard := (mgr_guard m)\<lparr>gr_triggered := False\<rparr>\<rparr>))"

definition getLastDecision :: "dnsPolicyManager \<Rightarrow> DNSDecision option" where
  "getLastDecision m = mgr_lastDecision m"

end
