(* ===== verification/DNS_Resolve.thy ===== *)
theory DNS_Resolve
  imports DNS_Manager
begin

text \<open>
  What the three lookup modes of \<^verbatim>\<open>dns_policy_manager.go\<close> promise to the transport: the contract
  \<open>refresh_strategy\<close>, its consequences for sequences of requests, its interpretation on
  \<open>resolveSingle\<close>, \<open>resolveTTL\<close> and \<open>resolveCadence\<close>, and the properties of each mode.
\<close>

section \<open>Lemmas on lookups and outcomes\<close>

named_theorems resolve_defs \<open>the parts a resolve function is composed of\<close>

lemmas [resolve_defs] =
  single_reuse_def single_refreshed_def ttl_reuse_def ttl_failed_def ttl_refreshed_def
  cadence_reuse_def cadence_failed_def cadence_refreshed_def failed_lookup_def
  zero_outcome_def new_decision_def Let_def

lemma dial_address_ok [simp]:
  "addrs \<noteq> [] \<Longrightarrow> dial_address addrs port = Some (JoinHostPort (addr_string (hd addrs)) port)"
  by (simp add: dial_address_def index0_ok)

lemma clear_force_simps [simp]:
  "mgr_policy (clear_force m) = mgr_policy m"
  "mgr_resolver (clear_force m) = mgr_resolver m"
  "mgr_hook (clear_force m) = mgr_hook m"
  "mgr_cache (clear_force m) = mgr_cache m"
  "mgr_cadenceNext (clear_force m) = mgr_cadenceNext m"
  "mgr_forceLookup (clear_force m) = False"
  "mgr_guard (clear_force m) = mgr_guard m"
  "mgr_lastDecision (clear_force m) = mgr_lastDecision m"
  by (simp_all add: clear_force_def)

lemma mgr_lookup_clear_force [simp]: "mgr_lookup (clear_force m) env = mgr_lookup m env"
  by (simp add: mgr_lookup_def)

lemma mgr_lookup_nonempty: "mgr_lookup m env = Inr lf \<Longrightarrow> lf_addrs lf \<noteq> []"
  by (auto simp: mgr_lookup_def lookup_closure_def split: if_splits option.splits sum.splits prod.splits)

text \<open>A lookup that succeeds hands on what the resolver replied.\<close>

lemma mgr_lookup_reply:
  "mgr_lookup m env = Inr lf \<Longrightarrow>
     le_done env = None \<and> le_reply env = Inr (lf_addrs lf, lf_ttl lf) \<and> lf_lookupDur lf = le_dur env"
  by (auto simp: mgr_lookup_def lookup_closure_def split: if_splits option.splits sum.splits prod.splits)

text \<open>The addresses the resolver gave in a call, if any.\<close>

definition reply_addrs :: "lookup_env \<Rightarrow> netip_addr set" where
  "reply_addrs env = (case le_reply env of Inl _ \<Rightarrow> {} | Inr (addrs, _) \<Rightarrow> set addrs)"

lemma mgr_lookup_addrs: "mgr_lookup m env = Inr lf \<Longrightarrow> set (lf_addrs lf) = reply_addrs env"
  by (auto dest: mgr_lookup_reply simp: reply_addrs_def)

text \<open>An outcome that dials the first of the addresses it reports.\<close>

definition dials :: "dnsResolveOutcome \<Rightarrow> netip_addr list \<Rightarrow> string \<Rightarrow> string \<Rightarrow> bool" where
  "dials oc addrs host port \<longleftrightarrow>
     addrs \<noteq> [] \<and> ro_address oc = JoinHostPort (addr_string (hd addrs)) port \<and>
     (\<exists>d. ro_decision oc = Some d \<and> dec_ResolvedAddrs d = addrs \<and> dec_Host d = host)"

section \<open>The contract of a refresh mode\<close>

text \<open>
  A refresh mode turns a manager, the outside of one call, a host and a port into a new manager and
  a result. It never panics and leaves the policy, the guard rail and the last decision alone; a
  result without an error dials the first address of the cache it leaves; an error is the error of
  the lookup, dials nothing and leaves the cache; the cache changes only by a successful lookup;
  a fallback, which the policy has to allow, names the error of the lookup.
\<close>

locale refresh_strategy =
  fixes resolve :: "dnsPolicyManager \<Rightarrow> lookup_env \<Rightarrow> string \<Rightarrow> string \<Rightarrow> (dnsPolicyManager \<times> resolved) option"
  assumes total: "resolve m env host port \<noteq> None"
    and frame: "resolve m env host port = Some (m', r) \<Longrightarrow>
      mgr_policy m' = mgr_policy m \<and> mgr_resolver m' = mgr_resolver m \<and> mgr_hook m' = mgr_hook m \<and>
      mgr_guard m' = mgr_guard m \<and> mgr_lastDecision m' = mgr_lastDecision m"
    and answer: "resolve m env host port = Some (m', oc, None) \<Longrightarrow>
      dials oc (ce_addrs (mgr_cache m')) host port"
    and failure: "resolve m env host port = Some (m', oc, Some e) \<Longrightarrow>
      mgr_lookup m env = Inl e \<and> mgr_cache m' = mgr_cache m \<and> ro_address oc = [] \<and>
      \<not> ro_forceNewConn oc \<and> (ce_addrs (mgr_cache m) = [] \<or> \<not> fallbackEnabled (mgr_policy m)) \<and>
      (\<exists>d. ro_decision oc = Some d \<and> dec_Err d = Some e \<and> dec_Host d = host \<and> \<not> dec_FallbackUsed d)"
    and refresh: "resolve m env host port = Some (m', oc, err) \<Longrightarrow>
      (if ro_forceNewConn oc
       then \<exists>lf. mgr_lookup m env = Inr lf \<and> ce_addrs (mgr_cache m') = lf_addrs lf
       else mgr_cache m' = mgr_cache m)"
    and fallback: "resolve m env host port = Some (m', oc, None) \<Longrightarrow> ro_fallbackErr oc = Some e \<Longrightarrow>
      mgr_lookup m env = Inl e \<and> \<not> ro_forceNewConn oc \<and> ce_addrs (mgr_cache m) \<noteq> [] \<and>
      fallbackEnabled (mgr_policy m) \<and> (\<exists>d. ro_decision oc = Some d \<and> dec_Err d = Some e)"
begin

lemma answer_nonempty:
  "resolve m env host port = Some (m', oc, None) \<Longrightarrow> ce_addrs (mgr_cache m') \<noteq> []"
  using answer by (auto simp: dials_def)

lemma keeps_address:
  assumes "resolve m env host port = Some (m', oc, err)" and "ce_addrs (mgr_cache m) \<noteq> []"
  shows "ce_addrs (mgr_cache m') \<noteq> []"
  using refresh [OF assms(1)] assms(2) by (auto dest: mgr_lookup_nonempty split: if_splits)

lemma cache_provenance:
  assumes "resolve m env host port = Some (m', oc, err)"
  shows "set (ce_addrs (mgr_cache m')) \<subseteq> set (ce_addrs (mgr_cache m)) \<union> reply_addrs env"
  using refresh [OF assms] by (auto dest: mgr_lookup_addrs split: if_splits)

end

text \<open>Requests one after the other: for each, the outside of the call, the host and the port.\<close>

type_synonym request = "lookup_env \<times> string \<times> string"

fun run_resolve ::
    "(dnsPolicyManager \<Rightarrow> lookup_env \<Rightarrow> string \<Rightarrow> string \<Rightarrow> (dnsPolicyManager \<times> resolved) option)
       \<Rightarrow> dnsPolicyManager \<Rightarrow> request list \<Rightarrow> (dnsPolicyManager \<times> resolved list) option" where
  "run_resolve f m [] = Some (m, [])"
| "run_resolve f m ((env, host, port) # reqs) = do {
     (m1, r) \<leftarrow> f m env host port;
     (m2, rs) \<leftarrow> run_resolve f m1 reqs;
     Some (m2, r # rs) }"

text \<open>The addresses a result dials or reports.\<close>

definition result_addrs :: "resolved \<Rightarrow> netip_addr set" where
  "result_addrs r =
     (case r of (oc, Some e) \<Rightarrow> {}
      | (oc, None) \<Rightarrow> (case ro_decision oc of None \<Rightarrow> {} | Some d \<Rightarrow> set (dec_ResolvedAddrs d)))"

context refresh_strategy
begin

lemma result_addrs_cached:
  assumes "resolve m env host port = Some (m', oc, err)"
  shows "result_addrs (oc, err) \<subseteq> set (ce_addrs (mgr_cache m'))"
proof (cases err)
  case None
  with answer [of m env host port m' oc] assms show ?thesis
    by (auto simp: result_addrs_def dials_def)
qed (simp add: result_addrs_def)

lemma run_total: "\<exists>m' rs. run_resolve resolve m reqs = Some (m', rs) \<and> length rs = length reqs"
proof (induction reqs arbitrary: m)
  case (Cons req reqs)
  obtain env host port where req: "req = (env, host, port)" by (cases req)
  obtain m1 r where "resolve m env host port = Some (m1, r)"
    using total [of m env host port] by auto
  with Cons [of m1] req show ?case by auto
qed simp

text \<open>No address is invented: what is dialled was cached before or came from the resolver.\<close>

lemma run_provenance:
  assumes "run_resolve resolve m reqs = Some (m', rs)"
  shows "(\<Union>r \<in> set rs. result_addrs r) \<union> set (ce_addrs (mgr_cache m')) \<subseteq>
    set (ce_addrs (mgr_cache m)) \<union> (\<Union>(env, host, port) \<in> set reqs. reply_addrs env)"
  using assms
proof (induction reqs arbitrary: m rs)
  case (Cons req reqs)
  obtain env host port where req: "req = (env, host, port)" by (cases req)
  with Cons.prems obtain m1 oc err rs' where step: "resolve m env host port = Some (m1, oc, err)"
    and rest: "run_resolve resolve m1 reqs = Some (m', rs')" and rs: "rs = (oc, err) # rs'"
    by (auto simp: run_iff)
  have "result_addrs (oc, err) \<subseteq> set (ce_addrs (mgr_cache m1))"
    using result_addrs_cached step by blast
  with cache_provenance [OF step] Cons.IH [OF rest] show ?case
    unfolding rs req by fastforce
qed simp

lemma run_keeps_address:
  "run_resolve resolve m reqs = Some (m', rs) \<Longrightarrow> ce_addrs (mgr_cache m) \<noteq> [] \<Longrightarrow>
   ce_addrs (mgr_cache m') \<noteq> []"
proof (induction reqs arbitrary: m rs)
  case (Cons req reqs)
  obtain env host port where req: "req = (env, host, port)" by (cases req)
  with Cons.prems obtain m1 oc err rs' where step: "resolve m env host port = Some (m1, oc, err)"
    and rest: "run_resolve resolve m1 reqs = Some (m', rs')"
    by (auto simp: run_iff)
  from Cons.IH [OF rest] keeps_address [OF step Cons.prems(2)] show ?case by blast
qed simp

end

section \<open>The three modes keep the contract\<close>

lemma resolveSingle_eq:
  "resolveSingle m env host port =
     (if ce_addrs (mgr_cache m) \<noteq> []
      then Some (m, the (single_reuse (mgr_policy m) (mgr_cache m) host port))
      else
        (case mgr_lookup m env of
           Inl err \<Rightarrow> Some (m, failed_lookup (mgr_policy m) host err)
         | Inr lf \<Rightarrow> Some (m\<lparr>mgr_cache := single_entry env lf\<rparr>,
                       the (single_refreshed (mgr_policy m) host port lf))))"
  by (auto simp: resolveSingle_def resolve_defs mgr_lookup_nonempty split: sum.split)

lemma resolveTTL_eq:
  "resolveTTL m env host port =
     (if \<not> ttl_expired m (le_now env)
      then Some (clear_force m, the (ttl_reuse (mgr_policy m) (mgr_cache m) host port))
      else
        (case mgr_lookup m env of
           Inl err \<Rightarrow> Some (clear_force m, the (ttl_failed (mgr_policy m) (mgr_cache m) host port err))
         | Inr lf \<Rightarrow> Some ((clear_force m)\<lparr>mgr_cache := ttl_entry (mgr_policy m) (le_now env) lf\<rparr>,
                       the (ttl_refreshed (mgr_policy m) (le_now env) host port lf))))"
  by (auto simp: resolveTTL_def resolve_defs ttl_expired_def mgr_lookup_nonempty split: sum.split)

lemma resolveCadence_eq:
  "resolveCadence m env host port =
     (if \<not> cadence_due m (le_now env)
      then Some (clear_force m,
             the (cadence_reuse (mgr_policy m) (mgr_cache m) (mgr_cadenceNext m) host port))
      else
        (case mgr_lookup m env of
           Inl err \<Rightarrow> Some (clear_force m,
             the (cadence_failed (mgr_policy m) (mgr_cache m) (mgr_cadenceNext m) host port err))
         | Inr lf \<Rightarrow> Some ((clear_force m)\<lparr>mgr_cache := cadence_entry (le_now env) lf,
                         mgr_cadenceNext := time_Add (le_now env) (pol_Cadence (mgr_policy m))\<rparr>,
                       the (cadence_refreshed (mgr_policy m) (le_now env) host port lf))))"
  by (auto simp: resolveCadence_def resolve_defs cadence_due_def mgr_lookup_nonempty split: sum.split)

lemma entry_addrs [simp]:
  "ce_addrs (single_entry env lf) = lf_addrs lf"
  "ce_addrs (ttl_entry policy now lf) = lf_addrs lf"
  "ce_addrs (cadence_entry now lf) = lf_addrs lf"
  by (simp_all add: single_entry_def ttl_entry_def cadence_entry_def Let_def)

interpretation single: refresh_strategy resolveSingle
proof
  show "resolveSingle m env host port \<noteq> None" for m env host port
    by (simp add: resolveSingle_eq split: sum.split)
qed (auto simp: resolveSingle_eq resolve_defs dials_def mgr_lookup_nonempty split: if_splits sum.splits)

interpretation ttl: refresh_strategy resolveTTL
proof
  show "resolveTTL m env host port \<noteq> None" for m env host port
    by (simp add: resolveTTL_eq split: sum.split)
qed (auto simp: resolveTTL_eq resolve_defs dials_def mgr_lookup_nonempty ttl_expired_def
    split: if_splits sum.splits)

interpretation cadence: refresh_strategy resolveCadence
proof
  show "resolveCadence m env host port \<noteq> None" for m env host port
    by (simp add: resolveCadence_eq split: sum.split)
qed (auto simp: resolveCadence_eq resolve_defs dials_def mgr_lookup_nonempty cadence_due_def
    split: if_splits sum.splits)

section \<open>Lemmas on sequences of requests\<close>

text \<open>The modes that look names up.\<close>

definition lookup_mode :: "DNSRefreshMode \<Rightarrow> bool" where
  "lookup_mode mode \<longleftrightarrow> mode \<in> {DNSRefreshSingleLookup, DNSRefreshTTL, DNSRefreshCadence}"

lemma mgr_resolve_modes:
  "pol_Mode (mgr_policy m) = DNSRefreshSingleLookup \<Longrightarrow> mgr_resolve m env host port = resolveSingle m env host port"
  "pol_Mode (mgr_policy m) = DNSRefreshTTL \<Longrightarrow> mgr_resolve m env host port = resolveTTL m env host port"
  "pol_Mode (mgr_policy m) = DNSRefreshCadence \<Longrightarrow> mgr_resolve m env host port = resolveCadence m env host port"
  by (simp_all add: mgr_resolve_def)

lemma run_resolve_cong:
  assumes "\<And>m env host port. pol_Mode (mgr_policy m) = mode \<Longrightarrow> f m env host port = g m env host port"
    and "\<And>m env host port m' r. g m env host port = Some (m', r) \<Longrightarrow> mgr_policy m' = mgr_policy m"
    and "pol_Mode (mgr_policy m) = mode"
  shows "run_resolve f m reqs = run_resolve g m reqs"
  using assms(3)
proof (induction reqs arbitrary: m)
  case (Cons req reqs)
  obtain env host port where req: "req = (env, host, port)" by (cases req)
  have fg: "f m env host port = g m env host port" by (rule assms(1)) fact
  show ?case
  proof (cases "g m env host port")
    case (Some res)
    obtain m1 r where res: "res = (m1, r)" by (cases res)
    have "run_resolve f m1 reqs = run_resolve g m1 reqs"
      by (rule Cons.IH) (use assms(2) Some res Cons.prems in simp)
    with fg Some res req show ?thesis by simp
  qed (simp add: fg req)
qed simp

lemma run_mgr_resolve:
  "pol_Mode (mgr_policy m) = DNSRefreshSingleLookup \<Longrightarrow> run_resolve mgr_resolve m reqs = run_resolve resolveSingle m reqs"
  "pol_Mode (mgr_policy m) = DNSRefreshTTL \<Longrightarrow> run_resolve mgr_resolve m reqs = run_resolve resolveTTL m reqs"
  "pol_Mode (mgr_policy m) = DNSRefreshCadence \<Longrightarrow> run_resolve mgr_resolve m reqs = run_resolve resolveCadence m reqs"
proof -
  show "run_resolve mgr_resolve m reqs = run_resolve resolveSingle m reqs"
    if "pol_Mode (mgr_policy m) = DNSRefreshSingleLookup"
    by (rule run_resolve_cong [OF mgr_resolve_modes(1) _ that]) (auto dest: single.frame)
  show "run_resolve mgr_resolve m reqs = run_resolve resolveTTL m reqs"
    if "pol_Mode (mgr_policy m) = DNSRefreshTTL"
    by (rule run_resolve_cong [OF mgr_resolve_modes(2) _ that]) (auto dest: ttl.frame)
  show "run_resolve mgr_resolve m reqs = run_resolve resolveCadence m reqs"
    if "pol_Mode (mgr_policy m) = DNSRefreshCadence"
    by (rule run_resolve_cong [OF mgr_resolve_modes(3) _ that]) (auto dest: cadence.frame)
qed

text \<open>In TTL mode a cached answer has an expiry, provided the clock runs past Go's zero time.\<close>

definition ttl_cache_ok :: "dnsPolicyManager \<Rightarrow> bool" where
  "ttl_cache_ok m \<longleftrightarrow> (ce_addrs (mgr_cache m) \<noteq> [] \<longrightarrow> 0 < nanos (ce_expiresAt (mgr_cache m)))"

lemma ttl_entry_expiry: "le_now env \<le> ce_expiresAt (ttl_entry policy (le_now env) lf)"
  by (simp add: ttl_entry_def Let_def less_eq_gotime_def)

lemma ttl_cache_ok_step:
  assumes "resolveTTL m env host port = Some (m', r)" and "ttl_cache_ok m" and "0 < nanos (le_now env)"
  shows "ttl_cache_ok m'"
proof -
  have "0 < nanos (ce_expiresAt (ttl_entry p (le_now env) lf))" for p lf
    using assms(3) ttl_entry_expiry [of env p lf] by (simp add: less_eq_gotime_def)
  then show ?thesis using assms(1,2)
    by (auto simp: resolveTTL_eq ttl_cache_ok_def split: if_splits sum.splits)
qed

definition fresh_at :: "gotime \<Rightarrow> resolved \<Rightarrow> bool" where
  "fresh_at now r =
     (case r of (oc, err) \<Rightarrow>
        err = None \<and> ro_fallbackErr oc = None \<longrightarrow>
        (\<exists>d. ro_decision oc = Some d \<and> now \<le> dec_ExpiresAt d))"

lemma resolveTTL_fresh:
  assumes "resolveTTL m env host port = Some (m', r)" and "ttl_cache_ok m"
  shows "fresh_at (le_now env) r"
  using assms ttl_entry_expiry [of env "mgr_policy m"]
  by (auto simp: resolveTTL_eq resolve_defs fresh_at_def ttl_expired_def ttl_cache_ok_def
      time_IsZero_nanos time_After_def not_less mgr_lookup_nonempty split: if_splits sum.splits)

lemma run_resolveTTL_fresh:
  assumes "run_resolve resolveTTL m reqs = Some (m', rs)" and "ttl_cache_ok m"
    and "\<forall>(env, host, port) \<in> set reqs. 0 < nanos (le_now env)"
  shows "list_all2 (\<lambda>(env, host, port) r. fresh_at (le_now env) r) reqs rs"
  using assms
proof (induction reqs arbitrary: m rs)
  case (Cons req reqs)
  obtain env host port where req: "req = (env, host, port)" by (cases req)
  with Cons.prems obtain m1 r rs' where step: "resolveTTL m env host port = Some (m1, r)"
    and rest: "run_resolve resolveTTL m1 reqs = Some (m', rs')" and rs: "rs = r # rs'"
    by (auto simp: run_iff)
  have "ttl_cache_ok m1" using ttl_cache_ok_step [OF step] Cons.prems(2,3) req by simp
  with Cons.IH [OF rest] Cons.prems resolveTTL_fresh [OF step] show ?case
    unfolding rs req by simp
qed simp

text \<open>The times of the refreshes of a run.\<close>

fun refresh_times :: "request list \<Rightarrow> resolved list \<Rightarrow> gotime list" where
  "refresh_times ((env, host, port) # reqs) ((oc, err) # rs) =
     (if ro_forceNewConn oc then [le_now env] else []) @ refresh_times reqs rs"
| "refresh_times _ _ = []"

definition cadence_ok :: "dnsPolicyManager \<Rightarrow> bool" where
  "cadence_ok m \<longleftrightarrow> \<not> mgr_forceLookup m \<and> ce_addrs (mgr_cache m) \<noteq> [] \<and> 0 < nanos (mgr_cadenceNext m)"

lemma resolveCadence_steps:
  assumes "resolveCadence m env host port = Some (m', oc, err)"
  shows "(ro_forceNewConn oc \<longrightarrow>
      mgr_cadenceNext m' = time_Add (le_now env) (pol_Cadence (mgr_policy m)) \<and>
      ce_addrs (mgr_cache m') \<noteq> [] \<and> (cadence_ok m \<longrightarrow> time_After (le_now env) (mgr_cadenceNext m))) \<and>
    (\<not> ro_forceNewConn oc \<longrightarrow> mgr_cadenceNext m' = mgr_cadenceNext m \<and> mgr_cache m' = mgr_cache m) \<and>
    \<not> mgr_forceLookup m' \<and> mgr_policy m' = mgr_policy m"
  using assms
  by (auto simp: resolveCadence_eq resolve_defs cadence_due_def cadence_ok_def mgr_lookup_nonempty
      split: if_splits sum.splits)

lemma run_cadence_times:
  assumes "run_resolve resolveCadence m reqs = Some (m', rs)" and "cadence_ok m"
    and "0 < pol_Cadence (mgr_policy m)"
  shows "sorted_wrt (\<lambda>t u. time_After u (time_Add t (pol_Cadence (mgr_policy m)))) (refresh_times reqs rs) \<and>
    (\<forall>t \<in> set (refresh_times reqs rs). time_After t (mgr_cadenceNext m))"
  using assms
proof (induction reqs arbitrary: m rs)
  case (Cons req reqs)
  obtain env host port where req: "req = (env, host, port)" by (cases req)
  with Cons.prems obtain m1 oc err rs' where step: "resolveCadence m env host port = Some (m1, oc, err)"
    and rest: "run_resolve resolveCadence m1 reqs = Some (m', rs')" and rs: "rs = (oc, err) # rs'"
    by (auto simp: run_iff)
  note steps = resolveCadence_steps [OF step]
  let ?c = "pol_Cadence (mgr_policy m)"
  have ok1: "cadence_ok m1" and c1: "0 < pol_Cadence (mgr_policy m1)"
    using steps Cons.prems(2,3) by (auto simp: cadence_ok_def time_After_def less_gotime_def)
  note IH = Cons.IH [OF rest ok1 c1]
  show ?case
  proof (cases "ro_forceNewConn oc")
    case True
    have next1: "mgr_cadenceNext m1 = time_Add (le_now env) ?c"
      and now: "time_After (le_now env) (mgr_cadenceNext m)"
      and pol: "mgr_policy m1 = mgr_policy m"
      using steps True Cons.prems(2) by auto
    have "time_After t (mgr_cadenceNext m)" if "t \<in> set (refresh_times reqs rs')" for t
    proof -
      have "time_After t (time_Add (le_now env) ?c)" using IH that next1 by auto
      with now Cons.prems(3) show ?thesis by (simp add: time_After_def less_gotime_def)
    qed
    with IH True next1 now pol show ?thesis by (simp add: req rs)
  next
    case False
    with IH steps show ?thesis by (simp add: req rs)
  qed
qed simp

section \<open>Properties\<close>

lemma mgr_resolve_returns:
  "\<exists>m' oc err. mgr_resolve m env host port = Some (m', oc, err) \<and>
     mgr_policy m' = mgr_policy m \<and> mgr_guard m' = mgr_guard m \<and>
     mgr_lastDecision m' = mgr_lastDecision m"
proof (cases "lookup_mode (pol_Mode (mgr_policy m))")
  case True
  have t: "\<exists>m' r. resolveSingle m env host port = Some (m', r)"
    "\<exists>m' r. resolveTTL m env host port = Some (m', r)"
    "\<exists>m' r. resolveCadence m env host port = Some (m', r)"
    using single.total ttl.total cadence.total by (metis not_Some_eq surj_pair)+
  from True t show ?thesis
    by (auto simp: lookup_mode_def mgr_resolve_def dest: single.frame ttl.frame cadence.frame)
next
  case False
  then show ?thesis
    by (auto simp: lookup_mode_def mgr_resolve_def Let_def split: DNSRefreshMode.splits)
qed

text \<open>
  C32. Choosing a dial target never panics: whatever the mode, the cached state, the clock and
  the resolver's behaviour, \<^verbatim>\<open>resolve\<close> returns, in particular no index into an empty address
  list is ever taken; and it leaves the policy, the guard rail and the last decision alone.
\<close>

theorem mgr_resolve_total:
  "\<exists>m' oc err. mgr_resolve m env host port = Some (m', oc, err) \<and>
     mgr_policy m' = mgr_policy m \<and> mgr_guard m' = mgr_guard m \<and>
     mgr_lastDecision m' = mgr_lastDecision m"
  by (rule mgr_resolve_returns)

text \<open>
  Provenance: in a sequence of requests through a mode that looks names up, every address
  that is dialled or reported was in the cache at the start or was returned by the resolver for
  one of these requests.
\<close>

theorem resolve_provenance:
  assumes "lookup_mode (pol_Mode (mgr_policy m))"
    and "run_resolve mgr_resolve m reqs = Some (m', rs)"
  shows "(\<Union>r \<in> set rs. result_addrs r) \<subseteq>
    set (ce_addrs (mgr_cache m)) \<union> (\<Union>(env, host, port) \<in> set reqs. reply_addrs env)"
proof -
  consider "pol_Mode (mgr_policy m) = DNSRefreshSingleLookup" | "pol_Mode (mgr_policy m) = DNSRefreshTTL"
    | "pol_Mode (mgr_policy m) = DNSRefreshCadence"
    using assms(1) by (auto simp: lookup_mode_def)
  then show ?thesis
  proof cases
    case 1
    with assms(2) single.run_provenance [of m reqs m' rs] show ?thesis by (simp add: run_mgr_resolve)
  next
    case 2
    with assms(2) ttl.run_provenance [of m reqs m' rs] show ?thesis by (simp add: run_mgr_resolve)
  next
    case 3
    with assms(2) cadence.run_provenance [of m reqs m' rs] show ?thesis by (simp add: run_mgr_resolve)
  qed
qed

definition example_env :: "int \<Rightarrow> go_error + netip_addr list \<times> duration \<Rightarrow> lookup_env" where
  "example_env now reply =
     \<lparr>le_now = Instant now, le_after = Instant now, le_reply = reply, le_dur = 1, le_done = None\<rparr>"

definition example_manager :: "DNSRefreshMode \<Rightarrow> dnsPolicyManager" where
  "example_manager mode = newDNSPolicyManager (zero_policy\<lparr>pol_Mode := mode, pol_Cadence := 10\<rparr>) True"

lemma example_manager_simps [simp]:
  "mgr_policy (example_manager mode) = zero_policy\<lparr>pol_Mode := mode, pol_Cadence := 10\<rparr>"
  "mgr_cache (example_manager mode) = empty_cache"
  "mgr_forceLookup (example_manager mode) = False"
  "mgr_cadenceNext (example_manager mode) = zero_time"
  "clear_force (example_manager mode) = example_manager mode"
  by (simp_all add: example_manager_def newDNSPolicyManager_def clear_force_def)

lemma example_env_simps [simp]:
  "le_now (example_env now reply) = Instant now"
  "le_reply (example_env now reply) = reply"
  by (simp_all add: example_env_def)

lemma example_lookup [simp]:
  "mgr_resolver m = mgr_resolver (example_manager mode) \<Longrightarrow>
   mgr_lookup m (example_env now reply) = lookup_closure reply 1"
  by (simp add: mgr_lookup_def example_env_def example_manager_def newDNSPolicyManager_def
      zero_policy_def)

lemma example_ttl_refresh:
  "resolveTTL (example_manager DNSRefreshTTL) (example_env 5 (Inr ([AddrV4 192 0 2 1], 3))) ''h'' ''80'' =
     Some ((example_manager DNSRefreshTTL)\<lparr>mgr_cache := \<lparr>ce_addrs = [AddrV4 192 0 2 1],
               ce_expiresAt = Instant 8, ce_lastLookup = Instant 5\<rparr>\<rparr>,
           zero_outcome\<lparr>ro_address := JoinHostPort (string4 192 0 2 1) ''80'', ro_forceNewConn := True,
             ro_decision := Some ((new_decision ''h'' DNSRefreshTTL)
               \<lparr>dec_ResolvedAddrs := [AddrV4 192 0 2 1], dec_TTL := 3, dec_ExpiresAt := Instant 8,
                dec_LookupDuration := 1\<rparr>)\<rparr>, None)"
  by (simp add: resolveTTL_eq ttl_expired_def empty_cache_def lookup_closure_def resolve_defs
      ttl_entry_def normalizeTTL_def zero_policy_def time_Add_def)

theorem resolve_provenance_witness:
  "\<exists>m' rs. run_resolve mgr_resolve (example_manager DNSRefreshTTL)
       [(example_env 5 (Inr ([AddrV4 192 0 2 1], 3)), ''h'', ''80'')] = Some (m', rs) \<and>
     (\<Union>r \<in> set rs. result_addrs r) \<subseteq> {AddrV4 192 0 2 1}"
proof -
  let ?reqs = "[(example_env 5 (Inr ([AddrV4 192 0 2 1], 3)), ''h'', ''80'')]"
  have mode: "lookup_mode (pol_Mode (mgr_policy (example_manager DNSRefreshTTL)))"
    by (simp add: lookup_mode_def example_manager_def newDNSPolicyManager_def)
  have "run_resolve mgr_resolve (example_manager DNSRefreshTTL) ?reqs =
      run_resolve resolveTTL (example_manager DNSRefreshTTL) ?reqs"
    by (rule run_mgr_resolve) (simp add: example_manager_def newDNSPolicyManager_def)
  then obtain m' rs where run: "run_resolve mgr_resolve (example_manager DNSRefreshTTL) ?reqs = Some (m', rs)"
    using ttl.run_total [of "example_manager DNSRefreshTTL" ?reqs] by auto
  from resolve_provenance [OF mode run] run show ?thesis
    by (simp add: example_manager_def newDNSPolicyManager_def empty_cache_def example_env_def
        reply_addrs_def)
qed

text \<open>
  TTL mode never serves a stale address silently: in any sequence of requests from a new
  manager, a result with neither an error nor a fallback error reports an expiry that has not
  passed at the time of its request.
\<close>

theorem ttl_never_stale:
  assumes "run_resolve resolveTTL (newDNSPolicyManager policy hook) reqs = Some (m', rs)"
    and "\<forall>(env, host, port) \<in> set reqs. 0 < nanos (le_now env)"
  shows "list_all2 (\<lambda>(env, host, port) r. fresh_at (le_now env) r) reqs rs"
  by (rule run_resolveTTL_fresh [OF assms(1) _ assms(2)])
     (simp add: ttl_cache_ok_def newDNSPolicyManager_def empty_cache_def)

theorem ttl_never_stale_witness:
  "\<exists>oc m'. resolveTTL (example_manager DNSRefreshTTL) (example_env 5 (Inr ([AddrV4 192 0 2 1], 3))) ''h'' ''80''
       = Some (m', oc, None) \<and> fresh_at (Instant 5) (oc, None)"
proof -
  let ?env = "example_env 5 (Inr ([AddrV4 192 0 2 1], 3))"
  obtain m' oc where step: "resolveTTL (example_manager DNSRefreshTTL) ?env ''h'' ''80'' = Some (m', oc, None)"
    using example_ttl_refresh by blast
  then have run: "run_resolve resolveTTL (newDNSPolicyManager (zero_policy\<lparr>pol_Mode := DNSRefreshTTL, pol_Cadence := 10\<rparr>) True)
      [(?env, ''h'', ''80'')] = Some (m', [(oc, None)])"
    by (simp add: example_manager_def)
  have now: "\<forall>(env, host, port) \<in> set [(?env, ''h'', ''80'')]. 0 < nanos (le_now env)"
    by (simp add: example_env_def)
  from ttl_never_stale [OF run now] have "fresh_at (le_now ?env) (oc, None)" by simp
  with step show ?thesis by (auto simp: example_env_def)
qed

text \<open>
  Reuse in TTL mode: after a refresh, a request no later than the expiry, and without a
  forced lookup in between, dials the same address without opening a new connection, reports
  the same addresses, expiry and (non-negative) TTL, does not depend on the resolver, and
  changes nothing in the manager.
\<close>

theorem ttl_refresh_then_reuse:
  assumes "resolveTTL m env host port = Some (m1, oc, None)" and "ro_decision oc = Some d"
    and "ro_forceNewConn oc"
    and "le_now env2 \<le> dec_ExpiresAt d"
    and "0 < nanos (le_now env)" and "in64 (dec_TTL d)" and "0 \<le> dec_TTL d"
  shows "\<exists>oc2 d2. resolveTTL m1 env2 host port = Some (m1, oc2, None) \<and>
    ro_decision oc2 = Some d2 \<and> ro_address oc2 = ro_address oc \<and> \<not> ro_forceNewConn oc2 \<and>
    dec_ResolvedAddrs d2 = dec_ResolvedAddrs d \<and> dec_TTL d2 = dec_TTL d \<and>
    dec_ExpiresAt d2 = dec_ExpiresAt d"
proof -
  let ?p = "mgr_policy m" and ?now = "le_now env"
  obtain lf where lf: "mgr_lookup m env = Inr lf" and m1: "m1 = (clear_force m)\<lparr>mgr_cache := ttl_entry ?p ?now lf\<rparr>"
    and oc: "ttl_refreshed ?p ?now host port lf = Some (oc, None)"
    using assms(1,3) by (auto simp: resolveTTL_eq resolve_defs mgr_lookup_nonempty ttl_expired_def
        split: if_splits sum.splits)
  note ne = mgr_lookup_nonempty [OF lf]
  have d: "dec_ResolvedAddrs d = lf_addrs lf" "dec_TTL d = normalizeTTL ?p (lf_ttl lf)"
    "dec_ExpiresAt d = ce_expiresAt (ttl_entry ?p ?now lf)"
    "ro_address oc = JoinHostPort (addr_string (hd (lf_addrs lf))) port"
    using oc assms(2) ne by (auto simp: resolve_defs)
  have ttl: "cached_ttl (ttl_entry ?p ?now lf) = normalizeTTL ?p (lf_ttl lf)"
    using d(2) assms(6,7) by (auto simp: cached_ttl_def ttl_entry_def Let_def nonNegativeDuration_def)
  have fresh: "\<not> ttl_expired m1 (le_now env2)"
    using assms(4) d(3) ne by (simp add: ttl_expired_def m1 time_After_def not_less)
  obtain oc2 where r2: "ttl_reuse ?p (ttl_entry ?p ?now lf) host port = Some (oc2, None)"
    using ne by (simp add: resolve_defs)
  have "resolveTTL m1 env2 host port = Some (clear_force m1, oc2, None)"
    using fresh r2 by (simp add: resolveTTL_eq m1)
  moreover have "clear_force m1 = m1" by (simp add: m1 clear_force_def)
  ultimately show ?thesis using r2 d ttl ne by (auto simp: resolve_defs)
qed

theorem ttl_refresh_then_reuse_witness:
  "\<exists>m1 oc oc2 d2.
     resolveTTL (example_manager DNSRefreshTTL) (example_env 5 (Inr ([AddrV4 192 0 2 1], 3))) ''h'' ''80''
       = Some (m1, oc, None) \<and>
     resolveTTL m1 (example_env 8 (Inl (ErrorString ''down''))) ''h'' ''80'' = Some (m1, oc2, None) \<and>
     ro_decision oc2 = Some d2 \<and> dec_TTL d2 = 3"
proof -
  let ?env = "example_env 5 (Inr ([AddrV4 192 0 2 1], 3))"
  obtain m1 oc d where step: "resolveTTL (example_manager DNSRefreshTTL) ?env ''h'' ''80'' = Some (m1, oc, None)"
    and d: "ro_decision oc = Some d" "ro_forceNewConn oc" "dec_TTL d = 3" "dec_ExpiresAt d = Instant 8"
    by (simp add: example_ttl_refresh)
  have late: "le_now (example_env 8 (Inl (ErrorString ''down''))) \<le> dec_ExpiresAt d"
    and now: "0 < nanos (le_now ?env)" and ttl: "in64 (dec_TTL d)" "0 \<le> dec_TTL d"
    using d by (simp_all add: example_env_def less_eq_gotime_def in64_def)
  from ttl_refresh_then_reuse [OF step d(1,2) late now ttl] d step show ?thesis by auto
qed

text \<open>
  A forced lookup is honoured by the next request in TTL and cadence mode: it either comes
  back with a freshly resolved address and a new connection, or reports the lookup's error
  (beside the cached address when falling back). The cached address is never reused silently,
  and the force flag is consumed.
\<close>

theorem forced_lookup_honoured:
  assumes "mgr_forceLookup m"
    and "resolve \<in> {resolveTTL, resolveCadence}"
    and "resolve m env host port = Some (m', oc, err)"
  shows "\<not> mgr_forceLookup m' \<and>
    (case mgr_lookup m env of
       Inr lf \<Rightarrow> err = None \<and> ro_forceNewConn oc \<and> ce_addrs (mgr_cache m') = lf_addrs lf
     | Inl e \<Rightarrow> err = Some e \<or> ro_fallbackErr oc = Some e)"
  using assms
  by (auto simp: resolveTTL_eq resolveCadence_eq ttl_expired_def cadence_due_def resolve_defs
      mgr_lookup_nonempty split: sum.splits if_splits)

theorem forced_lookup_honoured_witness:
  "resolveCadence (example_manager DNSRefreshCadence\<lparr>mgr_forceLookup := True\<rparr>)
       (example_env 5 (Inl (ErrorString ''down''))) ''h'' ''80'' =
     Some (example_manager DNSRefreshCadence, failed_lookup (mgr_policy (example_manager DNSRefreshCadence)) ''h'' (ErrorString ''down'')) \<and>
   \<not> mgr_forceLookup (example_manager DNSRefreshCadence)"
proof -
  let ?m = "example_manager DNSRefreshCadence\<lparr>mgr_forceLookup := True\<rparr>"
  let ?env = "example_env 5 (Inl (ErrorString ''down''))"
  obtain oc err where r: "failed_lookup (mgr_policy ?m) ''h'' (ErrorString ''down'') = (oc, err)"
    by (cases "failed_lookup (mgr_policy ?m) ''h'' (ErrorString ''down'')")
  have step: "resolveCadence ?m ?env ''h'' ''80'' = Some (example_manager DNSRefreshCadence, oc, err)"
    using r by (simp add: resolveCadence_eq cadence_due_def cadence_failed_def lookup_closure_def
        empty_cache_def clear_force_def example_manager_def newDNSPolicyManager_def)
  have "\<not> mgr_forceLookup (example_manager DNSRefreshCadence)"
    using forced_lookup_honoured [where resolve = resolveCadence, OF _ _ step] by simp
  with step r show ?thesis by simp
qed

text \<open>
  Falling back: when a refresh is due, an address is cached and the lookup fails, then with
  fallback enabled the cached address is dialled without a new connection and the failure is
  reported beside it; with fallback disabled the request fails with the lookup's error and no
  address. In both cases the cache is as before.
\<close>

theorem failed_refresh:
  assumes "ce_addrs (mgr_cache m) \<noteq> []" and "mgr_lookup m env = Inl e"
    and "resolve = resolveTTL \<and> ttl_expired m (le_now env) \<or>
      resolve = resolveCadence \<and> cadence_due m (le_now env)"
  shows "\<exists>oc err d. resolve m env host port = Some (clear_force m, oc, err) \<and>
    ro_decision oc = Some d \<and> dec_Err d = Some e \<and> \<not> ro_forceNewConn oc \<and>
    (if fallbackEnabled (mgr_policy m)
     then err = None \<and> ro_fallbackErr oc = Some e \<and>
       ro_address oc = JoinHostPort (addr_string (hd (ce_addrs (mgr_cache m)))) port \<and>
       dec_ResolvedAddrs d = ce_addrs (mgr_cache m)
     else err = Some e \<and> ro_fallbackErr oc = None \<and> ro_address oc = [] \<and> dec_ResolvedAddrs d = [])"
  using assms by (auto simp: resolveTTL_eq resolveCadence_eq resolve_defs)

lemma example_mode_policy: "fallbackEnabled (zero_policy\<lparr>pol_Mode := mode, pol_Cadence := 10\<rparr>)"
  by (simp add: fallbackEnabled_def zero_policy_def)

theorem failed_refresh_witness:
  "let m = (example_manager DNSRefreshTTL)\<lparr>mgr_cache := \<lparr>ce_addrs = [AddrV4 192 0 2 1],
               ce_expiresAt = Instant 8, ce_lastLookup = Instant 5\<rparr>\<rparr>
   in \<exists>oc. resolveTTL m (example_env 9 (Inl (ErrorString ''down''))) ''h'' ''80'' = Some (m, oc, None) \<and>
     ro_fallbackErr oc = Some (ErrorString ''down'') \<and>
     ro_address oc = JoinHostPort (string4 192 0 2 1) ''80''"
proof -
  let ?m = "(example_manager DNSRefreshTTL)\<lparr>mgr_cache := \<lparr>ce_addrs = [AddrV4 192 0 2 1],
               ce_expiresAt = Instant 8, ce_lastLookup = Instant 5\<rparr>\<rparr>"
  let ?env = "example_env 9 (Inl (ErrorString ''down''))"
  have due: "ttl_expired ?m (le_now ?env)"
    by (simp add: ttl_expired_def time_IsZero_nanos time_After_def less_gotime_def)
  have lk: "mgr_lookup ?m ?env = Inl (ErrorString ''down'')" by (simp add: lookup_closure_def)
  have force: "clear_force ?m = ?m"
    by (simp add: clear_force_def example_manager_def newDNSPolicyManager_def)
  have ne: "ce_addrs (mgr_cache ?m) \<noteq> []" by simp
  show ?thesis
    using failed_refresh [OF ne lk disjI1 [OF conjI [OF refl due]], of "''h''" "''80''"] force
    by (auto simp: example_mode_policy Let_def)
qed

text \<open>
  Single lookup: once an address is cached, every later request dials it without a lookup
  or a new connection, whatever the resolver would say, and the manager never changes again.
\<close>

theorem single_lookup_forever:
  assumes "ce_addrs (mgr_cache m) \<noteq> []"
  shows "\<exists>rs. run_resolve resolveSingle m reqs = Some (m, rs) \<and>
    list_all2 (\<lambda>(env, host, port) (oc, err). err = None \<and> \<not> ro_forceNewConn oc \<and>
      dials oc (ce_addrs (mgr_cache m)) host port) reqs rs"
proof (induction reqs)
  case (Cons req reqs)
  obtain env host port where req: "req = (env, host, port)" by (cases req)
  obtain oc where "resolveSingle m env host port = Some (m, oc, None)" "\<not> ro_forceNewConn oc"
    "dials oc (ce_addrs (mgr_cache m)) host port"
    using assms by (simp add: resolveSingle_eq resolve_defs dials_def)
  with Cons.IH req show ?case by auto
qed simp

theorem single_lookup_forever_witness:
  "let m = (example_manager DNSRefreshSingleLookup)\<lparr>mgr_cache := \<lparr>ce_addrs = [AddrV4 192 0 2 1],
               ce_expiresAt = zero_time, ce_lastLookup = Instant 5\<rparr>\<rparr>
   in \<exists>rs. run_resolve resolveSingle m [(example_env 900 (Inl (ErrorString ''down'')), ''h'', ''80'')] = Some (m, rs)"
  using single_lookup_forever
    [of "(example_manager DNSRefreshSingleLookup)\<lparr>mgr_cache := \<lparr>ce_addrs = [AddrV4 192 0 2 1],
               ce_expiresAt = zero_time, ce_lastLookup = Instant 5\<rparr>\<rparr>"
       "[(example_env 900 (Inl (ErrorString ''down'')), ''h'', ''80'')]"]
  by (auto simp: Let_def)

text \<open>
  C34. Cadence mode limits the rate of refreshes: in any sequence of requests from a new manager
  with a valid policy, two successful refreshes are always more than the cadence apart (the
  guard rail, which can force a lookup, is not part of this sequence).
\<close>

theorem cadence_rate_limit:
  assumes "policy_Validate policy = None" and "pol_Mode policy = DNSRefreshCadence"
    and "run_resolve resolveCadence (newDNSPolicyManager policy hook) reqs = Some (m', rs)"
    and "\<forall>(env, host, port) \<in> set reqs. 0 < nanos (le_now env)"
  shows "sorted_wrt (\<lambda>t u. time_After u (time_Add t (pol_Cadence policy))) (refresh_times reqs rs)"
proof -
  have c: "0 < pol_Cadence policy"
    using assms(1,2) by (simp add: policy_Validate_None_iff policy_ok_def)
  have "sorted_wrt (\<lambda>t u. time_After u (time_Add t (pol_Cadence policy))) (refresh_times reqs rs)"
    if "run_resolve resolveCadence m reqs = Some (m', rs)" and "mgr_policy m = policy"
      and "\<not> mgr_forceLookup m" and "ce_addrs (mgr_cache m) = []"
      and "\<forall>(env, host, port) \<in> set reqs. 0 < nanos (le_now env)" for m reqs rs
    using that
  proof (induction reqs arbitrary: m rs)
    case (Cons req reqs)
    obtain env host port where req: "req = (env, host, port)" by (cases req)
    with Cons.prems obtain m1 oc err rs' where step: "resolveCadence m env host port = Some (m1, oc, err)"
      and rest: "run_resolve resolveCadence m1 reqs = Some (m', rs')" and rs: "rs = (oc, err) # rs'"
      by (auto simp: run_iff)
    note steps = resolveCadence_steps [OF step]
    show ?case
    proof (cases "ro_forceNewConn oc")
      case True
      have "cadence_ok m1" and p1: "mgr_policy m1 = policy"
        using steps True c Cons.prems(2,5) by (auto simp: cadence_ok_def req)
      with run_cadence_times [OF rest] c steps True Cons.prems(2) show ?thesis by (simp add: req rs)
    next
      case False
      with steps Cons.IH [OF rest] Cons.prems show ?thesis by (simp add: req rs)
    qed
  qed simp
  from this [OF assms(3) _ _ _ assms(4)] show ?thesis
    by (simp add: newDNSPolicyManager_def empty_cache_def)
qed

theorem cadence_rate_limit_witness:
  "\<exists>m' rs. run_resolve resolveCadence (newDNSPolicyManager (zero_policy\<lparr>pol_Mode := DNSRefreshCadence, pol_Cadence := 10\<rparr>) True)
       [(example_env 5 (Inr ([AddrV4 192 0 2 1], 3)), ''h'', ''80''),
        (example_env 9 (Inr ([AddrV4 192 0 2 2], 3)), ''h'', ''80'')] = Some (m', rs) \<and>
     sorted_wrt (\<lambda>t u. time_After u (time_Add t 10))
       (refresh_times [(example_env 5 (Inr ([AddrV4 192 0 2 1], 3)), ''h'', ''80''),
        (example_env 9 (Inr ([AddrV4 192 0 2 2], 3)), ''h'', ''80'')] rs)"
proof -
  let ?p = "zero_policy\<lparr>pol_Mode := DNSRefreshCadence, pol_Cadence := 10\<rparr>"
  let ?reqs = "[(example_env 5 (Inr ([AddrV4 192 0 2 1], 3)), ''h'', ''80''),
        (example_env 9 (Inr ([AddrV4 192 0 2 2], 3)), ''h'', ''80'')]"
  obtain m' rs where run: "run_resolve resolveCadence (newDNSPolicyManager ?p True) ?reqs = Some (m', rs)"
    using cadence.run_total by blast
  have "policy_Validate ?p = None" "pol_Mode ?p = DNSRefreshCadence"
    "\<forall>(env, host, port) \<in> set ?reqs. 0 < nanos (le_now env)"
    by (simp_all add: policy_Validate_def)
  from cadence_rate_limit [OF this(1,2) run this(3)] run show ?thesis by auto
qed

end
