(* ===== verification/DNS_Guard.thy ===== *)
theory DNS_Guard
  imports DNS_Resolve
begin

text \<open>
  The guard rail of \<^verbatim>\<open>dns_policy_manager.go\<close>: sequences of observed results, an abstract
  description by the list of the failures that count, and the refinement between the two.
\<close>

section \<open>Sequences of observations\<close>

text \<open>An observed result: the time, the status code and the error given to \<^verbatim>\<open>observeResult\<close>.\<close>

type_synonym observation = "gotime \<times> int \<times> go_err"

definition is_failure :: "observation \<Rightarrow> bool" where
  "is_failure ob = (case ob of (now, statusCode, err) \<Rightarrow> err \<noteq> None \<or> statusCode \<ge> serverErrorThreshold)"

fun observe_all :: "dnsPolicyManager \<Rightarrow> observation list \<Rightarrow> dnsPolicyManager" where
  "observe_all m [] = m"
| "observe_all m ((now, statusCode, err) # obs) = observe_all (observeResult m now statusCode err) obs"

lemma observe_all_append: "observe_all m (xs @ ys) = observe_all (observe_all m xs) ys"
  by (induction m xs rule: observe_all.induct) auto

section \<open>Abstract guard rail\<close>

text \<open>
  The failures that count since the last success, trip or expired window, oldest first, and
  whether a trip is waiting for the next request.
\<close>

record guard_abs =
  ga_failures :: "gotime list"
  ga_pending :: bool

definition abs_failure :: "DNSGuardRailPolicy \<Rightarrow> gotime \<Rightarrow> guard_abs \<Rightarrow> guard_abs" where
  "abs_failure p now a =
     (let kept = (if grp_Window p > 0 \<and> ga_failures a \<noteq> [] \<and> time_Sub now (hd (ga_failures a)) > grp_Window p
                  then [] else ga_failures a);
          fs = kept @ [now]
      in if int (length fs) \<ge> grp_ConsecutiveErrorThreshold p
         then \<lparr>ga_failures = [], ga_pending = True\<rparr>
         else \<lparr>ga_failures = fs, ga_pending = ga_pending a\<rparr>)"

definition abs_success :: "guard_abs \<Rightarrow> guard_abs" where
  "abs_success a = a\<lparr>ga_failures := []\<rparr>"

definition abs_observe :: "DNSGuardRailPolicy \<Rightarrow> guard_abs \<Rightarrow> observation \<Rightarrow> guard_abs" where
  "abs_observe p a ob = (if is_failure ob then abs_failure p (fst ob) a else abs_success a)"

text \<open>The concrete counters represent an abstract guard rail.\<close>

definition guard_rep :: "guardRailState \<Rightarrow> guard_abs \<Rightarrow> bool" where
  "guard_rep g a \<longleftrightarrow>
     gr_count g = int (length (ga_failures a)) \<and>
     gr_firstFailure g = (if ga_failures a = [] then zero_time else hd (ga_failures a)) \<and>
     gr_triggered g = ga_pending a \<and>
     (\<forall>t \<in> set (ga_failures a). 0 < nanos t)"

definition guard_wf :: "guardRailState \<Rightarrow> bool" where
  "guard_wf g \<longleftrightarrow>
     in64 (grp_ConsecutiveErrorThreshold (gr_policy g)) \<and> 0 \<le> gr_count g \<and>
     (guard_Enabled (gr_policy g) \<longrightarrow> gr_count g < grp_ConsecutiveErrorThreshold (gr_policy g))"

lemma guard_wf_new:
  "in64 (grp_ConsecutiveErrorThreshold (pol_GuardRail policy)) \<Longrightarrow>
   guard_wf (mgr_guard (newDNSPolicyManager policy hook))"
  by (auto simp: guard_wf_def newDNSPolicyManager_def guard_Enabled_def)

lemma guard_rep_new:
  "guard_rep (mgr_guard (newDNSPolicyManager policy hook)) \<lparr>ga_failures = [], ga_pending = False\<rparr>"
  by (simp add: guard_rep_def newDNSPolicyManager_def)

section \<open>One step\<close>

lemma gr_policy_simps [simp]:
  "gr_policy (guard_window g now) = gr_policy g"
  "gr_triggered (guard_window g now) = gr_triggered g"
  "gr_policy (mgr_guard (registerGuardFailure m now)) = gr_policy (mgr_guard m)"
  "gr_policy (mgr_guard (resetGuard m)) = gr_policy (mgr_guard m)"
  "gr_policy (mgr_guard (observeResult m now st err)) = gr_policy (mgr_guard m)"
  by (simp_all add: guard_window_def registerGuardFailure_def resetGuard_def observeResult_def Let_def)

lemma guard_window_count: "gr_count (guard_window g now) = gr_count g \<or> gr_count (guard_window g now) = 0"
  by (simp add: guard_window_def)

text \<open>The counter stays below the threshold, so its increment never wraps.\<close>

lemma guard_count_increment:
  assumes "guard_wf g" and "guard_Enabled (gr_policy g)"
  shows "wrap64 (gr_count (guard_window g now) + 1) = gr_count (guard_window g now) + 1"
proof (rule wrap64_id)
  show "in64 (gr_count (guard_window g now) + 1)"
    using assms guard_window_count [of g now] by (auto simp: guard_wf_def in64_def guard_Enabled_def)
qed

lemma registerGuardFailure_wf:
  assumes "guard_wf (mgr_guard m)"
  shows "guard_wf (mgr_guard (registerGuardFailure m now))"
proof (cases "guard_Enabled (gr_policy (mgr_guard m))")
  case True
  have "0 \<le> gr_count (guard_window (mgr_guard m) now)"
    using assms guard_window_count [of "mgr_guard m" now] by (auto simp: guard_wf_def)
  with assms True show ?thesis
    by (auto simp: registerGuardFailure_def Let_def guard_count_increment guard_wf_def guard_Enabled_def)
next
  case False
  with assms show ?thesis by (simp add: registerGuardFailure_def)
qed

lemma resetGuard_wf: "guard_wf (mgr_guard m) \<Longrightarrow> guard_wf (mgr_guard (resetGuard m))"
  by (auto simp: resetGuard_def guard_wf_def guard_Enabled_def)

lemma observeResult_wf: "guard_wf (mgr_guard m) \<Longrightarrow> guard_wf (mgr_guard (observeResult m now st err))"
  by (simp add: observeResult_def registerGuardFailure_wf resetGuard_wf)

lemma consumeGuardTrigger_wf: "guard_wf (mgr_guard m) \<Longrightarrow> guard_wf (mgr_guard (snd (consumeGuardTrigger m)))"
  by (simp add: consumeGuardTrigger_def guard_wf_def)

lemma observe_all_wf: "guard_wf (mgr_guard m) \<Longrightarrow> guard_wf (mgr_guard (observe_all m obs))"
  by (induction m obs rule: observe_all.induct) (auto simp: observeResult_wf)

lemma observe_all_policy [simp]: "gr_policy (mgr_guard (observe_all m obs)) = gr_policy (mgr_guard m)"
  by (induction m obs rule: observe_all.induct) auto

definition kept_failures :: "DNSGuardRailPolicy \<Rightarrow> gotime \<Rightarrow> gotime list \<Rightarrow> gotime list" where
  "kept_failures p now fs =
     (if grp_Window p > 0 \<and> fs \<noteq> [] \<and> time_Sub now (hd fs) > grp_Window p then [] else fs)"

lemma abs_failure_kept:
  "abs_failure p now a =
     (let fs = kept_failures p now (ga_failures a) @ [now]
      in if int (length fs) \<ge> grp_ConsecutiveErrorThreshold p
         then \<lparr>ga_failures = [], ga_pending = True\<rparr>
         else \<lparr>ga_failures = fs, ga_pending = ga_pending a\<rparr>)"
  by (simp add: abs_failure_def kept_failures_def Let_def)

lemma kept_failures_subset: "set (kept_failures p now fs) \<subseteq> set fs"
  by (simp add: kept_failures_def)

lemma guard_window_rep:
  assumes "guard_rep g a"
  shows "gr_count (guard_window g now) = int (length (kept_failures (gr_policy g) now (ga_failures a))) \<and>
    gr_firstFailure (guard_window g now) =
      (if kept_failures (gr_policy g) now (ga_failures a) = [] then now
       else hd (kept_failures (gr_policy g) now (ga_failures a)))"
proof (cases "ga_failures a")
  case Nil
  with assms show ?thesis by (simp add: guard_rep_def guard_window_def kept_failures_def)
next
  case (Cons t ts)
  with assms have "gr_firstFailure g = t" "\<not> time_IsZero t"
    by (auto simp: guard_rep_def time_IsZero_nanos)
  with assms Cons show ?thesis by (simp add: guard_rep_def guard_window_def kept_failures_def)
qed

lemma registerGuardFailure_guard:
  assumes "guard_wf (mgr_guard m)" and "guard_Enabled (gr_policy (mgr_guard m))"
  shows "mgr_guard (registerGuardFailure m now) =
    (let g = guard_window (mgr_guard m) now
     in if gr_count g + 1 \<ge> grp_ConsecutiveErrorThreshold (gr_policy (mgr_guard m))
        then g\<lparr>gr_count := 0, gr_lastFailure := now, gr_triggered := True, gr_firstFailure := zero_time\<rparr>
        else g\<lparr>gr_count := gr_count g + 1, gr_lastFailure := now\<rparr>)"
  using assms guard_count_increment [OF assms, of now]
  by (simp add: registerGuardFailure_def Let_def)

lemma registerGuardFailure_rep:
  assumes "guard_wf (mgr_guard m)" and "guard_Enabled (gr_policy (mgr_guard m))"
    and "guard_rep (mgr_guard m) a" and "0 < nanos now"
  shows "guard_rep (mgr_guard (registerGuardFailure m now)) (abs_failure (gr_policy (mgr_guard m)) now a)"
proof -
  let ?kept = "kept_failures (gr_policy (mgr_guard m)) now (ga_failures a)"
  have pos: "\<forall>t \<in> set ?kept. 0 < nanos t"
    using assms(3) kept_failures_subset [of "gr_policy (mgr_guard m)" now "ga_failures a"]
    by (auto simp: guard_rep_def)
  have trig: "gr_triggered (mgr_guard m) = ga_pending a" using assms(3) by (simp add: guard_rep_def)
  show ?thesis
    using guard_window_rep [OF assms(3), of now] pos trig assms(4)
    unfolding registerGuardFailure_guard [OF assms(1,2)] abs_failure_kept
    by (auto simp: guard_rep_def Let_def hd_append)
qed

lemma observeResult_rep:
  assumes "guard_wf (mgr_guard m)" and "guard_Enabled (gr_policy (mgr_guard m))"
    and "guard_rep (mgr_guard m) a" and "0 < nanos now"
  shows "guard_rep (mgr_guard (observeResult m now st err))
    (abs_observe (gr_policy (mgr_guard m)) a (now, st, err))"
  using assms registerGuardFailure_rep [OF assms]
  by (auto simp: observeResult_def abs_observe_def is_failure_def resetGuard_def guard_rep_def
      abs_success_def)

lemma observe_all_rep:
  assumes "guard_wf (mgr_guard m)" and "guard_Enabled (gr_policy (mgr_guard m))"
    and "guard_rep (mgr_guard m) a" and "\<forall>(now, st, err) \<in> set obs. 0 < nanos now"
  shows "guard_rep (mgr_guard (observe_all m obs)) (foldl (abs_observe (gr_policy (mgr_guard m))) a obs)"
  using assms
proof (induction obs arbitrary: m a)
  case (Cons ob obs)
  obtain now st err where ob: "ob = (now, st, err)" by (cases ob)
  have "guard_rep (mgr_guard (observeResult m now st err))
      (abs_observe (gr_policy (mgr_guard m)) a (now, st, err))"
    using Cons.prems ob by (intro observeResult_rep) auto
  with Cons.IH [of "observeResult m now st err"] Cons.prems ob show ?case
    by (simp add: observeResult_wf)
qed simp

lemma guard_refines_abs_core:
  assumes "guard_Enabled (pol_GuardRail policy)"
    and "in64 (grp_ConsecutiveErrorThreshold (pol_GuardRail policy))"
    and "\<forall>(now, st, err) \<in> set obs. 0 < nanos now"
  shows "guard_rep (mgr_guard (observe_all (newDNSPolicyManager policy hook) obs))
    (foldl (abs_observe (pol_GuardRail policy)) \<lparr>ga_failures = [], ga_pending = False\<rparr> obs)"
proof -
  have "gr_policy (mgr_guard (newDNSPolicyManager policy hook)) = pol_GuardRail policy"
    by (simp add: newDNSPolicyManager_def)
  with observe_all_rep [OF guard_wf_new [OF assms(2), of hook] _ guard_rep_new assms(3)] assms(1)
  show ?thesis by simp
qed

section \<open>Properties\<close>

text \<open>
  C8. Refinement: after any sequence of observed results, the counters of an enabled guard rail
  represent the abstract guard rail run on the same results: the count is the number of failures
  that count, the first-failure time is the oldest of them, and the trigger is the pending trip.
\<close>

theorem guard_refines_abs:
  assumes "guard_Enabled (pol_GuardRail policy)"
    and "in64 (grp_ConsecutiveErrorThreshold (pol_GuardRail policy))"
    and "\<forall>(now, st, err) \<in> set obs. 0 < nanos now"
  shows "guard_rep (mgr_guard (observe_all (newDNSPolicyManager policy hook) obs))
    (foldl (abs_observe (pol_GuardRail policy)) \<lparr>ga_failures = [], ga_pending = False\<rparr> obs)"
  using assms by (rule guard_refines_abs_core)

definition example_guard :: DNSPolicy where
  "example_guard = zero_policy\<lparr>pol_Mode := DNSRefreshTTL,
     pol_GuardRail := \<lparr>grp_ConsecutiveErrorThreshold = 2, grp_Window = 10,
       grp_Action = DNSGuardRailActionForceLookup\<rparr>\<rparr>"

lemma example_guard_ok:
  "guard_Enabled (pol_GuardRail example_guard)"
  "in64 (grp_ConsecutiveErrorThreshold (pol_GuardRail example_guard))"
  by (simp_all add: example_guard_def guard_Enabled_def in64_def)

theorem guard_refines_abs_witness:
  "guard_rep (mgr_guard (observe_all (newDNSPolicyManager example_guard False)
       [(Instant 1, 503, None), (Instant 20, 0, Some (ErrorString ''refused''))]))
     \<lparr>ga_failures = [Instant 20], ga_pending = False\<rparr>"
  using guard_refines_abs [OF example_guard_ok,
      of "[(Instant 1, 503, None), (Instant 20, 0, Some (ErrorString ''refused''))]" False]
  by (simp add: abs_observe_def is_failure_def serverErrorThreshold_def abs_failure_def
      example_guard_def time_Sub_def clamp64_def Let_def)

text \<open>
  The failure counter always lies between 0 and the threshold: no sequence of observed
  results makes it negative, reach the threshold or overflow.
\<close>

theorem guard_count_bounds:
  assumes "in64 (grp_ConsecutiveErrorThreshold (pol_GuardRail policy))"
    and "guard_Enabled (pol_GuardRail policy)"
  shows "0 \<le> gr_count (mgr_guard (observe_all (newDNSPolicyManager policy hook) obs)) \<and>
    gr_count (mgr_guard (observe_all (newDNSPolicyManager policy hook) obs))
      < grp_ConsecutiveErrorThreshold (pol_GuardRail policy)"
proof -
  have "gr_policy (mgr_guard (newDNSPolicyManager policy hook)) = pol_GuardRail policy"
    by (simp add: newDNSPolicyManager_def)
  with observe_all_wf [OF guard_wf_new [OF assms(1)], of hook obs] assms(2)
  show ?thesis by (simp add: guard_wf_def)
qed

theorem guard_count_bounds_witness:
  "gr_count (mgr_guard (observe_all (newDNSPolicyManager example_guard False)
       [(Instant 1, 503, None), (Instant 2, 200, None), (Instant 3, 500, None)])) < 2"
  using guard_count_bounds [OF example_guard_ok(2,1), of False
      "[(Instant 1, 503, None), (Instant 2, 200, None), (Instant 3, 500, None)]"]
  by (simp add: example_guard_def)

text \<open>
  Without a window, a run of failures trips the guard rail exactly when it is at least as
  long as the threshold, and the count starts again after each trip.
\<close>

theorem guard_trips_at_threshold:
  assumes "guard_Enabled (pol_GuardRail policy)"
    and "in64 (grp_ConsecutiveErrorThreshold (pol_GuardRail policy))"
    and "grp_Window (pol_GuardRail policy) \<le> 0"
    and "\<forall>ob \<in> set obs. is_failure ob \<and> 0 < nanos (fst ob)"
  shows "gr_triggered (mgr_guard (observe_all (newDNSPolicyManager policy hook) obs)) =
      (grp_ConsecutiveErrorThreshold (pol_GuardRail policy) \<le> int (length obs)) \<and>
    gr_count (mgr_guard (observe_all (newDNSPolicyManager policy hook) obs)) =
      int (length obs) mod grp_ConsecutiveErrorThreshold (pol_GuardRail policy)"
proof -
  let ?p = "pol_GuardRail policy" and ?t = "grp_ConsecutiveErrorThreshold (pol_GuardRail policy)"
  let ?abs = "foldl (abs_observe ?p) \<lparr>ga_failures = [], ga_pending = False\<rparr> obs"
  have t: "0 < ?t" using assms(1) by (simp add: guard_Enabled_def)
  have abs: "int (length (ga_failures ?abs)) = int (length obs) mod ?t \<and>
      ga_pending ?abs = (?t \<le> int (length obs))"
    using assms(4)
  proof (induction obs rule: rev_induct)
    case (snoc ob obs)
    let ?a = "foldl (abs_observe ?p) \<lparr>ga_failures = [], ga_pending = False\<rparr> obs"
    let ?n = "int (length obs)"
    have len: "int (length (ga_failures ?a)) = ?n mod ?t" and pend: "ga_pending ?a = (?t \<le> ?n)"
      using snoc by auto
    have step: "abs_observe ?p ?a ob =
        (if ?n mod ?t + 1 \<ge> ?t then \<lparr>ga_failures = [], ga_pending = True\<rparr>
         else \<lparr>ga_failures = ga_failures ?a @ [fst ob], ga_pending = ga_pending ?a\<rparr>)"
      using snoc.prems assms(3) len by (simp add: abs_observe_def abs_failure_def Let_def)
    have lt: "?n mod ?t < ?t" using t by simp
    show ?case
    proof (cases "?n mod ?t + 1 \<ge> ?t")
      case True
      with lt have "?n mod ?t = ?t - 1" by simp
      then have "(?n + 1) mod ?t = 0" "?t \<le> ?n + 1"
        using mod_add_left_eq [of ?n ?t 1, symmetric] zmod_le_nonneg_dividend [of ?n ?t] by simp_all
      with True step show ?thesis by (simp add: add.commute)
    next
      case False
      have "(?n + 1) mod ?t = ?n mod ?t + 1"
        using False t mod_add_left_eq [of ?n ?t 1, symmetric] by simp
      moreover have "(?t \<le> ?n + 1) = (?t \<le> ?n)"
        using False by (cases "?n < ?t") auto
      ultimately show ?thesis using False step len pend by (simp add: add.commute)
    qed
  qed (use t in simp)
  have "\<forall>(now, st, err) \<in> set obs. 0 < nanos now" using assms(4) by fastforce
  from guard_refines_abs_core [OF assms(1,2) this] abs show ?thesis by (simp add: guard_rep_def)
qed

theorem guard_trips_at_threshold_witness:
  "gr_triggered (mgr_guard (observe_all
     (newDNSPolicyManager (example_guard\<lparr>pol_GuardRail := (pol_GuardRail example_guard)\<lparr>grp_Window := 0\<rparr>\<rparr>) False)
     [(Instant 1, 503, None), (Instant 900, 500, None)]))"
proof -
  let ?p = "example_guard\<lparr>pol_GuardRail := (pol_GuardRail example_guard)\<lparr>grp_Window := 0\<rparr>\<rparr>"
  have "guard_Enabled (pol_GuardRail ?p)" "in64 (grp_ConsecutiveErrorThreshold (pol_GuardRail ?p))"
    "grp_Window (pol_GuardRail ?p) \<le> 0"
    "\<forall>ob \<in> set [(Instant 1, 503, None), (Instant 900, 500, None)]. is_failure ob \<and> 0 < nanos (fst ob)"
    by (simp_all add: example_guard_def guard_Enabled_def in64_def is_failure_def serverErrorThreshold_def)
  from guard_trips_at_threshold [OF this, of False] show ?thesis by (simp add: example_guard_def)
qed

text \<open>The results that make up a trip: failures, as many as the threshold, and within the window.\<close>

definition trip_cause :: "DNSGuardRailPolicy \<Rightarrow> observation list \<Rightarrow> bool" where
  "trip_cause p mid \<longleftrightarrow>
     int (length mid) = grp_ConsecutiveErrorThreshold p \<and> (\<forall>ob \<in> set mid. is_failure ob) \<and>
     (0 < grp_Window p \<longrightarrow> (\<forall>ob \<in> set mid. time_Sub (fst ob) (fst (hd mid)) \<le> grp_Window p))"

definition counted :: "DNSGuardRailPolicy \<Rightarrow> guard_abs \<Rightarrow> observation list \<Rightarrow> bool" where
  "counted p a mid \<longleftrightarrow>
     map fst mid = ga_failures a \<and> (\<forall>ob \<in> set mid. is_failure ob) \<and>
     int (length mid) < grp_ConsecutiveErrorThreshold p \<and>
     (0 < grp_Window p \<longrightarrow> (\<forall>ob \<in> set mid. time_Sub (fst ob) (fst (hd mid)) \<le> grp_Window p))"

lemma counted_failure:
  assumes "counted p a mid" and "is_failure ob" and "0 < grp_ConsecutiveErrorThreshold p"
  shows "\<exists>mid'. (\<exists>pre. mid @ [ob] = pre @ mid') \<and>
    (if int (length (kept_failures p (fst ob) (ga_failures a) @ [fst ob])) \<ge> grp_ConsecutiveErrorThreshold p
     then trip_cause p mid' else counted p (abs_failure p (fst ob) a) mid')"
proof (cases "kept_failures p (fst ob) (ga_failures a) = ga_failures a")
  case True
  have len: "length (ga_failures a) = length mid"
    using assms(1) by (metis counted_def length_map)
  have hd: "mid \<noteq> [] \<Longrightarrow> hd (ga_failures a) = fst (hd mid)"
    using assms(1) by (metis counted_def hd_map)
  have win: "0 < grp_Window p \<Longrightarrow> mid \<noteq> [] \<Longrightarrow> time_Sub (fst ob) (fst (hd mid)) \<le> grp_Window p"
    using True hd len by (cases "ga_failures a") (auto simp: kept_failures_def split: if_splits)
  have "\<exists>pre. mid @ [ob] = pre @ (mid @ [ob])" by simp
  moreover have "if int (length (kept_failures p (fst ob) (ga_failures a) @ [fst ob])) \<ge> grp_ConsecutiveErrorThreshold p
      then trip_cause p (mid @ [ob]) else counted p (abs_failure p (fst ob) a) (mid @ [ob])"
    using assms True len win unfolding abs_failure_kept
    by (cases "mid = []") (auto simp: counted_def trip_cause_def Let_def)
  ultimately show ?thesis by blast
next
  case False
  then have kept: "kept_failures p (fst ob) (ga_failures a) = []"
    by (auto simp: kept_failures_def split: if_splits)
  have "\<exists>pre. mid @ [ob] = pre @ [ob]" by simp
  moreover have "if int (length (kept_failures p (fst ob) (ga_failures a) @ [fst ob])) \<ge> grp_ConsecutiveErrorThreshold p
      then trip_cause p [ob] else counted p (abs_failure p (fst ob) a) [ob]"
    using assms unfolding abs_failure_kept kept
    by (auto simp: counted_def trip_cause_def Let_def)
  ultimately show ?thesis by blast
qed

lemma abs_trip_cause:
  assumes "0 < grp_ConsecutiveErrorThreshold p"
  shows "let a = foldl (abs_observe p) \<lparr>ga_failures = [], ga_pending = False\<rparr> obs
    in (\<exists>pre mid. obs = pre @ mid \<and> counted p a mid) \<and>
       (ga_pending a \<longrightarrow> (\<exists>pre mid post. obs = pre @ mid @ post \<and> trip_cause p mid))"
proof (induction obs rule: rev_induct)
  case Nil
  with assms show ?case by (simp add: counted_def)
next
  case (snoc ob obs)
  define a where "a = foldl (abs_observe p) \<lparr>ga_failures = [], ga_pending = False\<rparr> obs"
  have step: "foldl (abs_observe p) \<lparr>ga_failures = [], ga_pending = False\<rparr> (obs @ [ob]) = abs_observe p a ob"
    by (simp add: a_def)
  have IH: "(\<exists>pre mid. obs = pre @ mid \<and> counted p a mid) \<and>
      (ga_pending a \<longrightarrow> (\<exists>pre mid post. obs = pre @ mid @ post \<and> trip_cause p mid))"
    using snoc.IH unfolding a_def Let_def .
  then obtain pre mid where obs: "obs = pre @ mid" and cnt: "counted p a mid" by blast
  from IH have old: "\<exists>pre mid post. obs = pre @ mid @ post \<and> trip_cause p mid" if "ga_pending a"
    using that by blast
  have old': "\<exists>pre mid post. obs @ [ob] = pre @ mid @ post \<and> trip_cause p mid" if "ga_pending a"
    using old [OF that] by (metis append.assoc)
  have nil: "counted p b []" if "ga_failures b = []" for b
    using assms that by (simp add: counted_def)
  show ?case
  proof (cases "is_failure ob")
    case True
    obtain mid' pre' where mid': "mid @ [ob] = pre' @ mid'"
      and or: "if int (length (kept_failures p (fst ob) (ga_failures a) @ [fst ob])) \<ge> grp_ConsecutiveErrorThreshold p
        then trip_cause p mid' else counted p (abs_failure p (fst ob) a) mid'"
      using counted_failure [OF cnt True assms] by blast
    have all: "obs @ [ob] = (pre @ pre') @ mid'" using obs mid' by simp
    show ?thesis
    proof (cases "int (length (kept_failures p (fst ob) (ga_failures a) @ [fst ob])) \<ge> grp_ConsecutiveErrorThreshold p")
      case trip: True
      with or have "trip_cause p mid'" by simp
      then have cause: "\<exists>pre mid post. obs @ [ob] = pre @ mid @ post \<and> trip_cause p mid"
        using all by (metis append_Nil2)
      have empty: "ga_failures (abs_failure p (fst ob) a) = []"
        using trip unfolding abs_failure_kept by simp
      have "\<exists>pre mid. obs @ [ob] = pre @ mid \<and> counted p (abs_failure p (fst ob) a) mid"
        using nil [OF empty] by (metis append_Nil2)
      with cause True trip show ?thesis unfolding step Let_def by (simp add: abs_observe_def)
    next
      case no_trip: False
      with or have "counted p (abs_failure p (fst ob) a) mid'" by simp
      with all have "\<exists>pre mid. obs @ [ob] = pre @ mid \<and> counted p (abs_failure p (fst ob) a) mid"
        by blast
      moreover have "ga_pending (abs_failure p (fst ob) a) = ga_pending a"
        using no_trip unfolding abs_failure_kept by (simp add: Let_def)
      ultimately show ?thesis using old' True unfolding step Let_def by (simp add: abs_observe_def)
    qed
  next
    case False
    have "\<exists>pre mid. obs @ [ob] = pre @ mid \<and> counted p (abs_success a) mid"
      using nil [of "abs_success a"] by (metis abs_success_def append_Nil2 guard_abs.select_convs(1) guard_abs.surjective guard_abs.update_convs(1))
    with old' False show ?thesis unfolding step Let_def by (simp add: abs_observe_def abs_success_def)
  qed
qed

text \<open>
  The guard rail trips only for a cause: if it is triggered, the results observed contain as
  many consecutive failures as the threshold, all of them within the window of the first one
  when a window is configured.
\<close>

theorem guard_trip_has_cause:
  assumes "guard_Enabled (pol_GuardRail policy)"
    and "in64 (grp_ConsecutiveErrorThreshold (pol_GuardRail policy))"
    and "\<forall>(now, st, err) \<in> set obs. 0 < nanos now"
    and "gr_triggered (mgr_guard (observe_all (newDNSPolicyManager policy hook) obs))"
  shows "\<exists>pre mid post. obs = pre @ mid @ post \<and> trip_cause (pol_GuardRail policy) mid"
proof -
  let ?a = "foldl (abs_observe (pol_GuardRail policy)) \<lparr>ga_failures = [], ga_pending = False\<rparr> obs"
  have "ga_pending ?a"
    using guard_refines_abs_core [OF assms(1-3)] assms(4) by (simp add: guard_rep_def)
  with abs_trip_cause [of "pol_GuardRail policy" obs] assms(1) show ?thesis
    by (simp add: guard_Enabled_def Let_def)
qed

theorem guard_trip_has_cause_witness:
  "\<exists>pre mid post. [(Instant 1, 503, None), (Instant 4, 500, None)] = pre @ mid @ post \<and>
     trip_cause (pol_GuardRail example_guard) mid"
proof (rule guard_trip_has_cause [OF example_guard_ok])
  show "gr_triggered (mgr_guard (observe_all (newDNSPolicyManager example_guard False)
      [(Instant 1, 503, None), (Instant 4, 500, None)]))"
    by (simp add: observeResult_def registerGuardFailure_def guard_window_def newDNSPolicyManager_def
        example_guard_def guard_Enabled_def serverErrorThreshold_def time_IsZero_nanos time_Sub_def
        clamp64_def wrap64_def Let_def)
qed simp

end
