(* ===== verification/HTTP_Model.thy ===== *)
theory HTTP_Model
  imports DNS_Policy
begin

text \<open>
  The parts of \<^verbatim>\<open>net/http\<close> and \<^verbatim>\<open>io\<close> the program uses: headers, response bodies, requests with
  the values of their context, responses, and the pool of idle connections of an
  \<^verbatim>\<open>http.Transport\<close>. What the network does in a call is a record of its own.
\<close>

section \<open>Headers\<close>

text \<open>An \<^verbatim>\<open>http.Header\<close> is an association list, in the order in which a loop visits the map.\<close>

type_synonym bytes = "8 word list"
type_synonym header = "(string \<times> string list) list"

definition is_lower :: "char \<Rightarrow> bool" where
  "is_lower c \<longleftrightarrow> 97 \<le> (of_char c :: nat) \<and> (of_char c :: nat) \<le> 122"

definition is_upper :: "char \<Rightarrow> bool" where
  "is_upper c \<longleftrightarrow> 65 \<le> (of_char c :: nat) \<and> (of_char c :: nat) \<le> 90"

definition to_upper :: "char \<Rightarrow> char" where
  "to_upper c = (if is_lower c then char_of (of_char c - (32::nat)) else c)"

definition to_lower :: "char \<Rightarrow> char" where
  "to_lower c = (if is_upper c then char_of (of_char c + (32::nat)) else c)"

definition is_token_char :: "char \<Rightarrow> bool" where
  "is_token_char c \<longleftrightarrow>
     is_lower c \<or> is_upper c \<or> is_digit c \<or> c \<in> set ''!#$%&*+-.^_`|~'' \<or> of_char c = (39::nat)"

fun canonical_letters :: "bool \<Rightarrow> string \<Rightarrow> string" where
  "canonical_letters upper [] = []"
| "canonical_letters upper (c # s) =
     (if upper then to_upper c else to_lower c) # canonical_letters (c = CHR ''-'') s"

text \<open>\<^verbatim>\<open>http.CanonicalHeaderKey\<close>.\<close>

definition canonical_key :: "string \<Rightarrow> string" where
  "canonical_key s = (if list_all is_token_char s then canonical_letters True s else s)"

text \<open>\<^verbatim>\<open>Header.Add\<close>.\<close>

fun add_value :: "string \<Rightarrow> string \<Rightarrow> header \<Rightarrow> header" where
  "add_value k v [] = [(k, [v])]"
| "add_value k v ((k', vs) # h) = (if k' = k then (k', vs @ [v]) # h else (k', vs) # add_value k v h)"

definition header_Add :: "header \<Rightarrow> string \<Rightarrow> string \<Rightarrow> header" where
  "header_Add h k v = add_value (canonical_key k) v h"

definition header_values :: "header \<Rightarrow> string \<Rightarrow> string list" where
  "header_values h k = (case map_of h k of None \<Rightarrow> [] | Some vs \<Rightarrow> vs)"

lemma header_values_add [simp]:
  "header_values (add_value k v h) k' =
     (if k' = k then header_values h k @ [v] else header_values h k')"
  by (induction h) (auto simp: header_values_def)

section \<open>Response bodies\<close>

text \<open>
  A body is what is left to read, the error that \<^verbatim>\<open>Read\<close> reports at its end (\<^verbatim>\<open>io.EOF\<close> for a
  complete body), whether it was closed, and what \<^verbatim>\<open>Close\<close> returns.
\<close>

record body =
  bd_rest :: bytes
  bd_end :: go_error
  bd_closed :: bool
  bd_closeErr :: go_err

definition errReadOnClosedResBody :: go_error where
  "errReadOnClosedResBody = ErrorString ''http: read on closed response body''"

text \<open>
  \<^verbatim>\<open>Read\<close> hands out \<open>n\<close> bytes, or what is left if that is less. A read that takes the last bytes
  may report the end at once (\<open>eager\<close>), or the next one does.
\<close>

definition body_Read :: "nat \<Rightarrow> bool \<Rightarrow> body \<Rightarrow> bytes \<times> go_err \<times> body" where
  "body_Read n eager b =
     (if bd_closed b then ([], Some errReadOnClosedResBody, b)
      else if bd_rest b = [] then ([], Some (bd_end b), b)
      else (take n (bd_rest b),
            (if eager \<and> length (bd_rest b) \<le> n then Some (bd_end b) else None),
            b\<lparr>bd_rest := drop n (bd_rest b)\<rparr>))"

definition body_Close :: "body \<Rightarrow> go_err \<times> body" where
  "body_Close b = (bd_closeErr b, b\<lparr>bd_closed := True\<rparr>)"

text \<open>\<^verbatim>\<open>io.ReadAll\<close>: everything up to the end, which is no error if it is \<^verbatim>\<open>io.EOF\<close> itself.\<close>

definition io_ReadAll :: "body \<Rightarrow> bytes \<times> go_err \<times> body" where
  "io_ReadAll b =
     (if bd_closed b then ([], Some errReadOnClosedResBody, b)
      else (bd_rest b, (if bd_end b = Sentinel IoEOF then None else Some (bd_end b)), b\<lparr>bd_rest := []\<rparr>))"

text \<open>\<^verbatim>\<open>io.Copy(io.Discard, b)\<close>, whose result the program ignores.\<close>

definition io_Drain :: "body \<Rightarrow> body" where
  "io_Drain b = (if bd_closed b then b else b\<lparr>bd_rest := []\<rparr>)"

text \<open>Reading in any chunks, given by their sizes, until a read reports an error.\<close>

fun read_loop :: "(nat \<times> bool) list \<Rightarrow> body \<Rightarrow> bytes \<Rightarrow> (bytes \<times> go_error \<times> body) option" where
  "read_loop [] b acc = None"
| "read_loop ((n, eager) # sched) b acc =
     (case body_Read n eager b of
        (bs, Some e, b') \<Rightarrow> Some (acc @ bs, e, b')
      | (bs, None, b') \<Rightarrow> read_loop sched b' (acc @ bs))"

lemma body_Read_cases:
  assumes "\<not> bd_closed b"
  obtains (at_end) "bd_rest b = []" "body_Read n eager b = ([], Some (bd_end b), b)"
  | (last) "bd_rest b \<noteq> []" "length (bd_rest b) \<le> n"
      "body_Read n eager b = (bd_rest b, Some (bd_end b), b\<lparr>bd_rest := []\<rparr>)"
  | (more) "bd_rest b \<noteq> []"
      "body_Read n eager b = (take n (bd_rest b), None, b\<lparr>bd_rest := drop n (bd_rest b)\<rparr>)"
  using assms by (cases "bd_rest b = []"; cases "eager \<and> length (bd_rest b) \<le> n")
    (simp_all add: body_Read_def)

lemma read_loop_result:
  assumes "\<not> bd_closed b" and "read_loop sched b acc = Some (out, e, b')"
  shows "out = acc @ bd_rest b \<and> e = bd_end b \<and> b' = b\<lparr>bd_rest := []\<rparr>"
  using assms
proof (induction sched arbitrary: b acc)
  case (Cons c sched)
  obtain n eager where c: "c = (n, eager)" by (cases c)
  from Cons.prems(1) show ?case
  proof (cases rule: body_Read_cases [where n = n and eager = eager])
    case more
    then have "read_loop sched (b\<lparr>bd_rest := drop n (bd_rest b)\<rparr>) (acc @ take n (bd_rest b)) =
        Some (out, e, b')"
      using Cons.prems(2) c by simp
    from Cons.IH [OF _ this] Cons.prems(1) show ?thesis by simp
  qed (use Cons.prems(2) c in auto)
qed simp

lemma read_loop_ends:
  assumes "\<not> bd_closed b" and "list_all (\<lambda>c. 0 < fst c) sched" and "length (bd_rest b) < length sched"
  shows "read_loop sched b acc \<noteq> None"
  using assms
proof (induction sched arbitrary: b acc)
  case (Cons c sched)
  obtain n eager where c: "c = (n, eager)" by (cases c)
  from Cons.prems(1) show ?case
  proof (cases rule: body_Read_cases [where n = n and eager = eager])
    case more
    have "length (drop n (bd_rest b)) < length sched"
      using more(1) Cons.prems(2,3) c by (cases "bd_rest b") auto
    then have "read_loop sched (b\<lparr>bd_rest := drop n (bd_rest b)\<rparr>) (acc @ take n (bd_rest b)) \<noteq> None"
      using Cons.IH [of "b\<lparr>bd_rest := drop n (bd_rest b)\<rparr>"] Cons.prems(1,2) by simp
    then show ?thesis using more c by simp
  qed (simp_all add: c)
qed simp

text \<open>So \<open>io_ReadAll\<close> is that loop, whatever the chunks.\<close>

lemma io_ReadAll_loop:
  assumes "\<not> bd_closed b" and "read_loop sched b [] = Some (out, e, b')"
  shows "io_ReadAll b = (out, (if e = Sentinel IoEOF then None else Some e), b')"
  using read_loop_result [OF assms] assms(1) by (simp add: io_ReadAll_def)

section \<open>Requests and responses\<close>

text \<open>
  The values that the program puts into the context of a request: the dial plan under
  \<^verbatim>\<open>dnsPlanKey\<close> and the DNS decision under \<^verbatim>\<open>dnsDecisionKey\<close>.
\<close>

record dnsDialPlan =
  plan_target :: string

record req_ctx =
  ctx_plan :: "dnsDialPlan option"
  ctx_decision :: "DNSDecision option"

definition background_ctx :: req_ctx where
  "background_ctx = \<lparr>ctx_plan = None, ctx_decision = None\<rparr>"

record http_request =
  rq_method :: string
  rq_url :: url
  rq_header :: header
  rq_body :: bytes
  rq_ctx :: req_ctx

record http_response =
  rs_StatusCode :: int
  rs_Header :: header
  rs_ContentLength :: int
  rs_Body :: "body option"
  rs_Request :: "http_request option"

section \<open>The base transport\<close>

text \<open>
  A connection belongs to a scheme and host and has the address it was dialled to. It is idle, in
  the pool, or in use by a request. A round trip takes an idle connection of its scheme and host, or
  dials one through the transport's \<^verbatim>\<open>DialContext\<close>. A failed exchange closes the connection. After
  an answer it is closed, idle at once (an answer without a body), or in use for as long as the body
  has been neither read to its end nor closed; then it goes back to the pool or is closed.
  \<^verbatim>\<open>CloseIdleConnections\<close> closes the idle connections only. (It also keeps connections out of the
  pool until the next request asks for one; the program's one call is followed at once by such a
  request.)

  \<open>ne_dial\<close>, \<open>ne_exchange\<close>, \<open>ne_fate\<close> and \<open>ne_drained\<close> are the network's part: the result of dialling
  an address and of the exchange, what becomes of the connection of an answer, and whether the
  connection can be kept when the program or the client itself has read and closed the body.
\<close>

record conn =
  cn_scheme :: string
  cn_host :: string
  cn_addr :: string

record http_transport =
  tr_idle :: "conn list"
  tr_busy :: "conn list"

datatype conn_fate = ConnGone | ConnIdle | ConnBusy

record net_env =
  ne_dial :: "string \<Rightarrow> go_err"
  ne_exchange :: "go_error + http_response"
  ne_fate :: conn_fate
  ne_drained :: bool

definition empty_pool :: http_transport where
  "empty_pool = \<lparr>tr_idle = [], tr_busy = []\<rparr>"

definition CloseIdleConnections :: "http_transport \<Rightarrow> http_transport" where
  "CloseIdleConnections tr = tr\<lparr>tr_idle := []\<rparr>"

definition conn_for :: "url \<Rightarrow> conn \<Rightarrow> bool" where
  "conn_for u c \<longleftrightarrow> cn_scheme c = url_Scheme u \<and> cn_host c = url_Host u"

text \<open>How a request got its connection.\<close>

datatype carrier = NotSent | DialFailed conn | Reused conn | Dialled conn

definition get_conn ::
    "(req_ctx \<Rightarrow> string \<Rightarrow> string) \<Rightarrow> string \<Rightarrow> net_env \<Rightarrow> http_transport \<Rightarrow> http_request
       \<Rightarrow> (go_error + conn) \<times> carrier \<times> http_transport" where
  "get_conn dialAddr addr ne tr req =
     (case find (conn_for (rq_url req)) (tr_idle tr) of
        Some c \<Rightarrow> (Inr c, Reused c, tr\<lparr>tr_idle := remove1 c (tr_idle tr)\<rparr>)
      | None \<Rightarrow>
          let target = dialAddr (rq_ctx req) addr;
              c = \<lparr>cn_scheme = url_Scheme (rq_url req), cn_host = url_Host (rq_url req), cn_addr = target\<rparr>
          in case ne_dial ne target of
               Some e \<Rightarrow> (Inl e, DialFailed c, tr)
             | None \<Rightarrow> (Inr c, Dialled c, tr))"

text \<open>Where the connection of an answer goes: the connections in use stand in the order of their requests.\<close>

definition place_conn :: "conn_fate \<Rightarrow> conn \<Rightarrow> http_transport \<Rightarrow> http_transport" where
  "place_conn fate c tr =
     (case fate of
        ConnGone \<Rightarrow> tr
      | ConnIdle \<Rightarrow> tr\<lparr>tr_idle := c # tr_idle tr\<rparr>
      | ConnBusy \<Rightarrow> tr\<lparr>tr_busy := tr_busy tr @ [c]\<rparr>)"

definition transport_RoundTrip ::
    "(req_ctx \<Rightarrow> string \<Rightarrow> string) \<Rightarrow> string \<Rightarrow> net_env \<Rightarrow> http_transport \<Rightarrow> http_request
       \<Rightarrow> (go_error + http_response) \<times> carrier \<times> http_transport" where
  "transport_RoundTrip dialAddr addr ne tr req =
     (case get_conn dialAddr addr ne tr req of
        (Inl e, ca, tr1) \<Rightarrow> (Inl e, ca, tr1)
      | (Inr c, ca, tr1) \<Rightarrow>
          (case ne_exchange ne of
             Inl e \<Rightarrow> (Inl e, ca, tr1)
           | Inr rs \<Rightarrow> (Inr (rs\<lparr>rs_Request := Some req\<rparr>), ca, place_conn (ne_fate ne) c tr1)))"

text \<open>
  The body on the \<open>k\<close>-th connection in use has been read to its end or closed: the connection is
  idle again or closed. There is nothing to do if no such connection is in use.
\<close>

definition body_done :: "nat \<Rightarrow> bool \<Rightarrow> http_transport \<Rightarrow> http_transport" where
  "body_done k keep tr =
     (if k < length (tr_busy tr)
      then place_conn (if keep then ConnIdle else ConnGone) (tr_busy tr ! k)
             (tr\<lparr>tr_busy := take k (tr_busy tr) @ drop (Suc k) (tr_busy tr)\<rparr>)
      else tr)"

lemma place_conn_sets [simp]:
  "set (tr_idle (place_conn fate c tr)) = set (tr_idle tr) \<union> (if fate = ConnIdle then {c} else {})"
  "set (tr_busy (place_conn fate c tr)) = set (tr_busy tr) \<union> (if fate = ConnBusy then {c} else {})"
  by (cases fate; simp add: place_conn_def)+

text \<open>The connections of a transport, idle or in use.\<close>

definition tr_conns :: "http_transport \<Rightarrow> conn set" where
  "tr_conns tr = set (tr_idle tr) \<union> set (tr_busy tr)"

lemma tr_conns_empty [simp]: "tr_conns empty_pool = {}" "tr_idle empty_pool = []" "tr_busy empty_pool = []"
  by (simp_all add: tr_conns_def empty_pool_def)

lemma body_done_conns: "tr_conns (body_done k keep tr) \<subseteq> tr_conns tr"
  by (auto simp: body_done_def tr_conns_def dest: in_set_takeD in_set_dropD)

lemma body_done_none [simp]: "tr_busy tr = [] \<Longrightarrow> body_done k keep tr = tr"
  by (simp add: body_done_def)

lemma CloseIdleConnections_pool [simp]:
  "tr_idle (CloseIdleConnections tr) = []" "tr_busy (CloseIdleConnections tr) = tr_busy tr"
  by (simp_all add: CloseIdleConnections_def)

lemma find_conn_forD: "find (conn_for u) cs = Some c \<Longrightarrow> c \<in> set cs \<and> conn_for u c"
  by (auto simp: find_Some_iff)

lemma get_conn_cases:
  obtains (idle) c where "find (conn_for (rq_url req)) (tr_idle tr) = Some c" "c \<in> set (tr_idle tr)"
      "get_conn dialAddr addr ne tr req = (Inr c, Reused c, tr\<lparr>tr_idle := remove1 c (tr_idle tr)\<rparr>)"
  | (failed) c e where "get_conn dialAddr addr ne tr req = (Inl e, DialFailed c, tr)"
  | (fresh) c where "get_conn dialAddr addr ne tr req = (Inr c, Dialled c, tr)"
proof (cases "find (conn_for (rq_url req)) (tr_idle tr)")
  case None
  then show thesis
    using failed fresh by (cases "ne_dial ne (dialAddr (rq_ctx req) addr)") (auto simp: get_conn_def Let_def)
next
  case (Some c)
  then show thesis
    using idle [of c] find_conn_forD [OF Some] by (simp add: get_conn_def)
qed

text \<open>Every connection after a round trip was there before or was dialled in it, and those in use stay so.\<close>

lemma transport_RoundTrip_pool:
  assumes "transport_RoundTrip dialAddr addr ne tr req = (res, ca, tr')"
  shows "c \<in> set (tr_idle tr') \<Longrightarrow> c \<in> set (tr_idle tr) \<or> ca = Dialled c"
    and "c \<in> set (tr_busy tr') \<Longrightarrow> c \<in> set (tr_busy tr) \<or> ca = Dialled c \<or> ca = Reused c \<and> c \<in> set (tr_idle tr)"
    and "\<exists>cs. tr_busy tr' = tr_busy tr @ cs \<and> length cs \<le> 1"
proof (atomize (full), cases rule: get_conn_cases [of req tr dialAddr addr ne])
  case (idle c')
  then show "(c \<in> set (tr_idle tr') \<longrightarrow> c \<in> set (tr_idle tr) \<or> ca = Dialled c) \<and>
      (c \<in> set (tr_busy tr') \<longrightarrow> c \<in> set (tr_busy tr) \<or> ca = Dialled c \<or> ca = Reused c \<and> c \<in> set (tr_idle tr)) \<and>
      (\<exists>cs. tr_busy tr' = tr_busy tr @ cs \<and> length cs \<le> 1)"
    using assms set_remove1_subset [of c' "tr_idle tr"]
    by (auto simp: transport_RoundTrip_def place_conn_def split: sum.splits conn_fate.splits)
qed (use assms in \<open>auto simp: transport_RoundTrip_def place_conn_def split: sum.splits conn_fate.splits\<close>)

lemma transport_RoundTrip_dialled:
  assumes "transport_RoundTrip dialAddr addr ne tr req = (res, Dialled c, tr')"
  shows "cn_addr c = dialAddr (rq_ctx req) addr \<and> conn_for (rq_url req) c \<and>
    ne_dial ne (cn_addr c) = None \<and> find (conn_for (rq_url req)) (tr_idle tr) = None"
  using assms
  by (auto simp: transport_RoundTrip_def get_conn_def Let_def conn_for_def
      split: option.splits prod.splits sum.splits if_splits)

lemma transport_RoundTrip_reused:
  assumes "transport_RoundTrip dialAddr addr ne tr req = (res, Reused c, tr')"
  shows "c \<in> set (tr_idle tr) \<and> conn_for (rq_url req) c"
  using assms
  by (auto simp: transport_RoundTrip_def get_conn_def Let_def dest: find_conn_forD
      split: option.splits prod.splits sum.splits if_splits)

lemma transport_RoundTrip_ok:
  assumes "transport_RoundTrip dialAddr addr ne tr req = (Inr rs, ca, tr')"
  shows "(\<exists>c. ca = Reused c \<or> ca = Dialled c) \<and> rs_Request rs = Some req \<and>
    (\<exists>rs0. ne_exchange ne = Inr rs0 \<and> rs = rs0\<lparr>rs_Request := Some req\<rparr>)"
  using assms
  by (auto simp: transport_RoundTrip_def get_conn_def Let_def
      split: option.splits prod.splits sum.splits if_splits)

end
