(* ===== verification/DNS_Transport.thy ===== *)
theory DNS_Transport
  imports DNS_Guard HTTP_Model
begin

text \<open>
  \<^verbatim>\<open>dns_policy_manager.go\<close>, part two: what a request goes through. \<open>prepareRequest\<close> decides the
  dial target and the guard-rail action, \<open>dialContext\<close> puts the target in place of the address to
  dial, and the \<^verbatim>\<open>RoundTrip\<close> of the \<^verbatim>\<open>policyTransport\<close> runs a request over the base transport.
\<close>

section \<open>Definitions\<close>

definition defaultPort :: "string \<Rightarrow> string" where
  "defaultPort scheme =
     (if scheme = ''http'' then ''80'' else if scheme = ''https'' then ''443'' else [])"

definition request_port :: "url \<Rightarrow> string" where
  "request_port u = (let port = url_Port u in if port = [] then defaultPort (url_Scheme u) else port)"

text \<open>
  What \<^verbatim>\<open>prepareRequest\<close> returns and the call of the decision hook it makes, if any: the context
  and the decision the hook is given.
\<close>

record prepared =
  pr_ctx :: req_ctx
  pr_forceNewConn :: bool
  pr_err :: go_err
  pr_hook :: "(req_ctx \<times> DNSDecision) option"

definition call_hook :: "dnsPolicyManager \<Rightarrow> req_ctx \<Rightarrow> DNSDecision \<Rightarrow> (req_ctx \<times> DNSDecision) option" where
  "call_hook m ctx d = (if mgr_hook m then Some (ctx, d) else None)"

definition with_plan :: "string \<Rightarrow> req_ctx \<Rightarrow> req_ctx" where
  "with_plan addr ctx =
     (if addr \<noteq> [] then ctx\<lparr>ctx_plan := Some \<lparr>plan_target = addr\<rparr>\<rparr> else ctx)"

definition with_decision :: "DNSDecision \<Rightarrow> req_ctx \<Rightarrow> req_ctx" where
  "with_decision d ctx = ctx\<lparr>ctx_decision := Some d\<rparr>"

definition store_decision :: "DNSDecision \<Rightarrow> dnsPolicyManager \<Rightarrow> dnsPolicyManager" where
  "store_decision d m = m\<lparr>mgr_lastDecision := Some d\<rparr>"

text \<open>The branch in which the resolution failed.\<close>

definition prepare_failed ::
    "dnsPolicyManager \<Rightarrow> req_ctx \<Rightarrow> dnsResolveOutcome \<Rightarrow> go_error \<Rightarrow> dnsPolicyManager \<times> prepared" where
  "prepare_failed m ctx oc err =
     (case ro_decision oc of
        None \<Rightarrow> (m, \<lparr>pr_ctx = ctx, pr_forceNewConn = False, pr_err = Some err, pr_hook = None\<rparr>)
      | Some d \<Rightarrow>
          let d' = d\<lparr>dec_Err := Some err\<rparr>
          in (store_decision d' m,
              \<lparr>pr_ctx = ctx, pr_forceNewConn = False, pr_err = Some err, pr_hook = call_hook m ctx d'\<rparr>))"

text \<open>The branch of a failed refresh with a cached address.\<close>

definition prepare_fallback ::
    "dnsPolicyManager \<Rightarrow> req_ctx \<Rightarrow> dnsResolveOutcome \<Rightarrow> DNSDecision \<Rightarrow> go_error
       \<Rightarrow> dnsPolicyManager \<times> prepared" where
  "prepare_fallback m ctx oc d err =
     (let d' = d\<lparr>dec_FallbackUsed := True\<rparr>;
          ctx' = with_plan (ro_address oc) (with_decision d' ctx)
      in (store_decision d' m,
          \<lparr>pr_ctx = ctx', pr_forceNewConn = ro_forceNewConn oc, pr_err = Some err,
           pr_hook = call_hook m ctx' d'\<rparr>))"

text \<open>The branch that lets the request go on.\<close>

definition prepare_go ::
    "dnsPolicyManager \<Rightarrow> http_transport \<Rightarrow> req_ctx \<Rightarrow> string \<Rightarrow> dnsResolveOutcome
       \<Rightarrow> dnsPolicyManager \<times> http_transport \<times> prepared" where
  "prepare_go m tr ctx host oc =
     (let (guardTriggered, m1) = consumeGuardTrigger m;
          decision = (if ro_decision oc = None \<and> (mgr_hook m1 \<or> guardTriggered)
                      then Some (new_decision host (pol_Mode (mgr_policy m1))) else ro_decision oc);
          act = guardTriggered \<and> decision \<noteq> None;
          forceNew = (act \<or> ro_forceNewConn oc);
          decision' = (if act then map_option (\<lambda>d. d\<lparr>dec_GuardRailTriggered := True\<rparr>) decision
                       else decision);
          ctx1 = with_plan (ro_address oc) ctx;
          ctx2 = (case decision' of None \<Rightarrow> ctx1 | Some d \<Rightarrow> with_decision d ctx1);
          hook = (case decision' of None \<Rightarrow> None | Some d \<Rightarrow> call_hook m1 ctx2 d)
      in (m1, if forceNew then CloseIdleConnections tr else tr,
          \<lparr>pr_ctx = ctx2, pr_forceNewConn = forceNew, pr_err = None, pr_hook = hook\<rparr>))"

definition prepareRequest ::
    "dnsPolicyManager \<Rightarrow> lookup_env \<Rightarrow> http_transport \<Rightarrow> req_ctx \<Rightarrow> url
       \<Rightarrow> (dnsPolicyManager \<times> http_transport \<times> prepared) option" where
  "prepareRequest m env tr ctx u =
     (let host = url_Hostname u; port = request_port u
      in if port = []
         then Some (m, tr, \<lparr>pr_ctx = ctx, pr_forceNewConn = False,
                 pr_err = Some (ErrorString ''cannot determine port for URL''), pr_hook = None\<rparr>)
         else do {
           (m1, oc, err) \<leftarrow> mgr_resolve m env host port;
           Some (case err of
               Some e \<Rightarrow> (let (m2, p) = prepare_failed m1 ctx oc e in (m2, tr, p))
             | None \<Rightarrow>
                 (case (ro_fallbackErr oc, ro_decision oc) of
                    (Some e, Some d) \<Rightarrow> (let (m2, p) = prepare_fallback m1 ctx oc d e in (m2, tr, p))
                  | _ \<Rightarrow> prepare_go m1 tr ctx host oc)) })"

text \<open>\<open>dialContext\<close> gives the address that the \<^verbatim>\<open>net.Dialer\<close> is asked to dial.\<close>

definition dialContext :: "req_ctx \<Rightarrow> string \<Rightarrow> string" where
  "dialContext ctx address =
     (case ctx_plan ctx of
        Some plan \<Rightarrow> if plan_target plan \<noteq> [] then plan_target plan else address
      | None \<Rightarrow> address)"

text \<open>The address the base transport dials for a URL when nothing replaces it.\<close>

definition url_dial_address :: "url \<Rightarrow> string" where
  "url_dial_address u = JoinHostPort (url_Hostname u) (request_port u)"

record policyTransport =
  pt_base :: http_transport
  pt_mgr :: dnsPolicyManager

text \<open>
  One \<^verbatim>\<open>RoundTrip\<close>: the transport after it, the decision hook's call, how the request was carried,
  and its result.
\<close>

record round_trip =
  rt_transport :: policyTransport
  rt_hook :: "(req_ctx \<times> DNSDecision) option"
  rt_carrier :: carrier
  rt_result :: "go_error + http_response"

definition policy_RoundTrip ::
    "policyTransport \<Rightarrow> lookup_env \<Rightarrow> net_env \<Rightarrow> http_request \<Rightarrow> round_trip option" where
  "policy_RoundTrip p env ne req = do {
     (m1, tr1, pr) \<leftarrow> prepareRequest (pt_mgr p) env (pt_base p) (rq_ctx req) (rq_url req);
     Some (case pr_err pr of
         Some e \<Rightarrow>
           \<lparr>rt_transport = \<lparr>pt_base = tr1, pt_mgr = m1\<rparr>, rt_hook = pr_hook pr,
            rt_carrier = NotSent, rt_result = Inl e\<rparr>
       | None \<Rightarrow>
           (let newReq = req\<lparr>rq_ctx := pr_ctx pr\<rparr>;
                (res, ca, tr2) = transport_RoundTrip dialContext (url_dial_address (rq_url req)) ne tr1 newReq
            in \<lparr>rt_transport = \<lparr>pt_base = tr2, pt_mgr = m1\<rparr>, rt_hook = pr_hook pr,
                rt_carrier = ca, rt_result = res\<rparr>)) }"

section \<open>Lemmas on the resolution of a request\<close>

lemma consumeGuardTrigger_frame [simp]:
  "mgr_policy (snd (consumeGuardTrigger m)) = mgr_policy m"
  "mgr_cache (snd (consumeGuardTrigger m)) = mgr_cache m"
  "mgr_hook (snd (consumeGuardTrigger m)) = mgr_hook m"
  "mgr_forceLookup (snd (consumeGuardTrigger m)) = mgr_forceLookup m"
  by (simp_all add: consumeGuardTrigger_def)

lemma mgr_resolve_contract:
  assumes "lookup_mode (pol_Mode (mgr_policy m))" and "mgr_resolve m env host port = Some (m', oc, err)"
  shows "mgr_policy m' = mgr_policy m" "mgr_hook m' = mgr_hook m" "mgr_guard m' = mgr_guard m"
    "mgr_lastDecision m' = mgr_lastDecision m"
    "err = None \<Longrightarrow> dials oc (ce_addrs (mgr_cache m')) host port"
    "err = Some e \<Longrightarrow> mgr_lookup m env = Inl e \<and> mgr_cache m' = mgr_cache m \<and>
       (ce_addrs (mgr_cache m) = [] \<or> \<not> fallbackEnabled (mgr_policy m)) \<and>
       (\<exists>d. ro_decision oc = Some d \<and> dec_Err d = Some e \<and> dec_Host d = host \<and> \<not> dec_FallbackUsed d)"
    "ro_forceNewConn oc \<Longrightarrow> \<exists>lf. mgr_lookup m env = Inr lf \<and> ce_addrs (mgr_cache m') = lf_addrs lf"
    "\<not> ro_forceNewConn oc \<Longrightarrow> mgr_cache m' = mgr_cache m"
    "err = None \<Longrightarrow> ro_fallbackErr oc = Some f \<Longrightarrow> mgr_lookup m env = Inl f \<and> \<not> ro_forceNewConn oc \<and>
       ce_addrs (mgr_cache m) \<noteq> [] \<and> fallbackEnabled (mgr_policy m) \<and> (\<exists>d. ro_decision oc = Some d \<and> dec_Err d = Some f)"
proof -
  consider (S) "resolveSingle m env host port = Some (m', oc, err)"
    | (T) "resolveTTL m env host port = Some (m', oc, err)"
    | (C) "resolveCadence m env host port = Some (m', oc, err)"
    using assms by (auto simp: lookup_mode_def mgr_resolve_modes)
  note cs = this
  have "mgr_policy m' = mgr_policy m \<and> mgr_hook m' = mgr_hook m \<and> mgr_guard m' = mgr_guard m \<and>
      mgr_lastDecision m' = mgr_lastDecision m"
    by (cases rule: cs) (auto dest: single.frame ttl.frame cadence.frame)
  then show "mgr_policy m' = mgr_policy m" "mgr_hook m' = mgr_hook m" "mgr_guard m' = mgr_guard m"
    "mgr_lastDecision m' = mgr_lastDecision m" by simp_all
  show "dials oc (ce_addrs (mgr_cache m')) host port" if "err = None"
    by (cases rule: cs) (auto simp: that dest: single.answer ttl.answer cadence.answer)
  show "mgr_lookup m env = Inl e \<and> mgr_cache m' = mgr_cache m \<and>
      (ce_addrs (mgr_cache m) = [] \<or> \<not> fallbackEnabled (mgr_policy m)) \<and>
       (\<exists>d. ro_decision oc = Some d \<and> dec_Err d = Some e \<and> dec_Host d = host \<and> \<not> dec_FallbackUsed d)" if "err = Some e"
    by (cases rule: cs) (auto simp: that dest: single.failure ttl.failure cadence.failure)
  have r: "if ro_forceNewConn oc
      then \<exists>lf. mgr_lookup m env = Inr lf \<and> ce_addrs (mgr_cache m') = lf_addrs lf
      else mgr_cache m' = mgr_cache m"
  proof (cases rule: cs)
    case S then show ?thesis by (rule single.refresh)
  next
    case T then show ?thesis by (rule ttl.refresh)
  next
    case C then show ?thesis by (rule cadence.refresh)
  qed
  then show "ro_forceNewConn oc \<Longrightarrow> \<exists>lf. mgr_lookup m env = Inr lf \<and> ce_addrs (mgr_cache m') = lf_addrs lf"
    "\<not> ro_forceNewConn oc \<Longrightarrow> mgr_cache m' = mgr_cache m" by simp_all
  show "mgr_lookup m env = Inl f \<and> \<not> ro_forceNewConn oc \<and> ce_addrs (mgr_cache m) \<noteq> [] \<and>
      fallbackEnabled (mgr_policy m) \<and> (\<exists>d. ro_decision oc = Some d \<and> dec_Err d = Some f)"
    if "err = None" and "ro_fallbackErr oc = Some f"
  proof (cases rule: cs)
    case S with that show ?thesis using single.fallback by simp
  next
    case T with that show ?thesis using ttl.fallback by simp
  next
    case C with that show ?thesis using cadence.fallback by simp
  qed
qed

text \<open>The branches of \<open>prepareRequest\<close>, by what the resolution gave.\<close>

lemma prepareRequest_cases:
  assumes "prepareRequest m env tr ctx u = Some (m', tr', p)"
  obtains (no_port) "request_port u = []" "m' = m" "tr' = tr" "pr_ctx p = ctx" "pr_hook p = None"
      "pr_err p = Some (ErrorString ''cannot determine port for URL'')"
  | (failed) m1 oc e where "mgr_resolve m env (url_Hostname u) (request_port u) = Some (m1, oc, Some e)"
      "prepare_failed m1 ctx oc e = (m', p)" "tr' = tr"
  | (fallback) m1 oc d e where "mgr_resolve m env (url_Hostname u) (request_port u) = Some (m1, oc, None)"
      "ro_decision oc = Some d" "ro_fallbackErr oc = Some e"
      "prepare_fallback m1 ctx oc d e = (m', p)" "tr' = tr"
  | (go) m1 oc where "mgr_resolve m env (url_Hostname u) (request_port u) = Some (m1, oc, None)"
      "ro_decision oc = None \<or> ro_fallbackErr oc = None"
      "prepare_go m1 tr ctx (url_Hostname u) oc = (m', tr', p)"
proof (cases "request_port u = []")
  case True
  with assms show thesis by (intro no_port) (auto simp: prepareRequest_def Let_def)
next
  case False
  obtain m1 oc err where res: "mgr_resolve m env (url_Hostname u) (request_port u) = Some (m1, oc, err)"
    using mgr_resolve_returns by blast
  show thesis
  proof (cases err)
    case (Some e)
    with assms False res show thesis
      by (intro failed) (auto simp: prepareRequest_def Let_def split: prod.splits)
  next
    case None
    show thesis
    proof (cases "ro_decision oc = None \<or> ro_fallbackErr oc = None")
      case True
      have "prepareRequest m env tr ctx u = Some (prepare_go m1 tr ctx (url_Hostname u) oc)"
        using True False res None
        by (auto simp: prepareRequest_def Let_def split: option.split)
      with True go res None assms show thesis by simp
    next
      case False': False
      then obtain d e where "ro_decision oc = Some d" "ro_fallbackErr oc = Some e" by auto
      with assms False res None show thesis
        by (intro fallback) (auto simp: prepareRequest_def Let_def split: prod.splits)
    qed
  qed
qed

lemma prepareRequest_total: "prepareRequest m env tr ctx u \<noteq> None"
  using mgr_resolve_returns [of m env "url_Hostname u" "request_port u"]
  by (auto simp: prepareRequest_def Let_def simp del: not_None_eq)

lemma policy_RoundTrip_total: "policy_RoundTrip p env ne req \<noteq> None"
  using prepareRequest_total [of "pt_mgr p" env "pt_base p" "rq_ctx req" "rq_url req"]
  by (auto simp: policy_RoundTrip_def)

lemma prepare_failed_simps:
  assumes "prepare_failed m ctx oc e = (m', p)"
  shows "mgr_cache m' = mgr_cache m" "mgr_policy m' = mgr_policy m" "mgr_guard m' = mgr_guard m"
    "mgr_forceLookup m' = mgr_forceLookup m"
    "pr_err p = Some e" "pr_ctx p = ctx" "\<not> pr_forceNewConn p"
  using assms by (auto simp: prepare_failed_def store_decision_def Let_def split: option.splits)

lemma prepare_fallback_simps:
  assumes "prepare_fallback m ctx oc d e = (m', p)"
  shows "mgr_cache m' = mgr_cache m" "mgr_policy m' = mgr_policy m" "mgr_guard m' = mgr_guard m"
    "mgr_forceLookup m' = mgr_forceLookup m"
    "mgr_lastDecision m' = Some (d\<lparr>dec_FallbackUsed := True\<rparr>)"
    "pr_err p = Some e" "ctx_decision (pr_ctx p) = Some (d\<lparr>dec_FallbackUsed := True\<rparr>)"
    "pr_hook p = (if mgr_hook m then Some (pr_ctx p, d\<lparr>dec_FallbackUsed := True\<rparr>) else None)"
  using assms by (auto simp: prepare_fallback_def store_decision_def Let_def with_plan_def
      with_decision_def call_hook_def)

text \<open>The decision a request goes on with.\<close>

definition go_decision :: "dnsPolicyManager \<Rightarrow> string \<Rightarrow> dnsResolveOutcome \<Rightarrow> DNSDecision option" where
  "go_decision m host oc =
     (let guardTriggered = fst (consumeGuardTrigger m)
      in case ro_decision oc of
           Some d \<Rightarrow> Some (if guardTriggered then d\<lparr>dec_GuardRailTriggered := True\<rparr> else d)
         | None \<Rightarrow>
             if guardTriggered
             then Some ((new_decision host (pol_Mode (mgr_policy m)))\<lparr>dec_GuardRailTriggered := True\<rparr>)
             else if mgr_hook m then Some (new_decision host (pol_Mode (mgr_policy m))) else None)"

lemma prepare_go_simps:
  assumes "prepare_go m tr ctx host oc = (m', tr', p)"
  shows "m' = snd (consumeGuardTrigger m)" "pr_err p = None"
    "tr' = (if pr_forceNewConn p then CloseIdleConnections tr else tr)"
    "pr_forceNewConn p \<longleftrightarrow> fst (consumeGuardTrigger m) \<or> ro_forceNewConn oc"
    "ctx_plan (pr_ctx p) = ctx_plan (with_plan (ro_address oc) ctx)"
    "ctx_decision (pr_ctx p) =
       (case go_decision m host oc of Some d \<Rightarrow> Some d | None \<Rightarrow> ctx_decision ctx)"
    "pr_hook p = (if mgr_hook m then map_option (\<lambda>d. (pr_ctx p, d)) (go_decision m host oc) else None)"
proof -
  obtain b m1 where c: "consumeGuardTrigger m = (b, m1)" by (cases "consumeGuardTrigger m")
  have "mgr_hook m1 = mgr_hook m" "mgr_policy m1 = mgr_policy m"
    using consumeGuardTrigger_frame [of m] c by simp_all
  note hook = this
  let ?d = "go_decision m host oc"
  let ?ctx = "case ?d of None \<Rightarrow> with_plan (ro_address oc) ctx
    | Some d \<Rightarrow> with_decision d (with_plan (ro_address oc) ctx)"
  have "prepare_go m tr ctx host oc =
      (m1, if b \<or> ro_forceNewConn oc then CloseIdleConnections tr else tr,
       \<lparr>pr_ctx = ?ctx, pr_forceNewConn = (b \<or> ro_forceNewConn oc), pr_err = None,
        pr_hook = (case ?d of None \<Rightarrow> None | Some d \<Rightarrow> call_hook m1 ?ctx d)\<rparr>)"
    by (cases b; cases "ro_decision oc"; cases "mgr_hook m")
      (simp_all add: prepare_go_def go_decision_def c hook Let_def)
  then have m': "m' = m1" and tr': "tr' = (if b \<or> ro_forceNewConn oc then CloseIdleConnections tr else tr)"
    and p: "p = \<lparr>pr_ctx = ?ctx, pr_forceNewConn = (b \<or> ro_forceNewConn oc), pr_err = None,
        pr_hook = (case ?d of None \<Rightarrow> None | Some d \<Rightarrow> call_hook m1 ?ctx d)\<rparr>"
    using assms by simp_all
  show "m' = snd (consumeGuardTrigger m)" using m' c by simp
  show "pr_err p = None" using p by simp
  show "tr' = (if pr_forceNewConn p then CloseIdleConnections tr else tr)" using p tr' by simp
  show "pr_forceNewConn p \<longleftrightarrow> fst (consumeGuardTrigger m) \<or> ro_forceNewConn oc" using p c by simp
  show "ctx_plan (pr_ctx p) = ctx_plan (with_plan (ro_address oc) ctx)"
    using p by (simp add: with_decision_def split: option.split)
  show "ctx_decision (pr_ctx p) = (case ?d of Some d \<Rightarrow> Some d | None \<Rightarrow> ctx_decision ctx)"
    using p by (simp add: with_decision_def with_plan_def split: option.split)
  show "pr_hook p = (if mgr_hook m then map_option (\<lambda>d. (pr_ctx p, d)) ?d else None)"
    using p hook by (simp add: call_hook_def split: option.split)
qed

section \<open>Sequences of requests over one endpoint's transport\<close>

text \<open>
  An endpoint sends requests, observes their results and hands back the connections whose bodies
  are done with, in any order.
\<close>

datatype endpoint_event =
    Trip lookup_env net_env http_request
  | Observe gotime int go_err
  | BodyDone nat bool

definition release :: "nat \<Rightarrow> bool \<Rightarrow> policyTransport \<Rightarrow> policyTransport" where
  "release k keep p = p\<lparr>pt_base := body_done k keep (pt_base p)\<rparr>"

fun run_endpoint ::
    "policyTransport \<Rightarrow> endpoint_event list \<Rightarrow> (policyTransport \<times> round_trip list) option" where
  "run_endpoint p [] = Some (p, [])"
| "run_endpoint p (Observe now st err # evs) = run_endpoint (p\<lparr>pt_mgr := observeResult (pt_mgr p) now st err\<rparr>) evs"
| "run_endpoint p (BodyDone k keep # evs) = run_endpoint (release k keep p) evs"
| "run_endpoint p (Trip env ne req # evs) = do {
     r \<leftarrow> policy_RoundTrip p env ne req;
     (p', rs) \<leftarrow> run_endpoint (rt_transport r) evs;
     Some (p', r # rs) }"

definition new_transport :: "DNSPolicy \<Rightarrow> bool \<Rightarrow> policyTransport" where
  "new_transport policy hook =
     \<lparr>pt_base = empty_pool, pt_mgr = newDNSPolicyManager policy hook\<rparr>"

fun carrier_conn :: "carrier \<Rightarrow> conn option" where
  "carrier_conn NotSent = None"
| "carrier_conn (DialFailed c) = Some c"
| "carrier_conn (Reused c) = Some c"
| "carrier_conn (Dialled c) = Some c"

text \<open>A connection to the first of some addresses, at the port of the URLs it serves.\<close>

definition conn_port :: "conn \<Rightarrow> string" where
  "conn_port c = request_port \<lparr>url_Scheme = cn_scheme c, url_Host = cn_host c, url_Path = []\<rparr>"

definition conn_to :: "netip_addr list \<Rightarrow> conn \<Rightarrow> bool" where
  "conn_to addrs c \<longleftrightarrow> addrs \<noteq> [] \<and> cn_addr c = JoinHostPort (addr_string (hd addrs)) (conn_port c)"

definition mgr_addrs :: "policyTransport \<Rightarrow> netip_addr list" where
  "mgr_addrs p = ce_addrs (mgr_cache (pt_mgr p))"

text \<open>Every connection, idle or in use, goes to the first cached address, but for those of a set.\<close>

definition pool_within :: "conn set \<Rightarrow> policyTransport \<Rightarrow> bool" where
  "pool_within H p \<longleftrightarrow> (\<forall>c \<in> tr_conns (pt_base p). conn_to (mgr_addrs p) c \<or> c \<in> H)"

abbreviation pool_current :: "policyTransport \<Rightarrow> bool" where
  "pool_current p \<equiv> pool_within {} p"

lemma release_simps [simp]:
  "pt_mgr (release k keep p) = pt_mgr p" "mgr_addrs (release k keep p) = mgr_addrs p"
  "pt_base (release k keep p) = body_done k keep (pt_base p)"
  by (simp_all add: release_def mgr_addrs_def)

lemma release_within: "pool_within H p \<Longrightarrow> pool_within H (release k keep p)"
  using body_done_conns [of k keep "pt_base p"] by (auto simp: pool_within_def)

lemma request_port_conn: "conn_for u c \<Longrightarrow> conn_port c = request_port u"
  by (simp add: conn_for_def conn_port_def request_port_def url_Port_def Let_def)

lemma JoinHostPort_nonempty [simp]: "JoinHostPort h p \<noteq> []"
  by (simp add: JoinHostPort_def)

lemma get_conn_for:
  "get_conn dialAddr addr ne tr req = (r, ca, tr') \<Longrightarrow> carrier_conn ca = Some c \<Longrightarrow> conn_for (rq_url req) c"
  by (auto simp: get_conn_def Let_def conn_for_def dest: find_conn_forD
      split: option.splits)

text \<open>
  A round trip over the base transport with a plan: the connection is an idle one or goes to the
  plan's target.
\<close>

lemma transport_RoundTrip_carrier:
  assumes "transport_RoundTrip dialContext addr ne tr req = (res, ca, tr')"
    and "ctx_plan (rq_ctx req) = Some \<lparr>plan_target = target\<rparr>" and "target \<noteq> []"
  shows "\<exists>c. carrier_conn ca = Some c \<and> conn_for (rq_url req) c \<and>
    (ca = Reused c \<and> c \<in> set (tr_idle tr) \<or> (ca = Dialled c \<or> ca = DialFailed c) \<and> cn_addr c = target)"
  using assms
  by (auto simp: transport_RoundTrip_def get_conn_def Let_def dialContext_def conn_for_def
      dest: find_conn_forD split: option.splits prod.splits sum.splits)

text \<open>What a round trip does in a mode that looks names up.\<close>

lemma policy_RoundTrip_sent:
  assumes mode: "lookup_mode (pol_Mode (mgr_policy (pt_mgr p)))"
    and rt: "policy_RoundTrip p env ne req = Some r" and sent: "rt_carrier r \<noteq> NotSent"
  obtains m1 oc m2 tr1 pr ca res tr2 where
    "mgr_resolve (pt_mgr p) env (url_Hostname (rq_url req)) (request_port (rq_url req)) = Some (m1, oc, None)"
    "ro_fallbackErr oc = None"
    "dials oc (ce_addrs (mgr_cache m1)) (url_Hostname (rq_url req)) (request_port (rq_url req))"
    "prepare_go m1 (pt_base p) (rq_ctx req) (url_Hostname (rq_url req)) oc = (m2, tr1, pr)"
    "ctx_plan (pr_ctx pr) = Some \<lparr>plan_target = ro_address oc\<rparr>" "ro_address oc \<noteq> []"
    "transport_RoundTrip dialContext (url_dial_address (rq_url req)) ne tr1 (req\<lparr>rq_ctx := pr_ctx pr\<rparr>)
       = (res, ca, tr2)"
    "r = \<lparr>rt_transport = \<lparr>pt_base = tr2, pt_mgr = m2\<rparr>, rt_hook = pr_hook pr, rt_carrier = ca, rt_result = res\<rparr>"
proof -
  obtain m2 tr1 pr where prep: "prepareRequest (pt_mgr p) env (pt_base p) (rq_ctx req) (rq_url req) = Some (m2, tr1, pr)"
    using rt by (auto simp: policy_RoundTrip_def run_iff)
  have ok: "pr_err pr = None"
    using rt sent prep by (auto simp: policy_RoundTrip_def split: option.splits)
  from prep show thesis
  proof (cases rule: prepareRequest_cases)
    case (go m1 oc)
    have d: "dials oc (ce_addrs (mgr_cache m1)) (url_Hostname (rq_url req)) (request_port (rq_url req))"
      using mgr_resolve_contract(5) [OF mode go(1)] by simp
    then have addr: "ro_address oc \<noteq> []" and dec: "ro_decision oc \<noteq> None" by (auto simp: dials_def)
    have plan: "ctx_plan (pr_ctx pr) = Some \<lparr>plan_target = ro_address oc\<rparr>"
      using prepare_go_simps(5) [OF go(3)] addr by (simp add: with_plan_def)
    obtain res ca tr2 where t: "transport_RoundTrip dialContext (url_dial_address (rq_url req)) ne tr1
        (req\<lparr>rq_ctx := pr_ctx pr\<rparr>) = (res, ca, tr2)" by (metis prod_cases3)
    show thesis
      by (rule that [OF go(1) _ d go(3) plan addr t]) (use go(2) dec rt prep ok t in \<open>auto simp: policy_RoundTrip_def\<close>)
  qed (use ok in \<open>auto dest: prepare_failed_simps(5) prepare_fallback_simps(6)\<close>)
qed

text \<open>What a round trip leaves when nothing was sent.\<close>

lemma transport_RoundTrip_sent:
  "transport_RoundTrip dialAddr addr ne tr req = (res, ca, tr') \<Longrightarrow> ca \<noteq> NotSent"
  by (auto simp: transport_RoundTrip_def get_conn_def Let_def split: option.splits prod.splits sum.splits)

lemma policy_RoundTrip_not_sent:
  assumes mode: "lookup_mode (pol_Mode (mgr_policy (pt_mgr p)))"
    and rt: "policy_RoundTrip p env ne req = Some r" and not_sent: "rt_carrier r = NotSent"
  shows "\<exists>e. rt_result r = Inl e \<and> pt_base (rt_transport r) = pt_base p \<and>
    mgr_cache (pt_mgr (rt_transport r)) = mgr_cache (pt_mgr p) \<and>
    mgr_guard (pt_mgr (rt_transport r)) = mgr_guard (pt_mgr p) \<and>
    mgr_policy (pt_mgr (rt_transport r)) = mgr_policy (pt_mgr p) \<and>
    (request_port (rq_url req) = [] \<and> pt_mgr (rt_transport r) = pt_mgr p \<or>
     request_port (rq_url req) \<noteq> [] \<and> mgr_lookup (pt_mgr p) env = Inl e \<and>
     (\<exists>d ctx. mgr_lastDecision (pt_mgr (rt_transport r)) = Some d \<and> dec_Err d = Some e \<and>
        dec_FallbackUsed d = (mgr_addrs p \<noteq> [] \<and> fallbackEnabled (mgr_policy (pt_mgr p))) \<and>
        rt_hook r = (if mgr_hook (pt_mgr p) then Some (ctx, d) else None)))"
proof -
  obtain m2 tr1 pr where prep: "prepareRequest (pt_mgr p) env (pt_base p) (rq_ctx req) (rq_url req) = Some (m2, tr1, pr)"
    using rt by (auto simp: policy_RoundTrip_def run_iff)
  obtain e where e: "pr_err pr = Some e"
    using rt not_sent prep transport_RoundTrip_sent
    by (cases "pr_err pr") (auto simp: policy_RoundTrip_def split: prod.splits)
  have r: "r = \<lparr>rt_transport = \<lparr>pt_base = tr1, pt_mgr = m2\<rparr>, rt_hook = pr_hook pr,
      rt_carrier = NotSent, rt_result = Inl e\<rparr>"
    using rt prep e by (simp add: policy_RoundTrip_def)
  have port: "request_port (rq_url req) \<noteq> []" if "pr_err pr \<noteq> Some (ErrorString ''cannot determine port for URL'')"
    using that prep by (auto simp: prepareRequest_def Let_def)
  have port': "request_port (rq_url req) \<noteq> [] \<or> m2 = pt_mgr p"
    using prep by (auto simp: prepareRequest_def Let_def)
  from prep show ?thesis
  proof (cases rule: prepareRequest_cases)
    case no_port
    then show ?thesis using r by simp
  next
    case (failed m1 oc f)
    note c = mgr_resolve_contract(1-4,6) [OF mode failed(1)]
    note s = prepare_failed_simps [OF failed(2)]
    obtain d where d: "ro_decision oc = Some d" using c by auto
    have fe: "f = e" using s e by simp
    have "mgr_lastDecision m2 = Some (d\<lparr>dec_Err := Some e\<rparr>) \<and>
        pr_hook pr = (if mgr_hook (pt_mgr p) then Some (pr_ctx pr, d\<lparr>dec_Err := Some e\<rparr>) else None)"
      using failed(2) d fe c(2) by (auto simp: prepare_failed_def store_decision_def call_hook_def Let_def)
    with r s c d failed(3) fe port' show ?thesis by (auto simp: mgr_addrs_def)
  next
    case (fallback m1 oc d f)
    note c = mgr_resolve_contract [OF mode fallback(1)]
    note s = prepare_fallback_simps [OF fallback(4)]
    show ?thesis
      using r s c(1-4) c(8) c(9) [OF refl fallback(3)] fallback(2,5) e port' by (auto simp: mgr_addrs_def)
  next
    case (go m1 oc)
    with prepare_go_simps(2) [OF go(3)] e show ?thesis by simp
  qed
qed

text \<open>The pool keeps to the cached address: one round trip.\<close>

lemma conn_to_dial:
  assumes "dials oc addrs (url_Hostname u) (request_port u)" and "conn_for u c" and "cn_addr c = ro_address oc"
  shows "conn_to addrs c"
  using assms by (auto simp: dials_def conn_to_def request_port_conn)

text \<open>The connections in use while a round trip changes the cached addresses.\<close>

definition held_in :: "policyTransport \<Rightarrow> policyTransport \<Rightarrow> conn set" where
  "held_in p p' = (if mgr_addrs p' = mgr_addrs p then {} else set (tr_busy (pt_base p)))"

definition carried_within :: "conn set \<Rightarrow> policyTransport \<Rightarrow> round_trip \<Rightarrow> bool" where
  "carried_within H p r \<longleftrightarrow>
     (\<forall>c. carrier_conn (rt_carrier r) = Some c \<longrightarrow>
        conn_to (mgr_addrs (rt_transport r)) c \<or>
        rt_carrier r = Reused c \<and> c \<in> H \<and> mgr_cache (pt_mgr (rt_transport r)) = mgr_cache (pt_mgr p))"

lemma policy_RoundTrip_pool:
  assumes mode: "lookup_mode (pol_Mode (mgr_policy (pt_mgr p)))"
    and rt: "policy_RoundTrip p env ne req = Some r" and pool: "pool_within H p"
  shows "mgr_policy (pt_mgr (rt_transport r)) = mgr_policy (pt_mgr p) \<and>
    pool_within (H \<union> held_in p (rt_transport r)) (rt_transport r) \<and> carried_within H p r"
proof (cases "rt_carrier r = NotSent")
  case True
  with policy_RoundTrip_not_sent [OF mode rt True] pool show ?thesis
    by (auto simp: pool_within_def mgr_addrs_def carried_within_def)
next
  case False
  from mode rt False show ?thesis
  proof (rule policy_RoundTrip_sent)
    fix m1 oc m2 tr1 pr ca res tr2
    assume res: "mgr_resolve (pt_mgr p) env (url_Hostname (rq_url req)) (request_port (rq_url req)) = Some (m1, oc, None)"
      and d: "dials oc (ce_addrs (mgr_cache m1)) (url_Hostname (rq_url req)) (request_port (rq_url req))"
      and go: "prepare_go m1 (pt_base p) (rq_ctx req) (url_Hostname (rq_url req)) oc = (m2, tr1, pr)"
      and plan: "ctx_plan (pr_ctx pr) = Some \<lparr>plan_target = ro_address oc\<rparr>" "ro_address oc \<noteq> []"
      and t: "transport_RoundTrip dialContext (url_dial_address (rq_url req)) ne tr1 (req\<lparr>rq_ctx := pr_ctx pr\<rparr>) = (res, ca, tr2)"
      and r: "r = \<lparr>rt_transport = \<lparr>pt_base = tr2, pt_mgr = m2\<rparr>, rt_hook = pr_hook pr, rt_carrier = ca, rt_result = res\<rparr>"
    note c = mgr_resolve_contract [OF mode res]
    note g = prepare_go_simps [OF go]
    define A where "A = ce_addrs (mgr_cache m1)"
    have cache: "mgr_cache m2 = mgr_cache m1" and pol: "mgr_policy m2 = mgr_policy (pt_mgr p)"
      using g(1) c(1) by simp_all
    have A: "mgr_addrs (rt_transport r) = A" by (simp add: r mgr_addrs_def cache A_def)
    have busy1: "tr_busy tr1 = tr_busy (pt_base p)" using g(3) by simp
    have idle1: "set (tr_idle tr1) \<subseteq> set (tr_idle (pt_base p))" using g(3) by simp
    have same: "mgr_cache m1 = mgr_cache (pt_mgr p)" if "c' \<in> set (tr_idle tr1)" for c'
      using that g(3,4) c(8) by (auto split: if_splits)
    have sameA: "mgr_addrs p = A" if "c' \<in> set (tr_idle tr1)" for c'
      using same [OF that] by (simp add: mgr_addrs_def A_def)
    have idle: "conn_to A c' \<or> c' \<in> H" if "c' \<in> set (tr_idle tr1)" for c'
      using that idle1 sameA pool by (force simp: pool_within_def tr_conns_def)
    have busy: "conn_to A c' \<or> c' \<in> H \<union> held_in p (rt_transport r)" if "c' \<in> set (tr_busy tr1)" for c'
      using that busy1 pool A by (auto simp: pool_within_def tr_conns_def held_in_def)
    obtain cn where cn: "carrier_conn ca = Some cn" "conn_for (rq_url req) cn"
      and cs: "ca = Reused cn \<and> cn \<in> set (tr_idle tr1) \<or> (ca = Dialled cn \<or> ca = DialFailed cn) \<and> cn_addr cn = ro_address oc"
      using transport_RoundTrip_carrier [OF t] plan by auto
    have dialled: "conn_to A cn" if "ca = Dialled cn \<or> ca = DialFailed cn"
      using that cs conn_to_dial [OF d cn(2)] by (auto simp: A_def)
    have carried: "carried_within H p r"
      using cs cn(1) dialled idle same A by (auto simp: carried_within_def r cache)
    have "conn_to A c' \<or> c' \<in> H \<union> held_in p (rt_transport r)" if "c' \<in> tr_conns tr2" for c'
      using that transport_RoundTrip_pool(1,2) [OF t, of c'] idle busy dialled cs cn(1)
      by (auto simp: tr_conns_def)
    then have "pool_within (H \<union> held_in p (rt_transport r)) (rt_transport r)"
      using A by (simp add: pool_within_def r)
    with carried pol show ?thesis by (simp add: r)
  qed
qed

text \<open>A pool in which every connection is current stays so as long as the addresses stay.\<close>

lemma policy_RoundTrip_current:
  assumes "lookup_mode (pol_Mode (mgr_policy (pt_mgr p)))" "policy_RoundTrip p env ne req = Some r"
    and "pool_current p" "mgr_addrs (rt_transport r) = mgr_addrs p"
  shows "pool_current (rt_transport r) \<and>
    (\<forall>c. carrier_conn (rt_carrier r) = Some c \<longrightarrow> conn_to (mgr_addrs p) c)"
  using policy_RoundTrip_pool [OF assms(1-3)] assms(4) by (auto simp: held_in_def carried_within_def)

lemma observeResult_frame [simp]:
  "mgr_policy (observeResult m now st err) = mgr_policy m"
  "mgr_cache (observeResult m now st err) = mgr_cache m"
  "mgr_resolver (observeResult m now st err) = mgr_resolver m"
  "mgr_hook (observeResult m now st err) = mgr_hook m"
  by (simp_all add: observeResult_def registerGuardFailure_def resetGuard_def Let_def)

text \<open>
  The connections held over in a sequence of events: those that were in use during a request that
  changed the cached addresses.
\<close>

fun held_over :: "policyTransport \<Rightarrow> endpoint_event list \<Rightarrow> conn set" where
  "held_over p [] = {}"
| "held_over p (Observe now st err # evs) = held_over (p\<lparr>pt_mgr := observeResult (pt_mgr p) now st err\<rparr>) evs"
| "held_over p (BodyDone k keep # evs) = held_over (release k keep p) evs"
| "held_over p (Trip env ne req # evs) =
     (case policy_RoundTrip p env ne req of
        None \<Rightarrow> {}
      | Some r \<Rightarrow> held_in p (rt_transport r) \<union> held_over (rt_transport r) evs)"

lemma run_endpoint_pool:
  assumes "lookup_mode (pol_Mode (mgr_policy (pt_mgr p)))" and "pool_within H p"
    and "run_endpoint p evs = Some (p', rs)"
  shows "pool_within (H \<union> held_over p evs) p' \<and> mgr_policy (pt_mgr p') = mgr_policy (pt_mgr p)"
  using assms
proof (induction evs arbitrary: p H rs)
  case (Cons ev evs)
  show ?case
  proof (cases ev)
    case (Trip env ne req)
    with Cons.prems obtain r rs' where step: "policy_RoundTrip p env ne req = Some r"
      and rest: "run_endpoint (rt_transport r) evs = Some (p', rs')"
      by (auto simp: run_iff)
    note s = policy_RoundTrip_pool [OF Cons.prems(1) step Cons.prems(2)]
    from Cons.IH [OF _ conjunct1 [OF conjunct2 [OF s]] rest] s Cons.prems(1) Trip step
    show ?thesis by (simp add: Un_assoc)
  next
    case (Observe now st err)
    have "pool_within H (p\<lparr>pt_mgr := observeResult (pt_mgr p) now st err\<rparr>)"
      using Cons.prems(2) by (simp add: pool_within_def mgr_addrs_def)
    from Cons.IH [OF _ this] Cons.prems(1,3) Observe show ?thesis by simp
  next
    case (BodyDone k keep)
    from Cons.IH [OF _ release_within [OF Cons.prems(2)]] Cons.prems(1,3) BodyDone show ?thesis by simp
  qed
qed simp

lemma run_endpoint_total: "\<exists>p' rs. run_endpoint p evs = Some (p', rs)"
proof (induction evs arbitrary: p)
  case (Cons ev evs)
  show ?case
  proof (cases ev)
    case (Trip env ne req)
    obtain r where "policy_RoundTrip p env ne req = Some r"
      using policy_RoundTrip_total [of p env ne req] by auto
    with Cons [of "rt_transport r"] Trip show ?thesis by auto
  qed (use Cons in auto)
qed simp

lemma new_transport_simps [simp]:
  "pt_mgr (new_transport policy hook) = newDNSPolicyManager policy hook"
  "pt_base (new_transport policy hook) = empty_pool"
  "mgr_policy (newDNSPolicyManager policy hook) = policy"
  by (simp_all add: new_transport_def newDNSPolicyManager_def)

text \<open>A round trip whose connections were flushed first, or that refreshed, dials.\<close>

lemma policy_RoundTrip_fresh:
  assumes mode: "lookup_mode (pol_Mode (mgr_policy (pt_mgr p)))"
    and rt: "policy_RoundTrip p env ne req = Some r" and sent: "rt_carrier r \<noteq> NotSent"
    and due: "fst (consumeGuardTrigger (pt_mgr p)) \<or> mgr_forceLookup (pt_mgr p) \<and>
      pol_Mode (mgr_policy (pt_mgr p)) \<in> {DNSRefreshTTL, DNSRefreshCadence}"
  shows "(\<exists>c. (rt_carrier r = Dialled c \<or> rt_carrier r = DialFailed c) \<and> conn_to (mgr_addrs (rt_transport r)) c \<and>
      set (tr_idle (pt_base (rt_transport r))) \<subseteq> {c}) \<and>
    \<not> gr_triggered (mgr_guard (pt_mgr (rt_transport r))) \<and>
    (pol_Mode (mgr_policy (pt_mgr p)) \<in> {DNSRefreshTTL, DNSRefreshCadence} \<and> mgr_forceLookup (pt_mgr p) \<longrightarrow>
      (\<exists>lf. mgr_lookup (pt_mgr p) env = Inr lf \<and> mgr_addrs (rt_transport r) = lf_addrs lf))"
  using mode rt sent
proof (rule policy_RoundTrip_sent)
  fix m1 oc m2 tr1 pr ca res tr2
  assume res: "mgr_resolve (pt_mgr p) env (url_Hostname (rq_url req)) (request_port (rq_url req)) = Some (m1, oc, None)"
    and nofb: "ro_fallbackErr oc = None"
    and d: "dials oc (ce_addrs (mgr_cache m1)) (url_Hostname (rq_url req)) (request_port (rq_url req))"
    and go: "prepare_go m1 (pt_base p) (rq_ctx req) (url_Hostname (rq_url req)) oc = (m2, tr1, pr)"
    and plan: "ctx_plan (pr_ctx pr) = Some \<lparr>plan_target = ro_address oc\<rparr>" "ro_address oc \<noteq> []"
    and t: "transport_RoundTrip dialContext (url_dial_address (rq_url req)) ne tr1 (req\<lparr>rq_ctx := pr_ctx pr\<rparr>) = (res, ca, tr2)"
    and r: "r = \<lparr>rt_transport = \<lparr>pt_base = tr2, pt_mgr = m2\<rparr>, rt_hook = pr_hook pr, rt_carrier = ca, rt_result = res\<rparr>"
  note c = mgr_resolve_contract [OF mode res]
  note g = prepare_go_simps [OF go]
  have lk: "ro_forceNewConn oc \<and> (\<exists>lf. mgr_lookup (pt_mgr p) env = Inr lf \<and> ce_addrs (mgr_cache m1) = lf_addrs lf)"
    if "mgr_forceLookup (pt_mgr p)" "pol_Mode (mgr_policy (pt_mgr p)) \<in> {DNSRefreshTTL, DNSRefreshCadence}"
    using that res nofb
    by (auto simp: mgr_resolve_modes resolveTTL_eq resolveCadence_eq ttl_expired_def cadence_due_def
        resolve_defs mgr_lookup_nonempty split: sum.splits if_splits)
  have "fst (consumeGuardTrigger m1) = fst (consumeGuardTrigger (pt_mgr p))"
    using c(3) by (simp add: consumeGuardTrigger_def)
  then have "pr_forceNewConn pr" using due lk g(4) by auto
  then have empty: "tr_idle tr1 = []" using g(3) by (simp add: CloseIdleConnections_def)
  then obtain cn where cn: "carrier_conn ca = Some cn" "conn_for (rq_url req) cn" "cn_addr cn = ro_address oc"
      "ca = Dialled cn \<or> ca = DialFailed cn"
    using transport_RoundTrip_carrier [OF t] plan by auto
  have "c' = cn" if "c' \<in> set (tr_idle tr2)" for c'
    using transport_RoundTrip_pool(1) [OF t that] empty cn(4) by auto
  moreover have "\<not> gr_triggered (mgr_guard m2)" using g(1) by (simp add: consumeGuardTrigger_def)
  moreover have "mgr_addrs (rt_transport r) = ce_addrs (mgr_cache m1)" using r g(1) by (simp add: mgr_addrs_def)
  ultimately show ?thesis using cn conn_to_dial [OF d cn(2,3)] lk by (auto simp: r)
qed

text \<open>A trip of a guard rail that forces lookups leaves the force flag set.\<close>

lemma observe_all_force:
  assumes "grp_Action (gr_policy (mgr_guard m)) = DNSGuardRailActionForceLookup"
    and "gr_triggered (mgr_guard m) \<longrightarrow> mgr_forceLookup m"
  shows "gr_triggered (mgr_guard (observe_all m obs)) \<longrightarrow> mgr_forceLookup (observe_all m obs)"
  using assms
proof (induction m obs rule: observe_all.induct)
  case (2 m now st err obs)
  have "gr_triggered (mgr_guard (observeResult m now st err)) \<longrightarrow> mgr_forceLookup (observeResult m now st err)"
    using "2.prems" by (auto simp: observeResult_def registerGuardFailure_def resetGuard_def Let_def)
  with 2 show ?case by simp
qed simp

lemma observe_all_frame [simp]:
  "mgr_policy (observe_all m obs) = mgr_policy m"
  "mgr_cache (observe_all m obs) = mgr_cache m"
  "mgr_resolver (observe_all m obs) = mgr_resolver m"
  by (induction m obs rule: observe_all.induct) simp_all

lemma mgr_lookup_cong: "mgr_resolver m = mgr_resolver m' \<Longrightarrow> mgr_lookup m env = mgr_lookup m' env"
  by (simp add: mgr_lookup_def)

section \<open>Properties\<close>

text \<open>
  C4. Only a connection in use outlives a change of the addresses: after any sequence of requests,
  observed results and handed-back connections of an endpoint in a lookup mode, the connection of the
  next request (reused, dialled or attempted) goes to the first address cached at that moment,
  unless it is a reused one that had been in use during an earlier request that changed the cached
  addresses; and so does every connection of the pool. Dialled connections are never stale, and a
  request that changes the addresses never reuses one.
\<close>

theorem pool_never_stale:
  assumes "lookup_mode (pol_Mode policy)"
    and "run_endpoint (new_transport policy hook) evs = Some (p, rs)"
    and "policy_RoundTrip p env ne req = Some r"
  shows "(\<forall>c. carrier_conn (rt_carrier r) = Some c \<longrightarrow>
      conn_to (mgr_addrs (rt_transport r)) c \<or>
      rt_carrier r = Reused c \<and> c \<in> held_over (new_transport policy hook) evs \<and>
      mgr_addrs (rt_transport r) = mgr_addrs p) \<and>
    (\<forall>c \<in> tr_conns (pt_base p). conn_to (mgr_addrs p) c \<or> c \<in> held_over (new_transport policy hook) evs)"
proof -
  have "pool_current (new_transport policy hook)" by (simp add: pool_within_def)
  from run_endpoint_pool [OF _ this assms(2)] assms(1)
  have p: "pool_within (held_over (new_transport policy hook) evs) p"
    "lookup_mode (pol_Mode (mgr_policy (pt_mgr p)))" by simp_all
  from policy_RoundTrip_pool [OF p(2) assms(3) p(1)] p(1) show ?thesis
    by (auto simp: carried_within_def pool_within_def mgr_addrs_def)
qed

definition example_url :: url where
  "example_url = \<lparr>url_Scheme = ''http'', url_Host = ''h'', url_Path = ''/''\<rparr>"

definition example_request :: http_request where
  "example_request = \<lparr>rq_method = ''GET'', rq_url = example_url, rq_header = [], rq_body = [],
     rq_ctx = background_ctx\<rparr>"

definition example_response :: http_response where
  "example_response = \<lparr>rs_StatusCode = 200, rs_Header = [], rs_ContentLength = 0, rs_Body = None,
     rs_Request = None\<rparr>"

definition example_net :: net_env where
  "example_net = \<lparr>ne_dial = (\<lambda>_. None), ne_exchange = Inr example_response,
     ne_fate = ConnIdle, ne_drained = True\<rparr>"

theorem pool_never_stale_witness:
  "\<exists>p rs r c. run_endpoint (new_transport (zero_policy\<lparr>pol_Mode := DNSRefreshTTL\<rparr>) True)
      [Trip (example_env 5 (Inr ([AddrV4 192 0 2 1], 3))) example_net example_request] = Some (p, rs) \<and>
    policy_RoundTrip p (example_env 9 (Inr ([AddrV4 192 0 2 7], 3))) example_net example_request = Some r \<and>
    (rt_carrier r = NotSent \<or> carrier_conn (rt_carrier r) = Some c \<and> conn_to (mgr_addrs (rt_transport r)) c)"
proof -
  let ?p = "new_transport (zero_policy\<lparr>pol_Mode := DNSRefreshTTL\<rparr>) True"
  let ?evs = "[Trip (example_env 5 (Inr ([AddrV4 192 0 2 1], 3))) example_net example_request]"
  have mode: "lookup_mode (pol_Mode (zero_policy\<lparr>pol_Mode := DNSRefreshTTL\<rparr>))" by (simp add: lookup_mode_def)
  obtain p rs where run: "run_endpoint ?p ?evs = Some (p, rs)"
    using run_endpoint_total [of ?p ?evs] by blast
  obtain r where r: "policy_RoundTrip p (example_env 9 (Inr ([AddrV4 192 0 2 7], 3))) example_net example_request = Some r"
    using policy_RoundTrip_total by blast
  have "held_over ?p ?evs = {}" by (simp add: held_in_def split: option.split)
  with pool_never_stale [OF mode run r] run r show ?thesis
    by (cases "rt_carrier r") auto
qed

text \<open>
  C23. A request that is not sent is reported: in a lookup mode it either has a URL without a port,
  or its result is exactly the error of the lookup; then the manager keeps a decision with that
  error, the hook is given the same decision, and \<^verbatim>\<open>FallbackUsed\<close> is set exactly if an address
  was cached and the policy allows the fallback. The pool, the cache and a pending guard-rail
  trigger stay as they are.
\<close>

theorem not_sent_reported:
  assumes "lookup_mode (pol_Mode (mgr_policy (pt_mgr p)))"
    and "policy_RoundTrip p env ne req = Some r" and "rt_carrier r = NotSent"
  shows "\<exists>e. rt_result r = Inl e \<and> pt_base (rt_transport r) = pt_base p \<and>
    mgr_cache (pt_mgr (rt_transport r)) = mgr_cache (pt_mgr p) \<and>
    mgr_guard (pt_mgr (rt_transport r)) = mgr_guard (pt_mgr p) \<and>
    (request_port (rq_url req) = [] \<and> pt_mgr (rt_transport r) = pt_mgr p \<or>
     request_port (rq_url req) \<noteq> [] \<and> mgr_lookup (pt_mgr p) env = Inl e \<and>
     (\<exists>d ctx. mgr_lastDecision (pt_mgr (rt_transport r)) = Some d \<and> dec_Err d = Some e \<and>
        dec_FallbackUsed d = (mgr_addrs p \<noteq> [] \<and> fallbackEnabled (mgr_policy (pt_mgr p))) \<and>
        rt_hook r = (if mgr_hook (pt_mgr p) then Some (ctx, d) else None)))"
  using policy_RoundTrip_not_sent [OF assms] by blast

lemma example_url_simps [simp]:
  "url_Scheme example_url = ''http''" "url_Host example_url = ''h''"
  "url_Hostname example_url = ''h''" "request_port example_url = ''80''"
  by code_simp+

lemma example_conn_port [simp]: "conn_port \<lparr>cn_scheme = ''http'', cn_host = ''h'', cn_addr = a\<rparr> = ''80''"
  using request_port_conn [of example_url "\<lparr>cn_scheme = ''http'', cn_host = ''h'', cn_addr = a\<rparr>"]
  by (simp add: conn_for_def)

definition example_transport :: policyTransport where
  "example_transport =
     \<lparr>pt_base = \<lparr>tr_idle = [\<lparr>cn_scheme = ''http'', cn_host = ''h'', cn_addr = JoinHostPort (string4 192 0 2 1) ''80''\<rparr>],
        tr_busy = []\<rparr>,
      pt_mgr = (example_manager DNSRefreshTTL)\<lparr>mgr_cache := \<lparr>ce_addrs = [AddrV4 192 0 2 1],
                 ce_expiresAt = Instant 8, ce_lastLookup = Instant 5\<rparr>\<rparr>\<rparr>"

lemma example_transport_mode: "lookup_mode (pol_Mode (mgr_policy (pt_mgr example_transport)))"
  by (simp add: example_transport_def lookup_mode_def)

lemma example_policy_fields [simp]:
  "pol_DisableFallback zero_policy = False" "pol_GuardRail zero_policy = zero_guard_policy"
  by (simp_all add: zero_policy_def)

text \<open>A request at instant 9, when the entry has expired, whose lookup fails.\<close>

lemma example_fallback:
  "\<exists>r. policy_RoundTrip example_transport (example_env 9 (Inl (ErrorString ''down''))) example_net
      example_request = Some r \<and> rt_carrier r = NotSent \<and> rt_result r = Inl (ErrorString ''down'')"
  by (simp add: policy_RoundTrip_def prepareRequest_def example_request_def mgr_resolve_def
      example_transport_def resolveTTL_eq ttl_expired_def time_IsZero_nanos time_After_def less_gotime_def
      lookup_closure_def resolve_defs fallbackEnabled_def prepare_fallback_def Let_def)

theorem not_sent_reported_witness:
  "\<exists>r d. policy_RoundTrip example_transport (example_env 9 (Inl (ErrorString ''down''))) example_net
      example_request = Some r \<and> mgr_lastDecision (pt_mgr (rt_transport r)) = Some d \<and>
    dec_FallbackUsed d"
proof -
  obtain r where r: "policy_RoundTrip example_transport (example_env 9 (Inl (ErrorString ''down''))) example_net
      example_request = Some r" "rt_carrier r = NotSent"
    using example_fallback by blast
  have "mgr_addrs example_transport \<noteq> []" "fallbackEnabled (mgr_policy (pt_mgr example_transport))"
    "request_port (rq_url example_request) \<noteq> []"
    by (simp_all add: example_transport_def mgr_addrs_def fallbackEnabled_def example_request_def)
  with not_sent_reported [OF example_transport_mode r] r(1) show ?thesis by auto
qed

lemmas example_eval = policy_RoundTrip_def prepareRequest_def example_request_def mgr_resolve_def
  example_transport_def resolveTTL_eq ttl_expired_def time_IsZero_nanos time_After_def less_gotime_def
  resolve_defs prepare_go_def consumeGuardTrigger_def example_manager_def newDNSPolicyManager_def
  place_conn_def empty_pool_def transport_RoundTrip_def get_conn_def conn_for_def example_net_def with_plan_def with_decision_def

lemma policy_RoundTrip_ttl_force:
  assumes mode: "pol_Mode (mgr_policy (pt_mgr p)) = DNSRefreshTTL"
    and rt: "policy_RoundTrip p env ne req = Some r" and sent: "rt_carrier r \<noteq> NotSent"
  shows "\<not> mgr_forceLookup (pt_mgr (rt_transport r)) \<and> mgr_addrs (rt_transport r) \<noteq> [] \<and>
    \<not> gr_triggered (mgr_guard (pt_mgr (rt_transport r))) \<and>
    (\<exists>cs. tr_busy (pt_base (rt_transport r)) = tr_busy (pt_base p) @ cs)"
proof -
  have lm: "lookup_mode (pol_Mode (mgr_policy (pt_mgr p)))" using mode by (simp add: lookup_mode_def)
  from lm rt sent show ?thesis
  proof (rule policy_RoundTrip_sent)
    fix m1 oc m2 tr1 pr ca res tr2
    assume res: "mgr_resolve (pt_mgr p) env (url_Hostname (rq_url req)) (request_port (rq_url req)) = Some (m1, oc, None)"
      and d: "dials oc (ce_addrs (mgr_cache m1)) (url_Hostname (rq_url req)) (request_port (rq_url req))"
      and go: "prepare_go m1 (pt_base p) (rq_ctx req) (url_Hostname (rq_url req)) oc = (m2, tr1, pr)"
      and t: "transport_RoundTrip dialContext (url_dial_address (rq_url req)) ne tr1 (req\<lparr>rq_ctx := pr_ctx pr\<rparr>) = (res, ca, tr2)"
      and r: "r = \<lparr>rt_transport = \<lparr>pt_base = tr2, pt_mgr = m2\<rparr>, rt_hook = pr_hook pr, rt_carrier = ca, rt_result = res\<rparr>"
    note g = prepare_go_simps [OF go]
    have "\<not> mgr_forceLookup m1" using res mode by (auto simp: mgr_resolve_modes resolveTTL_eq split: sum.splits if_splits)
    moreover have "tr_busy tr1 = tr_busy (pt_base p)" using g(3) by simp
    moreover have "ce_addrs (mgr_cache m1) \<noteq> []" using d by (simp add: dials_def)
    moreover have "\<not> gr_triggered (mgr_guard m2)" using g(1) by (simp add: consumeGuardTrigger_def)
    ultimately show ?thesis using g(1) transport_RoundTrip_pool(3) [OF t] by (auto simp: r mgr_addrs_def)
  qed
qed

text \<open>A request with a valid cache and nothing pending uses the first idle connection of its URL.\<close>

lemma policy_RoundTrip_reuses:
  assumes mode: "pol_Mode (mgr_policy (pt_mgr p)) = DNSRefreshTTL"
    and valid: "\<not> mgr_forceLookup (pt_mgr p)" "mgr_addrs p \<noteq> []" "\<not> gr_triggered (mgr_guard (pt_mgr p))"
      "le_now env \<le> ce_expiresAt (mgr_cache (pt_mgr p))"
    and c: "find (conn_for (rq_url req)) (tr_idle (pt_base p)) = Some c" and port: "request_port (rq_url req) \<noteq> []"
  shows "\<exists>r. policy_RoundTrip p env ne req = Some r \<and> rt_carrier r = Reused c \<and> mgr_addrs (rt_transport r) = mgr_addrs p"
proof -
  let ?m = "pt_mgr p" and ?h = "url_Hostname (rq_url req)" and ?po = "request_port (rq_url req)"
  have ne: "\<not> ttl_expired ?m (le_now env)"
    using valid by (simp add: ttl_expired_def mgr_addrs_def time_After_def not_less)
  have clear: "clear_force ?m = ?m" using valid(1) by (simp add: clear_force_def)
  obtain oc where res: "mgr_resolve ?m env ?h ?po = Some (?m, oc, None)" "\<not> ro_forceNewConn oc" "ro_fallbackErr oc = None"
    using mode ne valid(2) by (simp add: mgr_resolve_modes resolveTTL_eq resolve_defs clear mgr_addrs_def)
  obtain m2 tr1 pr where go: "prepare_go ?m (pt_base p) (rq_ctx req) ?h oc = (m2, tr1, pr)" by (metis prod_cases3)
  note g = prepare_go_simps [OF go]
  have quiet: "consumeGuardTrigger ?m = (False, ?m)" using valid(3) by (simp add: consumeGuardTrigger_def)
  have prep: "prepareRequest ?m env (pt_base p) (rq_ctx req) (rq_url req) = Some (m2, tr1, pr)"
    using res port go by (simp add: prepareRequest_def Let_def split: option.split)
  have tr1: "tr1 = pt_base p" "m2 = ?m" using g(1,3,4) quiet res(2) by simp_all
  obtain res2 ca tr2 where t: "transport_RoundTrip dialContext (url_dial_address (rq_url req)) ne tr1
      (req\<lparr>rq_ctx := pr_ctx pr\<rparr>) = (res2, ca, tr2)" by (metis prod_cases3)
  then have "ca = Reused c"
    using c tr1 by (auto simp: transport_RoundTrip_def get_conn_def split: sum.splits)
  then show ?thesis using prep t g(2) tr1 by (simp add: policy_RoundTrip_def mgr_addrs_def)
qed

text \<open>
  C24. A connection in use outlives a refresh: the idle connections are closed when a request changes
  the addresses, but one whose body nobody has read or closed is not. When its body is done with
  afterwards, it goes back to the pool, and the next request to its host, although the addresses are
  cached and valid, travels over it, to an address that is no longer the cached one.
\<close>

theorem held_over_connection_reused:
  assumes "pol_Mode (mgr_policy (pt_mgr p)) = DNSRefreshTTL"
    and "policy_RoundTrip p env ne req = Some r" and "rt_carrier r \<noteq> NotSent"
    and "tr_busy (pt_base p) = c # cs" and "\<not> conn_to (mgr_addrs (rt_transport r)) c"
    and "conn_for (rq_url req2) c" and "request_port (rq_url req2) \<noteq> []"
    and "le_now env2 \<le> ce_expiresAt (mgr_cache (pt_mgr (rt_transport r)))"
  shows "\<exists>r2. policy_RoundTrip (release 0 True (rt_transport r)) env2 ne2 req2 = Some r2 \<and>
    rt_carrier r2 = Reused c \<and> \<not> conn_to (mgr_addrs (rt_transport r2)) c"
proof -
  let ?p = "release 0 True (rt_transport r)"
  note f = policy_RoundTrip_ttl_force [OF assms(1-3)]
  have "lookup_mode (pol_Mode (mgr_policy (pt_mgr p)))" using assms(1) by (simp add: lookup_mode_def)
  then have "pool_within (tr_conns (pt_base p)) p" by (simp add: pool_within_def)
  then have "pol_Mode (mgr_policy (pt_mgr ?p)) = DNSRefreshTTL"
    using policy_RoundTrip_pool [OF _ assms(2)] assms(1) \<open>lookup_mode _\<close> by auto
  moreover have "find (conn_for (rq_url req2)) (tr_idle (pt_base ?p)) = Some c"
    using f assms(4,6) by (auto simp: body_done_def place_conn_def)
  ultimately show ?thesis
    using policy_RoundTrip_reuses [of ?p env2 req2 c ne2] f assms(5,7,8) by auto
qed

definition example_in_use :: policyTransport where
  "example_in_use = example_transport\<lparr>pt_base := \<lparr>tr_idle = [],
     tr_busy = [\<lparr>cn_scheme = ''http'', cn_host = ''h'', cn_addr = JoinHostPort (string4 192 0 2 1) ''80''\<rparr>]\<rparr>\<rparr>"

lemma JoinHostPort_string4_inject:
  assumes "JoinHostPort (string4 a b c d) p = JoinHostPort (string4 a' b' c' d') p"
  shows "AddrV4 a b c d = AddrV4 a' b' c' d'"
proof -
  have "string4 a b c d = string4 a' b' c' d'"
    using assms JoinHostPort_IPv4 [of a b c d p] JoinHostPort_IPv4 [of a' b' c' d' p] by simp
  then show ?thesis using parse_addr_string4 [of a b c d] parse_addr_string4 [of a' b' c' d'] by simp
qed

text \<open>The entry has expired at instant 9; the lookup gives another address, valid until 12; the next request is at 10.\<close>

theorem held_over_connection_reused_witness:
  "\<exists>r r2. policy_RoundTrip example_in_use (example_env 9 (Inr ([AddrV4 192 0 2 7], 3))) example_net example_request = Some r \<and>
     mgr_addrs (rt_transport r) = [AddrV4 192 0 2 7] \<and>
     policy_RoundTrip (release 0 True (rt_transport r)) (example_env 10 (Inl (ErrorString ''down''))) example_net
       example_request = Some r2 \<and>
     rt_carrier r2 = Reused \<lparr>cn_scheme = ''http'', cn_host = ''h'', cn_addr = JoinHostPort (string4 192 0 2 1) ''80''\<rparr>"
proof -
  let ?c = "\<lparr>cn_scheme = ''http'', cn_host = ''h'', cn_addr = JoinHostPort (string4 192 0 2 1) ''80''\<rparr>"
  let ?env = "example_env 9 (Inr ([AddrV4 192 0 2 7], 3))"
  have r: "\<exists>r. policy_RoundTrip example_in_use ?env example_net example_request = Some r \<and> rt_carrier r \<noteq> NotSent \<and>
      mgr_addrs (rt_transport r) = [AddrV4 192 0 2 7] \<and> ce_expiresAt (mgr_cache (pt_mgr (rt_transport r))) = Instant 12"
    by (simp add: example_eval example_in_use_def lookup_closure_def ttl_entry_def normalizeTTL_def zero_policy_def
        time_Add_def mgr_addrs_def split: prod.split sum.split)
  then obtain r where r: "policy_RoundTrip example_in_use ?env example_net example_request = Some r"
    "rt_carrier r \<noteq> NotSent" "mgr_addrs (rt_transport r) = [AddrV4 192 0 2 7]"
    "ce_expiresAt (mgr_cache (pt_mgr (rt_transport r))) = Instant 12" by blast
  have h: "pol_Mode (mgr_policy (pt_mgr example_in_use)) = DNSRefreshTTL" "tr_busy (pt_base example_in_use) = [?c]"
    "conn_for (rq_url example_request) ?c" "request_port (rq_url example_request) \<noteq> []"
    by (simp_all add: example_in_use_def example_transport_def example_request_def conn_for_def)
  have old: "\<not> conn_to (mgr_addrs (rt_transport r)) ?c"
    using JoinHostPort_string4_inject [of 192 0 2 1 "''80''" 192 0 2 7] by (auto simp: r(3) conn_to_def)
  have t: "le_now (example_env 10 (Inl (ErrorString ''down''))) \<le> ce_expiresAt (mgr_cache (pt_mgr (rt_transport r)))"
    by (simp add: r(4) less_eq_gotime_def)
  from held_over_connection_reused [OF h(1) r(1,2) h(2) old h(3,4) t, of example_net] r(1,3) show ?thesis by blast
qed

text \<open>
  C22. The decision tells the truth: a request that is sent in a lookup mode carries a decision
  whose host is the one of its URL and whose addresses are the cached ones. If the request dials, it
  dials the first of these addresses; otherwise it goes over a connection to the same scheme and host
  that was idle in the pool, which happens only if neither the cache has changed nor a trigger of the
  guard rail was pending. The hook and the response see this decision, and it names the guard rail if
  a trigger was pending, which is now consumed.
\<close>

theorem sent_decision_true:
  assumes "lookup_mode (pol_Mode (mgr_policy (pt_mgr p)))"
    and "policy_RoundTrip p env ne req = Some r" and "rt_carrier r \<noteq> NotSent"
  shows "\<exists>d c ctx. ctx_decision ctx = Some d \<and>
    rt_hook r = (if mgr_hook (pt_mgr p) then Some (ctx, d) else None) \<and>
    (\<forall>rs. rt_result r = Inr rs \<longrightarrow> rs_Request rs = Some (req\<lparr>rq_ctx := ctx\<rparr>)) \<and>
    carrier_conn (rt_carrier r) = Some c \<and> conn_for (rq_url req) c \<and>
    ((rt_carrier r = Dialled c \<or> rt_carrier r = DialFailed c) \<and> conn_to (dec_ResolvedAddrs d) c \<or>
     rt_carrier r = Reused c \<and> c \<in> set (tr_idle (pt_base p)) \<and>
     mgr_cache (pt_mgr (rt_transport r)) = mgr_cache (pt_mgr p) \<and> \<not> fst (consumeGuardTrigger (pt_mgr p))) \<and>
    dec_ResolvedAddrs d = mgr_addrs (rt_transport r) \<and> dec_Host d = url_Hostname (rq_url req) \<and>
    (fst (consumeGuardTrigger (pt_mgr p)) \<longrightarrow> dec_GuardRailTriggered d) \<and>
    \<not> gr_triggered (mgr_guard (pt_mgr (rt_transport r)))"
  using assms
proof (rule policy_RoundTrip_sent)
  fix m1 oc m2 tr1 pr ca res tr2
  assume res: "mgr_resolve (pt_mgr p) env (url_Hostname (rq_url req)) (request_port (rq_url req)) = Some (m1, oc, None)"
    and d: "dials oc (ce_addrs (mgr_cache m1)) (url_Hostname (rq_url req)) (request_port (rq_url req))"
    and go: "prepare_go m1 (pt_base p) (rq_ctx req) (url_Hostname (rq_url req)) oc = (m2, tr1, pr)"
    and plan: "ctx_plan (pr_ctx pr) = Some \<lparr>plan_target = ro_address oc\<rparr>" "ro_address oc \<noteq> []"
    and t: "transport_RoundTrip dialContext (url_dial_address (rq_url req)) ne tr1 (req\<lparr>rq_ctx := pr_ctx pr\<rparr>) = (res, ca, tr2)"
    and r: "r = \<lparr>rt_transport = \<lparr>pt_base = tr2, pt_mgr = m2\<rparr>, rt_hook = pr_hook pr, rt_carrier = ca, rt_result = res\<rparr>"
  note c = mgr_resolve_contract(2,3,8) [OF assms(1) res]
  note g = prepare_go_simps [OF go]
  obtain d0 where d0: "ro_decision oc = Some d0" "dec_ResolvedAddrs d0 = ce_addrs (mgr_cache m1)"
    "dec_Host d0 = url_Hostname (rq_url req)"
    using d by (auto simp: dials_def)
  let ?t = "fst (consumeGuardTrigger m1)"
  let ?d = "if ?t then d0\<lparr>dec_GuardRailTriggered := True\<rparr> else d0"
  have dec: "go_decision m1 (url_Hostname (rq_url req)) oc = Some ?d" using d0 by (simp add: go_decision_def)
  have t_eq: "?t = fst (consumeGuardTrigger (pt_mgr p))" using c(2) by (simp add: consumeGuardTrigger_def)
  have untrig: "\<not> gr_triggered (mgr_guard m2)" using g(1) by (simp add: consumeGuardTrigger_def)
  obtain cn where cn: "carrier_conn ca = Some cn" "conn_for (rq_url req) cn"
    "ca = Reused cn \<and> cn \<in> set (tr_idle tr1) \<or> (ca = Dialled cn \<or> ca = DialFailed cn) \<and> cn_addr cn = ro_address oc"
    using transport_RoundTrip_carrier [OF t] plan by auto
  have dialled: "conn_to (ce_addrs (mgr_cache m1)) cn" if "ca = Dialled cn \<or> ca = DialFailed cn"
    using that cn conn_to_dial [OF d cn(2)] by auto
  have reused: "cn \<in> set (tr_idle (pt_base p)) \<and> mgr_cache m2 = mgr_cache (pt_mgr p) \<and> \<not> pr_forceNewConn pr"
    if "ca = Reused cn"
    using that cn(3) g(1,3,4) c(3) by (auto split: if_splits)
  have addrs: "mgr_addrs (rt_transport r) = ce_addrs (mgr_cache m1)" using r g(1) by (simp add: mgr_addrs_def)
  have rq: "\<forall>rs. res = Inr rs \<longrightarrow> rs_Request rs = Some (req\<lparr>rq_ctx := pr_ctx pr\<rparr>)"
    using t transport_RoundTrip_ok by blast
  show ?thesis
    by (rule exI [of _ ?d], rule exI [of _ cn], rule exI [of _ "pr_ctx pr"])
      (use g(4,6,7) dec t_eq untrig cn dialled reused addrs rq d0 c(1) in \<open>auto simp: r\<close>)
qed

lemma example_reuse:
  "\<exists>r. policy_RoundTrip example_transport (example_env 7 (Inl (ErrorString ''down''))) example_net
      example_request = Some r \<and> rt_carrier r \<noteq> NotSent"
  by (simp add: example_eval split: prod.split sum.split)

lemma example_pool: "pool_current example_transport"
  by (simp add: pool_within_def tr_conns_def example_transport_def conn_to_def mgr_addrs_def)

theorem sent_decision_true_witness:
  "\<exists>r c. policy_RoundTrip example_transport (example_env 7 (Inl (ErrorString ''down''))) example_net
      example_request = Some r \<and> carrier_conn (rt_carrier r) = Some c"
proof -
  obtain r where r: "policy_RoundTrip example_transport (example_env 7 (Inl (ErrorString ''down''))) example_net
      example_request = Some r" "rt_carrier r \<noteq> NotSent"
    using example_reuse by blast
  from sent_decision_true [OF example_transport_mode r] r show ?thesis by blast
qed

text \<open>
  C6. The guard rail from end to end, whatever is cached and pooled: if the results observed by a
  manager without a pending trigger trip a guard rail that forces lookups, then the next request
  does not use the cached addresses, however fresh they are. It either fails with the error of a
  lookup made for it, without being sent, or it is sent over a connection dialled for it to the first
  address that this lookup returned, and no older connection is left idle in the pool.
\<close>

theorem guard_end_to_end:
  assumes "pol_Mode (mgr_policy (pt_mgr p)) \<in> {DNSRefreshTTL, DNSRefreshCadence}"
    and "grp_Action (gr_policy (mgr_guard (pt_mgr p))) = DNSGuardRailActionForceLookup"
    and "\<not> gr_triggered (mgr_guard (pt_mgr p))"
    and "m = observe_all (pt_mgr p) obs" and "gr_triggered (mgr_guard m)"
    and "request_port (rq_url req) \<noteq> []"
    and "policy_RoundTrip (p\<lparr>pt_mgr := m\<rparr>) env ne req = Some r"
  shows "(\<exists>e. rt_carrier r = NotSent \<and> rt_result r = Inl e \<and> mgr_lookup (pt_mgr p) env = Inl e) \<or>
    (\<exists>lf c. mgr_lookup (pt_mgr p) env = Inr lf \<and> (rt_carrier r = Dialled c \<or> rt_carrier r = DialFailed c) \<and>
      conn_to (lf_addrs lf) c \<and> set (tr_idle (pt_base (rt_transport r))) \<subseteq> {c} \<and>
      mgr_addrs (rt_transport r) = lf_addrs lf \<and> \<not> gr_triggered (mgr_guard (pt_mgr (rt_transport r))))"
proof -
  let ?p = "p\<lparr>pt_mgr := m\<rparr>"
  have pol: "mgr_policy (pt_mgr ?p) = mgr_policy (pt_mgr p)" and lk: "mgr_lookup (pt_mgr ?p) env = mgr_lookup (pt_mgr p) env"
    using assms(4) by (auto intro: mgr_lookup_cong)
  have mode: "lookup_mode (pol_Mode (mgr_policy (pt_mgr ?p)))"
    using assms(1) pol by (auto simp: lookup_mode_def)
  have force: "mgr_forceLookup (pt_mgr ?p)" using observe_all_force [OF assms(2)] assms(3-5) by auto
  show ?thesis
  proof (cases "rt_carrier r = NotSent")
    case True
    with policy_RoundTrip_not_sent [OF mode assms(7) True] assms(6) lk show ?thesis by auto
  next
    case False
    have "fst (consumeGuardTrigger (pt_mgr ?p)) \<or> mgr_forceLookup (pt_mgr ?p) \<and>
        pol_Mode (mgr_policy (pt_mgr ?p)) \<in> {DNSRefreshTTL, DNSRefreshCadence}"
      using force assms(1) pol by simp
    from policy_RoundTrip_fresh [OF mode assms(7) False this] force assms(1) pol lk show ?thesis by auto
  qed
qed

definition example_guarded :: policyTransport where
  "example_guarded = example_transport\<lparr>pt_mgr := (pt_mgr example_transport)\<lparr>mgr_guard :=
     \<lparr>gr_policy = \<lparr>grp_ConsecutiveErrorThreshold = 2, grp_Window = 0, grp_Action = DNSGuardRailActionForceLookup\<rparr>,
      gr_count = 0, gr_firstFailure = zero_time, gr_lastFailure = zero_time, gr_triggered = False\<rparr>\<rparr>\<rparr>"

text \<open>With an address cached that is valid until instant 8, a request at instant 7 dials the new address.\<close>

theorem guard_end_to_end_witness:
  "let m = observe_all (pt_mgr example_guarded) [(Instant 6, 503, None), (Instant 6, 500, None)]
   in \<exists>r. policy_RoundTrip (example_guarded\<lparr>pt_mgr := m\<rparr>) (example_env 7 (Inr ([AddrV4 192 0 2 7], 3)))
         example_net example_request = Some r \<and>
       ce_expiresAt (mgr_cache m) = Instant 8 \<and> ce_addrs (mgr_cache m) = [AddrV4 192 0 2 1] \<and>
       (\<exists>c. (rt_carrier r = Dialled c \<or> rt_carrier r = DialFailed c) \<and> conn_to [AddrV4 192 0 2 7] c)"
proof -
  define m where "m = observe_all (pt_mgr example_guarded) [(Instant 6, 503, None), (Instant 6, 500, None)]"
  let ?env = "example_env 7 (Inr ([AddrV4 192 0 2 7], 3))"
  obtain r where r: "policy_RoundTrip (example_guarded\<lparr>pt_mgr := m\<rparr>) ?env example_net example_request = Some r"
    using policy_RoundTrip_total by blast
  have h: "pol_Mode (mgr_policy (pt_mgr example_guarded)) \<in> {DNSRefreshTTL, DNSRefreshCadence}"
    "grp_Action (gr_policy (mgr_guard (pt_mgr example_guarded))) = DNSGuardRailActionForceLookup"
    "\<not> gr_triggered (mgr_guard (pt_mgr example_guarded))"
    by (simp_all add: example_guarded_def example_transport_def)
  have trig: "gr_triggered (mgr_guard m)"
    by (simp add: m_def observeResult_def registerGuardFailure_def Let_def example_guarded_def example_transport_def
        guard_window_def guard_Enabled_def serverErrorThreshold_def time_IsZero_nanos wrap64_def)
  have port: "request_port (rq_url example_request) \<noteq> []" by (simp add: example_request_def)
  have lk: "mgr_lookup (pt_mgr example_guarded) ?env = Inr \<lparr>lf_addrs = [AddrV4 192 0 2 7], lf_ttl = 3, lf_lookupDur = 1\<rparr>"
    using mgr_lookup_cong [of "pt_mgr example_guarded" "example_manager DNSRefreshTTL"]
    by (simp add: example_guarded_def example_transport_def lookup_closure_def)
  have "ce_expiresAt (mgr_cache m) = Instant 8 \<and> ce_addrs (mgr_cache m) = [AddrV4 192 0 2 1]"
    by (simp add: m_def example_guarded_def example_transport_def)
  with guard_end_to_end [OF h m_def trig port r] lk r show ?thesis
    unfolding m_def [symmetric] Let_def by auto
qed

text \<open>
  The flush action: in any lookup mode, a pending trigger whose action is not \<^verbatim>\<open>None\<close> makes
  the next request that is sent dial a connection of its own, whatever is idle in the pool, and
  is consumed by it.
\<close>

theorem guard_flush_dials:
  assumes "lookup_mode (pol_Mode (mgr_policy (pt_mgr p)))"
    and "gr_triggered (mgr_guard (pt_mgr p))"
    and "grp_Action (gr_policy (mgr_guard (pt_mgr p))) \<noteq> DNSGuardRailActionNone"
    and "policy_RoundTrip p env ne req = Some r" and "rt_carrier r \<noteq> NotSent"
  shows "(\<exists>c. (rt_carrier r = Dialled c \<or> rt_carrier r = DialFailed c) \<and>
      set (tr_idle (pt_base (rt_transport r))) \<subseteq> {c}) \<and>
    \<not> gr_triggered (mgr_guard (pt_mgr (rt_transport r)))"
proof -
  have "fst (consumeGuardTrigger (pt_mgr p))" using assms(2,3) by (simp add: consumeGuardTrigger_def)
  with policy_RoundTrip_fresh [OF assms(1,4,5)] show ?thesis by auto
qed

definition example_triggered :: policyTransport where
  "example_triggered = example_transport\<lparr>pt_mgr := (pt_mgr example_transport)\<lparr>mgr_guard :=
     \<lparr>gr_policy = \<lparr>grp_ConsecutiveErrorThreshold = 1, grp_Window = 0, grp_Action = DNSGuardRailActionFlush\<rparr>,
      gr_count = 0, gr_firstFailure = zero_time, gr_lastFailure = zero_time, gr_triggered = True\<rparr>\<rparr>\<rparr>"

theorem guard_flush_dials_witness:
  "\<exists>r c. policy_RoundTrip example_triggered (example_env 7 (Inl (ErrorString ''down''))) example_net
      example_request = Some r \<and> (rt_carrier r = Dialled c \<or> rt_carrier r = DialFailed c)"
proof -
  have m: "lookup_mode (pol_Mode (mgr_policy (pt_mgr example_triggered)))"
    "gr_triggered (mgr_guard (pt_mgr example_triggered))"
    "grp_Action (gr_policy (mgr_guard (pt_mgr example_triggered))) \<noteq> DNSGuardRailActionNone"
    by (simp_all add: example_triggered_def example_transport_def lookup_mode_def)
  have "\<exists>r. policy_RoundTrip example_triggered (example_env 7 (Inl (ErrorString ''down''))) example_net
      example_request = Some r \<and> rt_carrier r \<noteq> NotSent"
    by (simp add: example_eval example_triggered_def CloseIdleConnections_def split: prod.split sum.split)
  then obtain r where r: "policy_RoundTrip example_triggered (example_env 7 (Inl (ErrorString ''down'')))
      example_net example_request = Some r" "rt_carrier r \<noteq> NotSent" by blast
  from guard_flush_dials [OF m r] r show ?thesis by blast
qed

lemma addr_port_string_nonempty [simp]: "addr_port_string ap \<noteq> []"
  by (cases "ap_addr ap") (simp_all add: addr_port_string_def JoinHostPort_def)

text \<open>A round trip in static mode.\<close>

lemma static_RoundTrip:
  assumes mode: "pol_Mode (mgr_policy (pt_mgr p)) = DNSRefreshStatic"
    and addr: "pol_StaticAddr (mgr_policy (pt_mgr p)) \<noteq> addr_port_zero"
    and pool: "\<forall>c \<in> tr_conns (pt_base p). cn_addr c = addr_port_string (pol_StaticAddr (mgr_policy (pt_mgr p)))"
    and rt: "policy_RoundTrip p env ne req = Some r"
  shows "mgr_policy (pt_mgr (rt_transport r)) = mgr_policy (pt_mgr p) \<and>
    (\<forall>c. carrier_conn (rt_carrier r) = Some c \<or> c \<in> tr_conns (pt_base (rt_transport r)) \<longrightarrow>
      cn_addr c = addr_port_string (pol_StaticAddr (mgr_policy (pt_mgr p))))"
proof -
  let ?s = "addr_port_string (pol_StaticAddr (mgr_policy (pt_mgr p)))"
  obtain m2 tr1 pr where prep: "prepareRequest (pt_mgr p) env (pt_base p) (rq_ctx req) (rq_url req) = Some (m2, tr1, pr)"
    using rt by (auto simp: policy_RoundTrip_def run_iff)
  from prep show ?thesis
  proof (cases rule: prepareRequest_cases)
    case no_port
    then show ?thesis using rt prep pool by (auto simp: policy_RoundTrip_def)
  next
    case (go m1 oc)
    have m1: "m1 = pt_mgr p" and oc: "ro_address oc = ?s"
      using go(1) mode addr by (auto simp: mgr_resolve_def Let_def)
    note g = prepare_go_simps [OF go(3)]
    obtain res ca tr2 where t: "transport_RoundTrip dialContext (url_dial_address (rq_url req)) ne tr1
        (req\<lparr>rq_ctx := pr_ctx pr\<rparr>) = (res, ca, tr2)" by (metis prod_cases3)
    have r: "r = \<lparr>rt_transport = \<lparr>pt_base = tr2, pt_mgr = m2\<rparr>, rt_hook = pr_hook pr, rt_carrier = ca, rt_result = res\<rparr>"
      using rt prep g(2) t by (simp add: policy_RoundTrip_def)
    have conns1: "\<forall>c \<in> tr_conns tr1. cn_addr c = ?s"
      using g(3) pool by (auto simp: tr_conns_def)
    have "ctx_plan (pr_ctx pr) = Some \<lparr>plan_target = ?s\<rparr>" using g(5) oc by (simp add: with_plan_def)
    then obtain c where c: "carrier_conn ca = Some c" "cn_addr c = ?s"
      using transport_RoundTrip_carrier [OF t] conns1 by (auto simp: tr_conns_def)
    have "cn_addr c' = ?s" if "c' \<in> tr_conns tr2" for c'
      using that transport_RoundTrip_pool(1,2) [OF t, of c'] conns1 c by (auto simp: tr_conns_def)
    with c g(1) m1 show ?thesis by (auto simp: r)
  qed (use mode addr in \<open>auto simp: mgr_resolve_def Let_def zero_outcome_def\<close>)
qed

text \<open>
  Static mode: over any sequence of requests and observed results of an endpoint with a
  valid static policy, every connection that carries a request goes to the configured address,
  whatever the host of the URL, the resolver and the guard rail do.
\<close>

theorem static_address_only:
  assumes "pol_Mode policy = DNSRefreshStatic" and "policy_Validate policy = None"
    and "run_endpoint (new_transport policy hook) evs = Some (p', rs)"
    and "r \<in> set rs" and "carrier_conn (rt_carrier r) = Some c"
  shows "cn_addr c = addr_port_string (pol_StaticAddr policy)"
proof -
  have addr: "pol_StaticAddr policy \<noteq> addr_port_zero"
    using assms(1,2) by (auto simp: policy_Validate_None_iff policy_ok_def)
  have "\<forall>r \<in> set rs. \<forall>c. carrier_conn (rt_carrier r) = Some c \<longrightarrow> cn_addr c = addr_port_string (pol_StaticAddr policy)"
    if "run_endpoint p evs = Some (p', rs)" and "mgr_policy (pt_mgr p) = policy"
      and "\<forall>c \<in> tr_conns (pt_base p). cn_addr c = addr_port_string (pol_StaticAddr policy)" for p evs rs
    using that
  proof (induction evs arbitrary: p rs)
    case (Cons ev evs)
    show ?case
    proof (cases ev)
      case (Trip env ne req)
      with Cons.prems obtain r rs' where step: "policy_RoundTrip p env ne req = Some r"
        and rest: "run_endpoint (rt_transport r) evs = Some (p', rs')" and rs: "rs = r # rs'"
        by (auto simp: run_iff)
      note s = static_RoundTrip [OF _ _ _ step, unfolded Cons.prems(2), OF assms(1) addr Cons.prems(3)]
      with Cons.IH [OF rest] show ?thesis by (simp add: rs)
    next
      case (Observe now st err)
      with Cons.prems Cons.IH [of "p\<lparr>pt_mgr := observeResult (pt_mgr p) now st err\<rparr>" rs] show ?thesis
        by simp
    next
      case (BodyDone k keep)
      with Cons.prems Cons.IH [of "release k keep p" rs] body_done_conns [of k keep "pt_base p"] show ?thesis
        by auto
    qed
  qed simp
  from this [OF assms(3)] assms(4,5) show ?thesis by simp
qed

definition example_static :: DNSPolicy where
  "example_static = zero_policy\<lparr>pol_Mode := DNSRefreshStatic,
     pol_StaticAddr := \<lparr>ap_addr = AddrV4 192 0 2 9, ap_port = 8080\<rparr>\<rparr>"

theorem static_address_only_witness:
  "\<exists>r c p'. run_endpoint (new_transport example_static False)
      [Trip (example_env 7 (Inl (ErrorString ''down''))) example_net example_request] = Some (p', [r]) \<and>
    carrier_conn (rt_carrier r) = Some c \<and> cn_addr c = addr_port_string (pol_StaticAddr example_static)"
proof -
  have ok: "pol_Mode example_static = DNSRefreshStatic" "policy_Validate example_static = None"
    by (simp_all add: example_static_def policy_Validate_def addr_port_zero_def)
  have "\<exists>p' r c. run_endpoint (new_transport example_static False)
      [Trip (example_env 7 (Inl (ErrorString ''down''))) example_net example_request] = Some (p', [r]) \<and>
      carrier_conn (rt_carrier r) = Some c"
    by (simp add: example_eval new_transport_def example_static_def addr_port_zero_def split: prod.split sum.split)
  then obtain p' r c where run: "run_endpoint (new_transport example_static False)
      [Trip (example_env 7 (Inl (ErrorString ''down''))) example_net example_request] = Some (p', [r])"
    and c: "carrier_conn (rt_carrier r) = Some c" by blast
  from static_address_only [OF ok run _ c] run c show ?thesis by auto
qed

text \<open>
  The default mode without a guard rail is transparent: a request whose URL has a port goes
  through the base transport exactly as without the policy, dialling the host of the URL, and
  the manager does not change.
\<close>

theorem default_mode_transparent:
  assumes "pol_Mode (mgr_policy (pt_mgr p)) = DNSRefreshDefault"
    and "\<not> gr_triggered (mgr_guard (pt_mgr p))" and "request_port (rq_url req) \<noteq> []"
    and "ctx_plan (rq_ctx req) = None"
  shows "\<exists>ctx hook. policy_RoundTrip p env ne req = Some
    (let (res, ca, tr) = transport_RoundTrip (\<lambda>_ a. a) (url_dial_address (rq_url req)) ne (pt_base p)
           (req\<lparr>rq_ctx := ctx\<rparr>)
     in \<lparr>rt_transport = \<lparr>pt_base = tr, pt_mgr = pt_mgr p\<rparr>, rt_hook = hook, rt_carrier = ca, rt_result = res\<rparr>)"
proof -
  obtain m2 tr1 pr where go: "prepare_go (pt_mgr p) (pt_base p) (rq_ctx req) (url_Hostname (rq_url req)) zero_outcome = (m2, tr1, pr)"
    by (metis prod_cases3)
  note g = prepare_go_simps [OF go]
  have c: "consumeGuardTrigger (pt_mgr p) = (False, pt_mgr p)"
    using assms(2) by (simp add: consumeGuardTrigger_def)
  have plan: "ctx_plan (pr_ctx pr) = None" using g(5) assms(4) by (simp add: zero_outcome_def with_plan_def)
  have "transport_RoundTrip dialContext addr ne tr (req\<lparr>rq_ctx := pr_ctx pr\<rparr>) =
      transport_RoundTrip (\<lambda>_ a. a) addr ne tr (req\<lparr>rq_ctx := pr_ctx pr\<rparr>)" for addr tr
    by (cases "find (conn_for (rq_url req)) (tr_idle tr)")
      (simp_all add: transport_RoundTrip_def get_conn_def dialContext_def plan Let_def)
  moreover have "m2 = pt_mgr p" "tr1 = pt_base p" "pr_err pr = None"
    using g c by (simp_all add: zero_outcome_def)
  moreover have "prepareRequest (pt_mgr p) env (pt_base p) (rq_ctx req) (rq_url req) = Some (m2, tr1, pr)"
    using assms(1,3) go by (simp add: prepareRequest_def mgr_resolve_def Let_def zero_outcome_def)
  ultimately show ?thesis
    by (intro exI [of _ "pr_ctx pr"] exI [of _ "pr_hook pr"])
      (simp add: policy_RoundTrip_def Let_def split: prod.split)
qed

theorem default_mode_transparent_witness:
  "\<exists>r. policy_RoundTrip (new_transport zero_policy False) (example_env 7 (Inl (ErrorString ''down'')))
      example_net example_request = Some r \<and> pt_mgr (rt_transport r) = newDNSPolicyManager zero_policy False"
proof -
  have "pol_Mode (mgr_policy (pt_mgr (new_transport zero_policy False))) = DNSRefreshDefault"
    "\<not> gr_triggered (mgr_guard (pt_mgr (new_transport zero_policy False)))"
    "request_port (rq_url example_request) \<noteq> []" "ctx_plan (rq_ctx example_request) = None"
    by (simp_all add: zero_policy_def newDNSPolicyManager_def example_request_def background_ctx_def)
  from default_mode_transparent [OF this, of "example_env 7 (Inl (ErrorString ''down''))" example_net]
  obtain ctx hook where eq: "policy_RoundTrip (new_transport zero_policy False)
      (example_env 7 (Inl (ErrorString ''down''))) example_net example_request = Some
        (let (res, ca, tr) = transport_RoundTrip (\<lambda>_ a. a) (url_dial_address (rq_url example_request)) example_net
             (pt_base (new_transport zero_policy False)) (example_request\<lparr>rq_ctx := ctx\<rparr>)
         in \<lparr>rt_transport = \<lparr>pt_base = tr, pt_mgr = pt_mgr (new_transport zero_policy False)\<rparr>,
             rt_hook = hook, rt_carrier = ca, rt_result = res\<rparr>)" by blast
  show ?thesis unfolding eq by (simp add: case_prod_beta Let_def)
qed

text \<open>
  A forced lookup that fails is not tried again: in TTL mode, with an address cached that has
  not expired, the request after it goes back to the cached address without a lookup, whatever
  the resolver would say by then, with or without the fallback.
\<close>

theorem forced_lookup_not_retried:
  assumes "ce_addrs (mgr_cache m) \<noteq> []" and "mgr_lookup m env = Inl e"
    and "resolveTTL m env host port = Some (m1, r)"
    and "le_now env2 \<le> ce_expiresAt (mgr_cache m)"
  shows "\<exists>oc. resolveTTL m1 env2 host port = Some (m1, oc, None) \<and> \<not> ro_forceNewConn oc \<and>
    ro_fallbackErr oc = None \<and> dials oc (ce_addrs (mgr_cache m)) host port"
proof -
  have m1: "m1 = clear_force m" using assms(2,3) by (auto simp: resolveTTL_eq split: if_splits)
  have "\<not> ttl_expired m1 (le_now env2)"
    using assms(1,4) by (simp add: m1 ttl_expired_def time_After_def not_less)
  moreover have "clear_force m1 = m1" by (simp add: m1 clear_force_def)
  ultimately show ?thesis using assms(1) by (simp add: resolveTTL_eq resolve_defs dials_def m1)
qed

theorem forced_lookup_not_retried_witness:
  "let m = (pt_mgr example_transport)\<lparr>mgr_forceLookup := True\<rparr>;
       env = example_env 6 (Inl (ErrorString ''down'')); env2 = example_env 7 (Inr ([AddrV4 192 0 2 7], 3))
   in \<exists>m1 r oc. resolveTTL m env ''h'' ''80'' = Some (m1, r) \<and>
     resolveTTL m1 env2 ''h'' ''80'' = Some (m1, oc, None) \<and> dials oc [AddrV4 192 0 2 1] ''h'' ''80''"
proof -
  let ?m = "(pt_mgr example_transport)\<lparr>mgr_forceLookup := True\<rparr>"
  let ?env = "example_env 6 (Inl (ErrorString ''down''))"
  obtain m1 r where step: "resolveTTL ?m ?env ''h'' ''80'' = Some (m1, r)"
    using ttl.total [of ?m ?env "''h''" "''80''"] by auto
  have h: "ce_addrs (mgr_cache ?m) \<noteq> []" "mgr_lookup ?m ?env = Inl (ErrorString ''down'')"
    "le_now (example_env 7 (Inr ([AddrV4 192 0 2 7], 3))) \<le> ce_expiresAt (mgr_cache ?m)"
    by (simp_all add: example_transport_def lookup_closure_def less_eq_gotime_def)
  from forced_lookup_not_retried [OF h(1,2) step h(3)] step show ?thesis
    by (auto simp: Let_def example_transport_def)
qed

end
