(* ===== verification/Turns.thy ===== *)
theory Turns
  imports Prelude
begin

text \<open>
  Operations that may block or panic, and goroutines that take turns on a shared state: the results
  of single operations, the interleavings of several participants, and how what one step guarantees
  becomes an invariant of all interleavings.
\<close>

section \<open>Outcomes\<close>

datatype 'a outcome = Returns 'a | Blocks | Panics

fun and_then :: "'a outcome \<Rightarrow> ('a \<Rightarrow> 'b outcome) \<Rightarrow> 'b outcome" where
  "and_then (Returns a) f = f a"
| "and_then Blocks f = Blocks"
| "and_then Panics f = Panics"

lemma and_then_Returns [run_iff]: "and_then r f = Returns b \<longleftrightarrow> (\<exists>a. r = Returns a \<and> f a = Returns b)"
  by (cases r) auto

lemma and_then_Blocks [run_iff]: "and_then r f = Blocks \<longleftrightarrow> r = Blocks \<or> (\<exists>a. r = Returns a \<and> f a = Blocks)"
  by (cases r) auto

section \<open>Runs\<close>

text \<open>Runs of a step relation that logs events.\<close>

inductive runs :: "('s \<Rightarrow> 'e list \<Rightarrow> 's \<Rightarrow> bool) \<Rightarrow> 's \<Rightarrow> 'e list \<Rightarrow> 's \<Rightarrow> bool" for step where
  runs_refl: "runs step s [] s"
| runs_step: "runs step s es s1 \<Longrightarrow> step s1 fs s2 \<Longrightarrow> runs step s (es @ fs) s2"

lemma runs_one: "step s es s' \<Longrightarrow> runs step s es s'"
  using runs_step [OF runs_refl, of step] by fastforce

lemma runs_trans:
  assumes "runs step s es s1" "runs step s1 fs s2"
  shows "runs step s (es @ fs) s2"
  using assms(2,1)
proof (induction rule: runs.induct)
  case (runs_step s1 fs s2 gs s3)
  then show ?case using runs.runs_step [of step s "es @ fs" s2 gs s3] by simp
qed simp

text \<open>What a step keeps of a state and the log so far holds of every run.\<close>

locale run_invariant =
  fixes step :: "'s \<Rightarrow> 'e list \<Rightarrow> 's \<Rightarrow> bool"
    and inv :: "'e list \<Rightarrow> 's \<Rightarrow> bool"
  assumes keeps: "inv es s \<Longrightarrow> step s fs s' \<Longrightarrow> inv (es @ fs) s'"
begin

lemma always: "runs step s es s' \<Longrightarrow> inv [] s \<Longrightarrow> inv es s'"
  by (induction rule: runs.induct) (auto intro: keeps)

end

section \<open>Interleavings\<close>

text \<open>The participants of a list move in turn; \<open>'e\<close> is what a move sees of the outside.\<close>

inductive turns :: "('e \<Rightarrow> 'c \<Rightarrow> 's \<Rightarrow> ('c \<times> 's) outcome) \<Rightarrow> 'c list \<Rightarrow> 's \<Rightarrow> 'c list \<Rightarrow> 's \<Rightarrow> bool"
  for move where
  turns_refl: "turns move cs s cs s"
| turns_step: "turns move cs s cs1 s1 \<Longrightarrow> k < length cs1 \<Longrightarrow> move e (cs1 ! k) s1 = Returns (c, s2) \<Longrightarrow>
    turns move cs s (cs1[k := c]) s2"

lemma turns_trans:
  assumes "turns move cs s cs1 s1" "turns move cs1 s1 cs2 s2"
  shows "turns move cs s cs2 s2"
  using assms(2,1) by (induction rule: turns.induct) (auto intro: turns_step)

lemma turns_length: "turns move cs s cs' s' \<Longrightarrow> length cs' = length cs"
  by (induction rule: turns.induct) auto

text \<open>A schedule names who moves at each turn and what the move sees; a run by schedule is computed.\<close>

fun run_schedule ::
    "('e \<Rightarrow> 'c \<Rightarrow> 's \<Rightarrow> ('c \<times> 's) outcome) \<Rightarrow> ('e \<times> nat) list \<Rightarrow> 'c list \<Rightarrow> 's \<Rightarrow> ('c list \<times> 's) option" where
  "run_schedule move [] cs s = Some (cs, s)"
| "run_schedule move ((e, k) # sched) cs s =
     (if k < length cs
      then case move e (cs ! k) s of Returns (c, s1) \<Rightarrow> run_schedule move sched (cs[k := c]) s1 | _ \<Rightarrow> None
      else None)"

lemma turns_one: "k < length cs \<Longrightarrow> move e (cs ! k) s = Returns (c, s1) \<Longrightarrow> turns move cs s (cs[k := c]) s1"
  by (rule turns_step [OF turns_refl])

lemma run_schedule_turns: "run_schedule move sched cs s = Some (cs', s') \<Longrightarrow> turns move cs s cs' s'"
proof (induction sched arbitrary: cs s)
  case (Cons a sched)
  obtain e k where a: "a = (e, k)" by (cases a)
  with Cons.prems obtain c s1 where k: "k < length cs" and m: "move e (cs ! k) s = Returns (c, s1)"
    and r: "run_schedule move sched (cs[k := c]) s1 = Some (cs', s')"
    by (auto split: if_splits outcome.splits)
  from turns_one [where move = move, OF k m] Cons.IH [OF r] show ?case by (rule turns_trans)
qed (simp add: turns_refl)

text \<open>
  Participants that move in turn on a shared state. Each has a role that it keeps. If a move keeps
  the invariant \<open>glob\<close> of the shared state and the claim \<open>loc\<close> of the participant, and leaves the
  claim of every other one and their relation \<open>apart\<close> intact, all of these hold at all times.
\<close>

locale taking_turns =
  fixes move :: "'e \<Rightarrow> 'c \<Rightarrow> 's \<Rightarrow> ('c \<times> 's) outcome"
    and glob :: "'s \<Rightarrow> bool"
    and loc :: "'g \<Rightarrow> 's \<Rightarrow> 'c \<Rightarrow> bool"
    and apart :: "'g \<Rightarrow> 'c \<Rightarrow> 'g \<Rightarrow> 'c \<Rightarrow> bool"
  assumes own: "glob s \<Longrightarrow> loc g s c \<Longrightarrow> move e c s = Returns (c', s') \<Longrightarrow> glob s' \<and> loc g s' c'"
    and others: "glob s \<Longrightarrow> loc g s c \<Longrightarrow> loc h s d \<Longrightarrow> apart g c h d \<Longrightarrow> move e c s = Returns (c', s') \<Longrightarrow>
      loc h s' d \<and> apart g c' h d"
    and apart_sym: "apart g c h d \<Longrightarrow> apart h d g c"
begin

definition together :: "'g list \<Rightarrow> 'c list \<Rightarrow> 's \<Rightarrow> bool" where
  "together gs cs s \<longleftrightarrow> glob s \<and> length cs = length gs \<and> (\<forall>k < length gs. loc (gs ! k) s (cs ! k)) \<and>
     (\<forall>k < length gs. \<forall>l < length gs. k \<noteq> l \<longrightarrow> apart (gs ! k) (cs ! k) (gs ! l) (cs ! l))"

lemma together_glob: "together gs cs s \<Longrightarrow> glob s"
  by (simp add: together_def)

lemma together_loc: "together gs cs s \<Longrightarrow> c \<in> set cs \<Longrightarrow> \<exists>g \<in> set gs. loc g s c"
  unfolding together_def by (metis in_set_conv_nth)

lemma together_move:
  assumes t: "together gs cs s" and k: "k < length cs" and m: "move e (cs ! k) s = Returns (c, s')"
  shows "together gs (cs[k := c]) s'"
proof -
  have g: "glob s" "length cs = length gs" and l: "\<And>j. j < length gs \<Longrightarrow> loc (gs ! j) s (cs ! j)"
    and a: "\<And>i j. i < length gs \<Longrightarrow> j < length gs \<Longrightarrow> i \<noteq> j \<Longrightarrow> apart (gs ! i) (cs ! i) (gs ! j) (cs ! j)"
    using t by (auto simp: together_def)
  have lk: "loc (gs ! k) s (cs ! k)" using k g l by simp
  note o = own [OF g(1) lk m]
  have r: "loc (gs ! j) s' (cs ! j) \<and> apart (gs ! k) c (gs ! j) (cs ! j)" if "j < length gs" "j \<noteq> k" for j
    using others [OF g(1) lk l [OF that(1)] _ m] a [of k j] that k g by simp
  show ?thesis
    unfolding together_def using o g r a k apart_sym
    by (auto simp: nth_list_update)
qed

lemma together_turns:
  assumes "turns move cs s cs' s'" "together gs cs s"
  shows "together gs cs' s'"
  using assms by (induction rule: turns.induct) (auto intro: together_move)

end

end
