(* ===== verification/DNS_Concurrent.thy ===== *)
theory DNS_Concurrent
  imports DNS_Transport Turns
begin

text \<open>
  \<^verbatim>\<open>dns_policy_manager.go\<close>, part three: any number of requests on one manager at the same time. The
  mutex is held for short critical sections only, between which the requests interleave. Each
  request is a caller that goes from section to section; one step of the system is one section of one
  caller, the end of a lookup, or the observation of a result.

  Lookups go through the group \<^verbatim>\<open>singleflight.Group\<close>, which is not part of this program. What is
  assumed of it is only that a caller that waits for a lookup of its host gets the result of a lookup
  of that host which another caller or it has started and which ends while it waits. Whether a caller
  starts a lookup or joins one, how many lookups of a host run at a time, and who of those who wait is
  given a result, is left open.
\<close>

section \<open>Callers\<close>

text \<open>
  A call with what it knows: the clock, its host and port, and what it has read of the cache.
  The reply in \<open>cl_env\<close> is the one that the shared lookup delivers.
\<close>

record call =
  cl_env :: lookup_env
  cl_host :: string
  cl_port :: string
  cl_cached :: dnsCacheEntry
  cl_next :: gotime

text \<open>
  A caller is about to enter \<^verbatim>\<open>resolve\<close>; has found that it needs a lookup; waits for the shared
  lookup; has its result; has the outcome of \<^verbatim>\<open>resolve\<close>; is through with \<^verbatim>\<open>prepareRequest\<close>.
\<close>

datatype caller =
  Entering call | Deciding call | InFlight call | Answered call | Resolved call resolved | Departed call resolved

section \<open>Critical sections\<close>

text \<open>The first section of the resolve functions, with the reuse of the cache it may end in.\<close>

definition enter_section :: "call \<Rightarrow> dnsPolicyManager \<Rightarrow> (dnsPolicyManager \<times> caller) option" where
  "enter_section c m =
     (let policy = mgr_policy m; cached = mgr_cache m; cadenceNext = mgr_cadenceNext m;
          env = cl_env c; host = cl_host c; port = cl_port c;
          c1 = c\<lparr>cl_cached := cached, cl_next := cadenceNext\<rparr>
      in case pol_Mode policy of
           DNSRefreshSingleLookup \<Rightarrow>
             if ce_addrs cached \<noteq> []
             then do { r \<leftarrow> single_reuse policy cached host port; Some (m, Resolved c1 r) }
             else Some (m, Deciding c1)
         | DNSRefreshTTL \<Rightarrow>
             if \<not> ttl_expired m (le_now env)
             then do { r \<leftarrow> ttl_reuse policy cached host port; Some (clear_force m, Resolved c1 r) }
             else Some (clear_force m, Deciding c1)
         | DNSRefreshCadence \<Rightarrow>
             if \<not> cadence_due m (le_now env) \<and> ce_addrs cached \<noteq> []
             then do { r \<leftarrow> cadence_reuse policy cached cadenceNext host port; Some (clear_force m, Resolved c1 r) }
             else Some (clear_force m, Deciding c1)
         | _ \<Rightarrow> do { (m1, r) \<leftarrow> mgr_resolve m env host port; Some (m1, Resolved c1 r) })"

text \<open>
  The second section, after the lookup: the new entry, or the fallback to what the first section
  has read. Only the modes that look names up get here.
\<close>

definition settle_section :: "call \<Rightarrow> dnsPolicyManager \<Rightarrow> (dnsPolicyManager \<times> resolved) option" where
  "settle_section c m =
     (let policy = mgr_policy m; cached = cl_cached c; cadenceNext = cl_next c;
          env = cl_env c; host = cl_host c; port = cl_port c; now = le_now env
      in case pol_Mode policy of
           DNSRefreshSingleLookup \<Rightarrow>
             (case mgr_lookup m env of
                Inl err \<Rightarrow> Some (m, failed_lookup policy host err)
              | Inr lf \<Rightarrow> do {
                  r \<leftarrow> single_refreshed policy host port lf;
                  Some (m\<lparr>mgr_cache := single_entry env lf\<rparr>, r) })
         | DNSRefreshTTL \<Rightarrow>
             (case mgr_lookup m env of
                Inl err \<Rightarrow> do { r \<leftarrow> ttl_failed policy cached host port err; Some (m, r) }
              | Inr lf \<Rightarrow> do {
                  r \<leftarrow> ttl_refreshed policy now host port lf;
                  Some (m\<lparr>mgr_cache := ttl_entry policy now lf\<rparr>, r) })
         | DNSRefreshCadence \<Rightarrow>
             (case mgr_lookup m env of
                Inl err \<Rightarrow> do { r \<leftarrow> cadence_failed policy cached cadenceNext host port err; Some (m, r) }
              | Inr lf \<Rightarrow> do {
                  r \<leftarrow> cadence_refreshed policy now host port lf;
                  Some (m\<lparr>mgr_cache := cadence_entry now lf,
                          mgr_cadenceNext := time_Add now (pol_Cadence policy)\<rparr>, r) })
         | _ \<Rightarrow> None)"

text \<open>
  The last section, of \<^verbatim>\<open>prepareRequest\<close>: the decision kept for error reports, or the consumption of
  a guard-rail trigger, with whether there was one.
\<close>

definition leave_section :: "resolved \<Rightarrow> dnsPolicyManager \<Rightarrow> bool \<times> dnsPolicyManager" where
  "leave_section r m =
     (case r of
        (oc, Some err) \<Rightarrow>
          (False, case ro_decision oc of None \<Rightarrow> m | Some d \<Rightarrow> store_decision (d\<lparr>dec_Err := Some err\<rparr>) m)
      | (oc, None) \<Rightarrow>
          (case (ro_fallbackErr oc, ro_decision oc) of
             (Some e, Some d) \<Rightarrow> (False, store_decision (d\<lparr>dec_FallbackUsed := True\<rparr>) m)
           | _ \<Rightarrow> consumeGuardTrigger m))"

section \<open>The system\<close>

text \<open>\<open>dy_flights\<close> are the hosts of the lookups under way.\<close>

record dns_system =
  dy_mgr :: dnsPolicyManager
  dy_flights :: "string list"
  dy_callers :: "caller list"

datatype dns_event =
  Started string | Replied string "go_error + netip_addr list \<times> duration" | Raised | Consumed

text \<open>A lookup ends: some of those who wait for this host get its result.\<close>

definition deliver :: "string \<Rightarrow> go_error + netip_addr list \<times> duration \<Rightarrow> duration \<Rightarrow> caller \<Rightarrow> caller" where
  "deliver host reply dur cl =
     (case cl of
        InFlight c \<Rightarrow>
          if cl_host c = host
          then Answered (c\<lparr>cl_env := (cl_env c)\<lparr>le_reply := reply, le_dur := dur, le_done := None\<rparr>\<rparr>) else cl
      | _ \<Rightarrow> cl)"

definition deliver_to ::
    "nat set \<Rightarrow> string \<Rightarrow> go_error + netip_addr list \<times> duration \<Rightarrow> duration \<Rightarrow> caller list \<Rightarrow> caller list" where
  "deliver_to W host reply dur cls =
     map (\<lambda>i. if i \<in> W then deliver host reply dur (cls ! i) else cls ! i) [0..<length cls]"

definition cancelled_call :: "go_error \<Rightarrow> call \<Rightarrow> call" where
  "cancelled_call e c = c\<lparr>cl_env := (cl_env c)\<lparr>le_done := Some e\<rparr>\<rparr>"

text \<open>The clock of a call is past Go's zero time.\<close>

inductive dns_step :: "dns_system \<Rightarrow> dns_event list \<Rightarrow> dns_system \<Rightarrow> bool" where
  dy_arrive: "0 < nanos (le_now (cl_env c)) \<Longrightarrow>
    dns_step s [] (s\<lparr>dy_callers := dy_callers s @ [Entering c]\<rparr>)"
| dy_enter: "i < length (dy_callers s) \<Longrightarrow> dy_callers s ! i = Entering c \<Longrightarrow>
    enter_section c (dy_mgr s) = Some (m, cl) \<Longrightarrow>
    dns_step s [] (s\<lparr>dy_mgr := m, dy_callers := (dy_callers s)[i := cl]\<rparr>)"
| dy_unconfigured: "i < length (dy_callers s) \<Longrightarrow> dy_callers s ! i = Deciding c \<Longrightarrow>
    mgr_resolver (dy_mgr s) = None \<Longrightarrow>
    dns_step s [] (s\<lparr>dy_callers := (dy_callers s)[i := Answered c]\<rparr>)"
| dy_join: "i < length (dy_callers s) \<Longrightarrow> dy_callers s ! i = Deciding c \<Longrightarrow>
    mgr_resolver (dy_mgr s) \<noteq> None \<Longrightarrow> cl_host c \<in> set (dy_flights s) \<Longrightarrow>
    dns_step s [] (s\<lparr>dy_callers := (dy_callers s)[i := InFlight c]\<rparr>)"
| dy_fly: "i < length (dy_callers s) \<Longrightarrow> dy_callers s ! i = Deciding c \<Longrightarrow>
    mgr_resolver (dy_mgr s) \<noteq> None \<Longrightarrow>
    dns_step s [Started (cl_host c)]
      (s\<lparr>dy_flights := cl_host c # dy_flights s, dy_callers := (dy_callers s)[i := InFlight c]\<rparr>)"
| dy_reply: "host \<in> set (dy_flights s) \<Longrightarrow>
    dns_step s [Replied host reply]
      (s\<lparr>dy_flights := remove1 host (dy_flights s), dy_callers := deliver_to W host reply dur (dy_callers s)\<rparr>)"
| dy_cancel: "i < length (dy_callers s) \<Longrightarrow> dy_callers s ! i = InFlight c \<or> dy_callers s ! i = Answered c \<Longrightarrow>
    dns_step s [] (s\<lparr>dy_callers := (dy_callers s)[i := Answered (cancelled_call e c)]\<rparr>)"
| dy_settle: "i < length (dy_callers s) \<Longrightarrow> dy_callers s ! i = Answered c \<Longrightarrow>
    settle_section c (dy_mgr s) = Some (m, r) \<Longrightarrow>
    dns_step s [] (s\<lparr>dy_mgr := m, dy_callers := (dy_callers s)[i := Resolved c r]\<rparr>)"
| dy_leave: "i < length (dy_callers s) \<Longrightarrow> dy_callers s ! i = Resolved c r \<Longrightarrow>
    leave_section r (dy_mgr s) = (consumed, m) \<Longrightarrow>
    dns_step s (if consumed then [Consumed] else [])
      (s\<lparr>dy_mgr := m, dy_callers := (dy_callers s)[i := Departed c r]\<rparr>)"
| dy_observe: "m = observeResult (dy_mgr s) now code err \<Longrightarrow>
    dns_step s (if gr_triggered (mgr_guard m) \<and> \<not> gr_triggered (mgr_guard (dy_mgr s)) then [Raised] else [])
      (s\<lparr>dy_mgr := m\<rparr>)"

abbreviation dns_run :: "dns_system \<Rightarrow> dns_event list \<Rightarrow> dns_system \<Rightarrow> bool" where
  "dns_run \<equiv> runs dns_step"

lemmas dy_refl = runs_refl [where step = dns_step]
lemmas dy_step = runs_step [where step = dns_step]

definition new_system :: "dnsPolicyManager \<Rightarrow> dns_system" where
  "new_system m = \<lparr>dy_mgr = m, dy_flights = [], dy_callers = []\<rparr>"

section \<open>A call alone\<close>

text \<open>The sections of one call in a row.\<close>

definition alone :: "call \<Rightarrow> dnsPolicyManager \<Rightarrow> (dnsPolicyManager \<times> resolved) option" where
  "alone c m = do {
     (m1, cl) \<leftarrow> enter_section c m;
     (case cl of
        Resolved c1 r \<Rightarrow> Some (m1, r)
      | Deciding c1 \<Rightarrow> settle_section c1 m1
      | _ \<Rightarrow> None) }"

lemma alone_resolve: "alone c m = mgr_resolve m (cl_env c) (cl_host c) (cl_port c)"
proof (cases "pol_Mode (mgr_policy m)")
  case DNSRefreshSingleLookup
  then show ?thesis
    by (auto simp: alone_def enter_section_def settle_section_def mgr_resolve_def resolveSingle_eq resolve_defs
        mgr_lookup_nonempty split: sum.split)
next
  case DNSRefreshTTL
  then show ?thesis
    by (auto simp: alone_def enter_section_def settle_section_def mgr_resolve_def resolveTTL_eq resolve_defs
        mgr_lookup_nonempty ttl_expired_def split: sum.split)
next
  case DNSRefreshCadence
  then show ?thesis
    by (auto simp: alone_def enter_section_def settle_section_def mgr_resolve_def resolveCadence_eq resolve_defs
        mgr_lookup_nonempty cadence_due_def split: sum.split)
qed (auto simp: alone_def enter_section_def mgr_resolve_def Let_def)

lemma leave_prepareRequest:
  assumes "request_port u \<noteq> []" "mgr_resolve m env (url_Hostname u) (request_port u) = Some (m1, r)"
  shows "map_option fst (prepareRequest m env tr ctx u) = Some (snd (leave_section r m1))"
  using assms
  by (cases r)
    (auto simp: prepareRequest_def leave_section_def prepare_failed_def prepare_fallback_def prepare_go_def Let_def
      case_prod_beta split: option.splits)

text \<open>
  Without interleaving, the sections are \<^verbatim>\<open>prepareRequest\<close>: the manager after \<^verbatim>\<open>prepareRequest\<close> is the
  one after the sections of one call in a row, and the result of \<^verbatim>\<open>resolve\<close> is theirs.
\<close>

lemma sections_are_prepareRequest:
  assumes "request_port u \<noteq> []"
  shows "map_option fst (prepareRequest m env tr ctx u) =
      map_option (\<lambda>(m1, r). snd (leave_section r m1))
        (alone \<lparr>cl_env = env, cl_host = url_Hostname u, cl_port = request_port u,
                cl_cached = empty_cache, cl_next = zero_time\<rparr> m) \<and>
    alone \<lparr>cl_env = env, cl_host = url_Hostname u, cl_port = request_port u,
           cl_cached = empty_cache, cl_next = zero_time\<rparr> m = mgr_resolve m env (url_Hostname u) (request_port u)"
proof -
  obtain m1 oc err where r: "mgr_resolve m env (url_Hostname u) (request_port u) = Some (m1, oc, err)"
    using mgr_resolve_returns by blast
  from leave_prepareRequest [OF assms r] show ?thesis by (simp add: alone_resolve r)
qed

section \<open>Invariants of the interleavings\<close>

text \<open>The addresses that may be dialled: those a reply has brought.\<close>

fun replied :: "dns_event list \<Rightarrow> netip_addr set" where
  "replied [] = {}"
| "replied (Replied h (Inr (addrs, ttl)) # es) = set addrs \<union> replied es"
| "replied (e # es) = replied es"

lemma replied_append [simp]: "replied (es @ fs) = replied es \<union> replied fs"
  by (induction es rule: replied.induct) auto

definition dials_among :: "netip_addr set \<Rightarrow> call \<Rightarrow> resolved \<Rightarrow> bool" where
  "dials_among K c r \<longleftrightarrow>
     (snd r = None \<longrightarrow> (\<exists>addrs. dials (fst r) addrs (cl_host c) (cl_port c) \<and> set addrs \<subseteq> K))"

definition known_cache :: "netip_addr set \<Rightarrow> dnsCacheEntry \<Rightarrow> bool" where
  "known_cache K ce \<longleftrightarrow> set (ce_addrs ce) \<subseteq> K"

definition fresh_result :: "dnsPolicyManager \<Rightarrow> call \<Rightarrow> resolved \<Rightarrow> bool" where
  "fresh_result m c r \<longleftrightarrow> (pol_Mode (mgr_policy m) = DNSRefreshTTL \<longrightarrow> fresh_at (le_now (cl_env c)) r)"

fun call_of :: "caller \<Rightarrow> call" where
  "call_of (Entering c) = c"
| "call_of (Deciding c) = c"
| "call_of (InFlight c) = c"
| "call_of (Answered c) = c"
| "call_of (Resolved c r) = c"
| "call_of (Departed c r) = c"

definition caller_ok :: "netip_addr set \<Rightarrow> dnsPolicyManager \<Rightarrow> caller \<Rightarrow> bool" where
  "caller_ok K m cl \<longleftrightarrow>
     0 < nanos (le_now (cl_env (call_of cl))) \<and>
     (case cl of
        Entering c \<Rightarrow> True
      | Deciding c \<Rightarrow> known_cache K (cl_cached c)
      | InFlight c \<Rightarrow> known_cache K (cl_cached c)
      | Answered c \<Rightarrow> known_cache K (cl_cached c) \<and>
          (\<forall>lf. mgr_lookup m (cl_env c) = Inr lf \<longrightarrow> set (lf_addrs lf) \<subseteq> K)
      | Resolved c r \<Rightarrow> dials_among K c r \<and> fresh_result m c r
      | Departed c r \<Rightarrow> dials_among K c r \<and> fresh_result m c r)"

definition system_ok :: "netip_addr set \<Rightarrow> dns_system \<Rightarrow> bool" where
  "system_ok K s \<longleftrightarrow>
     lookup_mode (pol_Mode (mgr_policy (dy_mgr s))) \<and> known_cache K (mgr_cache (dy_mgr s)) \<and>
     (pol_Mode (mgr_policy (dy_mgr s)) = DNSRefreshTTL \<longrightarrow> ttl_cache_ok (dy_mgr s)) \<and>
     (\<forall>cl \<in> set (dy_callers s). caller_ok K (dy_mgr s) cl)"

text \<open>Two managers that no caller can tell apart: the same policy and resolver.\<close>

definition same_config :: "dnsPolicyManager \<Rightarrow> dnsPolicyManager \<Rightarrow> bool" where
  "same_config m m' \<longleftrightarrow> mgr_policy m' = mgr_policy m \<and> mgr_resolver m' = mgr_resolver m"

lemma same_config_lookup: "same_config m m' \<Longrightarrow> mgr_lookup m' env = mgr_lookup m env"
  by (simp add: same_config_def mgr_lookup_def)

lemma known_cache_mono: "known_cache K ce \<Longrightarrow> K \<subseteq> K' \<Longrightarrow> known_cache K' ce"
  by (auto simp: known_cache_def)

lemma dials_among_mono: "dials_among K c r \<Longrightarrow> K \<subseteq> K' \<Longrightarrow> dials_among K' c r"
  unfolding dials_among_def by blast

lemma fresh_result_cong: "same_config m m' \<Longrightarrow> fresh_result m' c r = fresh_result m c r"
  by (simp add: fresh_result_def same_config_def)

lemma caller_ok_mono:
  assumes "caller_ok K m cl" "K \<subseteq> K'" "same_config m m'"
  shows "caller_ok K' m' cl"
proof (cases cl)
  case (InFlight c)
  then show ?thesis using assms known_cache_mono by (auto simp: caller_ok_def)
next
  case (Answered c)
  then show ?thesis using assms known_cache_mono subset_trans
    by (auto simp: caller_ok_def same_config_lookup del: subsetI)
qed (use assms known_cache_mono dials_among_mono in \<open>auto simp: caller_ok_def fresh_result_cong\<close>)

lemma enter_section_ok:
  assumes "enter_section c m = Some (m', cl)" "lookup_mode (pol_Mode (mgr_policy m))" "known_cache K (mgr_cache m)"
    and "pol_Mode (mgr_policy m) = DNSRefreshTTL \<longrightarrow> ttl_cache_ok m" "0 < nanos (le_now (cl_env c))"
  shows "same_config m m' \<and> mgr_cache m' = mgr_cache m \<and> mgr_guard m' = mgr_guard m \<and> caller_ok K m' cl"
proof -
  consider "pol_Mode (mgr_policy m) = DNSRefreshSingleLookup" | "pol_Mode (mgr_policy m) = DNSRefreshTTL"
    | "pol_Mode (mgr_policy m) = DNSRefreshCadence"
    using assms(2) by (auto simp: lookup_mode_def)
  then show ?thesis
  proof cases
    case 1
    then show ?thesis using assms(1,3,5)
      by (auto simp: enter_section_def resolve_defs same_config_def caller_ok_def dials_among_def dials_def
          known_cache_def fresh_result_def split: if_splits)
  next
    case 2
    show ?thesis
    proof (cases "ttl_expired m (le_now (cl_env c))")
      case True
      with 2 show ?thesis using assms(1,3,5)
        by (auto simp: enter_section_def same_config_def caller_ok_def known_cache_def Let_def)
    next
      case False
      then have "ce_addrs (mgr_cache m) \<noteq> []" by (auto simp: ttl_expired_def)
      moreover have "le_now (cl_env c) \<le> ce_expiresAt (mgr_cache m)"
        using False 2 assms(4) by (auto simp: ttl_expired_def ttl_cache_ok_def time_IsZero_nanos time_After_def not_less)
      ultimately show ?thesis using 2 False assms(1,3,5)
        by (auto simp: enter_section_def resolve_defs same_config_def caller_ok_def dials_among_def dials_def
            known_cache_def fresh_result_def fresh_at_def)
    qed
  next
    case 3
    then show ?thesis using assms(1,3,5)
      by (auto simp: enter_section_def resolve_defs same_config_def caller_ok_def dials_among_def dials_def
          known_cache_def fresh_result_def split: if_splits)
  qed
qed

lemma settle_section_ok:
  assumes "settle_section c m = Some (m', r)" "lookup_mode (pol_Mode (mgr_policy m))" "known_cache K (mgr_cache m)"
    and "pol_Mode (mgr_policy m) = DNSRefreshTTL \<longrightarrow> ttl_cache_ok m"
    and "caller_ok K m (Answered c)"
  shows "same_config m m' \<and> known_cache K (mgr_cache m') \<and> mgr_guard m' = mgr_guard m \<and>
    (pol_Mode (mgr_policy m) = DNSRefreshTTL \<longrightarrow> ttl_cache_ok m') \<and> caller_ok K m' (Resolved c r)"
proof (cases "mgr_lookup m (cl_env c)")
  case (Inl err)
  have ok: "known_cache K (cl_cached c)" "0 < nanos (le_now (cl_env c))"
    using assms(5) by (simp_all add: caller_ok_def)
  with Inl show ?thesis using assms(1-4)
    by (auto simp: settle_section_def lookup_mode_def resolve_defs same_config_def caller_ok_def dials_among_def
        dials_def known_cache_def fresh_result_def fresh_at_def split: if_splits)
next
  case (Inr lf)
  have ok: "set (lf_addrs lf) \<subseteq> K" "0 < nanos (le_now (cl_env c))" "lf_addrs lf \<noteq> []"
    using assms(5) Inr mgr_lookup_nonempty [OF Inr] by (simp_all add: caller_ok_def)
  have e: "le_now (cl_env c) \<le> ce_expiresAt (ttl_entry (mgr_policy m) (le_now (cl_env c)) lf)"
    by (rule ttl_entry_expiry)
  with ok(2) have "0 < nanos (ce_expiresAt (ttl_entry (mgr_policy m) (le_now (cl_env c)) lf))"
    by (simp add: less_eq_gotime_def)
  with Inr ok e show ?thesis using assms(1-4)
    by (auto simp: settle_section_def lookup_mode_def resolve_defs same_config_def caller_ok_def dials_among_def
        dials_def known_cache_def fresh_result_def fresh_at_def ttl_cache_ok_def del: subsetI)
qed

text \<open>No section panics, whatever the state.\<close>

lemma enter_section_total: "enter_section c m \<noteq> None"
proof (cases "pol_Mode (mgr_policy m)")
  case DNSRefreshTTL
  then show ?thesis by (auto simp: enter_section_def resolve_defs ttl_expired_def)
next
  case DNSRefreshCadence
  then show ?thesis by (auto simp: enter_section_def resolve_defs)
next
  case DNSRefreshSingleLookup
  then show ?thesis by (auto simp: enter_section_def resolve_defs)
qed (use mgr_resolve_returns [of m "cl_env c" "cl_host c" "cl_port c"]
    in \<open>auto simp: enter_section_def Let_def\<close>)

lemma settle_section_total: "lookup_mode (pol_Mode (mgr_policy m)) \<Longrightarrow> settle_section c m \<noteq> None"
  by (auto simp: settle_section_def lookup_mode_def resolve_defs mgr_lookup_nonempty split: sum.splits)

lemma leave_section_frame:
  assumes "leave_section r m = (b, m')"
  shows "same_config m m' \<and> mgr_cache m' = mgr_cache m"
  using assms
  by (auto simp: leave_section_def same_config_def store_decision_def consumeGuardTrigger_def
      split: prod.splits option.splits if_splits)

lemma observeResult_keeps:
  "same_config m (observeResult m now code err) \<and> mgr_cache (observeResult m now code err) = mgr_cache m"
  by (simp add: same_config_def observeResult_def registerGuardFailure_def resetGuard_def Let_def)

lemma ttl_cache_ok_cong: "mgr_cache m' = mgr_cache m \<Longrightarrow> ttl_cache_ok m' = ttl_cache_ok m"
  by (simp add: ttl_cache_ok_def)

lemma callers_update:
  assumes "\<forall>cl \<in> set cls. P cl" "Q c" "\<And>cl. P cl \<Longrightarrow> Q cl"
  shows "\<forall>cl \<in> set (cls[i := c]). Q cl"
  using assms set_update_subset_insert [of cls i c] by blast

text \<open>
  A step of one caller: the manager keeps its configuration, its cache stays known and the caller
  itself is as it should be.
\<close>

lemma system_ok_caller:
  assumes "system_ok K s" "K \<subseteq> K'" "same_config (dy_mgr s) m"
    and "known_cache K' (mgr_cache m)"
    and "pol_Mode (mgr_policy (dy_mgr s)) = DNSRefreshTTL \<longrightarrow> ttl_cache_ok m"
    and "caller_ok K' m cl"
  shows "system_ok K' \<lparr>dy_mgr = m, dy_flights = fl, dy_callers = (dy_callers s)[i := cl]\<rparr>"
proof -
  have "\<forall>x \<in> set ((dy_callers s)[i := cl]). caller_ok K' m x"
    by (rule callers_update [where P = "caller_ok K (dy_mgr s)"])
      (use assms caller_ok_mono in \<open>auto simp: system_ok_def\<close>)
  then show ?thesis using assms(1,3,4,5) by (auto simp: system_ok_def same_config_def)
qed

lemma same_config_refl [simp]: "same_config m m"
  by (simp add: same_config_def)

lemma system_okD:
  assumes "system_ok K s"
  shows "lookup_mode (pol_Mode (mgr_policy (dy_mgr s)))" "known_cache K (mgr_cache (dy_mgr s))"
    "pol_Mode (mgr_policy (dy_mgr s)) = DNSRefreshTTL \<longrightarrow> ttl_cache_ok (dy_mgr s)"
    "i < length (dy_callers s) \<Longrightarrow> caller_ok K (dy_mgr s) (dy_callers s ! i)"
  using assms nth_mem [of i "dy_callers s"] unfolding system_ok_def by blast+

lemma deliver_ok:
  assumes "caller_ok K m cl" "K \<union> replied [Replied host reply] \<subseteq> K'"
  shows "caller_ok K' m (deliver host reply dur cl)"
proof (cases cl)
  case (InFlight c)
  have "set (lf_addrs lf) \<subseteq> K'" if "mgr_lookup m ((cl_env c)\<lparr>le_reply := reply, le_dur := dur, le_done := None\<rparr>) = Inr lf" for lf
    using mgr_lookup_reply [OF that] assms(2) by auto
  then show ?thesis
    using assms known_cache_mono [of K _ K'] InFlight by (auto simp: caller_ok_def deliver_def)
next
  case (Answered c)
  then show ?thesis using assms known_cache_mono [of K _ K'] subset_trans
    by (auto simp: caller_ok_def deliver_def del: subsetI)
qed (use assms known_cache_mono [of K _ K'] dials_among_mono [of K _ _ K'] in \<open>auto simp: caller_ok_def deliver_def\<close>)

lemma deliver_to_cases:
  assumes "cl \<in> set (deliver_to W host reply dur cls)"
  obtains cl0 where "cl0 \<in> set cls" "cl = cl0 \<or> cl = deliver host reply dur cl0"
  using assms that nth_mem by (fastforce simp: deliver_to_def split: if_splits)

lemma step_system_ok:
  assumes "dns_step s es s'" "system_ok K s"
  shows "system_ok (K \<union> replied es) s'"
  using assms(1)
proof cases
  case (dy_arrive c)
  then show ?thesis using assms(2) by (auto simp: system_ok_def caller_ok_def)
next
  case (dy_enter i c m cl)
  note D = system_okD [OF assms(2)]
  have "0 < nanos (le_now (cl_env c))" using D(4) [OF dy_enter(3)] dy_enter(4) by (simp add: caller_ok_def)
  from enter_section_ok [OF dy_enter(5) D(1-3) this]
  have e: "same_config (dy_mgr s) m" "mgr_cache m = mgr_cache (dy_mgr s)" "caller_ok K m cl" by auto
  show ?thesis
    using system_ok_caller [OF assms(2) subset_refl e(1) _ _ e(3), where i = i] D e(2) dy_enter ttl_cache_ok_cong [OF e(2)]
    by (cases s) simp
next
  case (dy_unconfigured i c)
  note D = system_okD [OF assms(2)]
  have "caller_ok K (dy_mgr s) (Answered c)"
    using D(4) [OF dy_unconfigured(3)] dy_unconfigured by (simp add: caller_ok_def mgr_lookup_def)
  from system_ok_caller [OF assms(2) subset_refl _ _ _ this, where i = i] D dy_unconfigured show ?thesis by (cases s) simp
next
  case (dy_join i c)
  note D = system_okD [OF assms(2)]
  have "caller_ok K (dy_mgr s) (InFlight c)"
    using D(4) [OF dy_join(3)] dy_join by (simp add: caller_ok_def)
  from system_ok_caller [OF assms(2) subset_refl _ _ _ this, where i = i] D dy_join show ?thesis by (cases s) simp
next
  case (dy_fly i c)
  note D = system_okD [OF assms(2)]
  have "caller_ok K (dy_mgr s) (InFlight c)"
    using D(4) [OF dy_fly(3)] dy_fly by (simp add: caller_ok_def)
  from system_ok_caller [OF assms(2) subset_refl _ _ _ this, where i = i] D dy_fly show ?thesis by (cases s) simp
next
  case (dy_reply host reply W dur)
  have "known_cache (K \<union> replied es) (mgr_cache (dy_mgr s))"
    using system_okD(2) [OF assms(2)] by (rule known_cache_mono) simp
  moreover have "caller_ok (K \<union> replied es) (dy_mgr s) cl"
    if cl: "cl \<in> set (deliver_to W host reply dur (dy_callers s))" for cl
  proof -
    obtain cl0 where cl0: "cl0 \<in> set (dy_callers s)" "cl = cl0 \<or> cl = deliver host reply dur cl0"
      using deliver_to_cases [OF cl] by blast
    have "caller_ok K (dy_mgr s) cl0" using assms(2) cl0(1) by (simp add: system_ok_def)
    then show ?thesis
      using cl0(2) deliver_ok [of K "dy_mgr s" cl0 host reply "K \<union> replied es" dur] caller_ok_mono dy_reply(1) by auto
  qed
  ultimately show ?thesis using assms(2) dy_reply unfolding system_ok_def by auto
next
  case (dy_cancel i c e)
  note D = system_okD [OF assms(2)]
  have "caller_ok K (dy_mgr s) (Answered (cancelled_call e c))"
    using D(4) [OF dy_cancel(3)] dy_cancel(4) by (auto simp: caller_ok_def cancelled_call_def mgr_lookup_def)
  from system_ok_caller [OF assms(2) subset_refl _ _ _ this, where i = i] D dy_cancel show ?thesis by (cases s) simp
next
  case (dy_settle i c m r)
  note D = system_okD [OF assms(2)]
  have "caller_ok K (dy_mgr s) (Answered c)" using D(4) [OF dy_settle(3)] dy_settle(4) by simp
  from settle_section_ok [OF dy_settle(5) D(1-3) this]
  have e: "same_config (dy_mgr s) m" "known_cache K (mgr_cache m)" "caller_ok K m (Resolved c r)"
    "pol_Mode (mgr_policy (dy_mgr s)) = DNSRefreshTTL \<longrightarrow> ttl_cache_ok m" by auto
  from system_ok_caller [OF assms(2) subset_refl e(1) e(2,4,3), where i = i] dy_settle show ?thesis by (cases s) simp
next
  case (dy_leave i c r consumed m)
  note D = system_okD [OF assms(2)] and f = leave_section_frame [OF dy_leave(5)]
  have "caller_ok K (dy_mgr s) (Departed c r)" using D(4) [OF dy_leave(3)] dy_leave(4)
    by (simp add: caller_ok_def)
  then have "caller_ok K m (Departed c r)" using caller_ok_mono f by blast
  from system_ok_caller [OF assms(2) subset_refl conjunct1 [OF f] _ _ this, where i = i] D f dy_leave
    ttl_cache_ok_cong [OF conjunct2 [OF f]]
  show ?thesis by (cases s) simp
next
  case (dy_observe m now code err)
  note f = observeResult_keeps [of "dy_mgr s" now code err]
  have "\<forall>cl \<in> set (dy_callers s). caller_ok K m cl"
    using assms(2) caller_ok_mono [OF _ subset_refl] f dy_observe by (auto simp: system_ok_def)
  then show ?thesis
    using assms(2) f dy_observe ttl_cache_ok_cong [of m "dy_mgr s"] by (auto simp: system_ok_def same_config_def)
qed

interpretation answers: run_invariant dns_step "\<lambda>es s. system_ok (replied es) s"
  by unfold_locales (simp add: step_system_ok)

lemma new_system_ok:
  assumes "lookup_mode (pol_Mode policy)"
  shows "system_ok {} (new_system (newDNSPolicyManager policy hook))"
  using assms by (simp add: system_ok_def new_system_def newDNSPolicyManager_def known_cache_def empty_cache_def ttl_cache_ok_def)

section \<open>An example: two callers share a lookup\<close>

definition example_call :: call where
  "example_call =
     \<lparr>cl_env = example_env 5 (Inl (Sentinel IoEOF)), cl_host = ''h'', cl_port = ''80'',
      cl_cached = empty_cache, cl_next = zero_time\<rparr>"

definition example_answered :: call where
  "example_answered = example_call\<lparr>cl_env := example_env 5 (Inr ([AddrV4 192 0 2 1], 3))\<rparr>"

definition example_system :: "caller list \<Rightarrow> string list \<Rightarrow> dns_system" where
  "example_system cls fl = \<lparr>dy_mgr = example_manager DNSRefreshTTL, dy_flights = fl, dy_callers = cls\<rparr>"

lemma example_enter:
  "enter_section example_call (example_manager DNSRefreshTTL) =
     Some (example_manager DNSRefreshTTL, Deciding example_call)"
  by (simp add: enter_section_def example_call_def ttl_expired_def empty_cache_def Let_def)

lemma example_flight:
  "dns_run (new_system (example_manager DNSRefreshTTL)) [Started ''h'']
     (example_system [InFlight example_call, InFlight example_call] [''h''])"
proof -
  let ?m = "example_manager DNSRefreshTTL" and ?c = example_call
  have t: "0 < nanos (le_now (cl_env ?c))" by (simp add: example_call_def)
  have res: "mgr_resolver ?m \<noteq> None" by (simp add: example_manager_def newDNSPolicyManager_def zero_policy_def)
  have 1: "dns_step (new_system ?m) [] (example_system [Entering ?c] [])"
    using dy_arrive [OF t, of "new_system ?m"] by (simp add: new_system_def example_system_def)
  have 2: "dns_step (example_system [Entering ?c] []) [] (example_system [Entering ?c, Entering ?c] [])"
    using dy_arrive [OF t, of "example_system [Entering ?c] []"] by (simp add: example_system_def)
  have 3: "dns_step (example_system [Entering ?c, Entering ?c] []) [] (example_system [Deciding ?c, Entering ?c] [])"
    using dy_enter [of 0 "example_system [Entering ?c, Entering ?c] []" ?c] example_enter by (simp add: example_system_def)
  have 4: "dns_step (example_system [Deciding ?c, Entering ?c] []) [] (example_system [Deciding ?c, Deciding ?c] [])"
    using dy_enter [of 1 "example_system [Deciding ?c, Entering ?c] []" ?c] example_enter by (simp add: example_system_def)
  have 5: "dns_step (example_system [Deciding ?c, Deciding ?c] []) [Started ''h'']
      (example_system [InFlight ?c, Deciding ?c] [''h''])"
    using dy_fly [of 0 "example_system [Deciding ?c, Deciding ?c] []" ?c] res
    by (simp add: example_system_def) (simp add: example_call_def)
  have 6: "dns_step (example_system [InFlight ?c, Deciding ?c] [''h'']) []
      (example_system [InFlight ?c, InFlight ?c] [''h''])"
    using dy_join [of 1 "example_system [InFlight ?c, Deciding ?c] [''h'']" ?c] res
    by (simp add: example_system_def) (simp add: example_call_def)
  have "dns_run (new_system ?m) (((((([] @ []) @ []) @ []) @ []) @ [Started ''h'']) @ [])
      (example_system [InFlight ?c, InFlight ?c] [''h''])"
    by (rule dy_step [OF dy_step [OF dy_step [OF dy_step [OF dy_step [OF dy_step [OF dy_refl 1] 2] 3] 4] 5] 6])
  then show ?thesis by simp
qed

text \<open>The result of the first caller once the lookup has ended.\<close>

lemma example_settled:
  "\<exists>m r. snd r = None \<and> mgr_policy m = mgr_policy (example_manager DNSRefreshTTL) \<and>
     dns_run (new_system (example_manager DNSRefreshTTL)) [Started ''h'', Replied ''h'' (Inr ([AddrV4 192 0 2 1], 3))]
       \<lparr>dy_mgr = m, dy_flights = [], dy_callers = [Resolved example_answered r, Answered example_answered]\<rparr>"
proof -
  let ?m = "example_manager DNSRefreshTTL" and ?c = example_call and ?a = example_answered
  let ?reply = "Inr ([AddrV4 192 0 2 1], 3)"
  have 7: "dns_step (example_system [InFlight ?c, InFlight ?c] [''h'']) [Replied ''h'' ?reply]
      (example_system [Answered ?a, Answered ?a] [])"
    using dy_reply [of "''h''" "example_system [InFlight ?c, InFlight ?c] [''h'']" ?reply "{0, 1}" 1]
    by (simp add: example_system_def deliver_def deliver_to_def upt_rec example_call_def example_answered_def example_env_def)
  obtain m r where s: "settle_section ?a ?m = Some (m, r)" "snd r = None" "mgr_policy m = mgr_policy ?m"
    by (simp add: settle_section_def example_answered_def example_call_def lookup_closure_def resolve_defs)
  have 8: "dns_step (example_system [Answered ?a, Answered ?a] []) []
      \<lparr>dy_mgr = m, dy_flights = [], dy_callers = [Resolved ?a r, Answered ?a]\<rparr>"
    using dy_settle [of 0 "example_system [Answered ?a, Answered ?a] []" ?a m r] s(1) by (simp add: example_system_def)
  have "dns_run (new_system ?m) [Started ''h'', Replied ''h'' ?reply]
      \<lparr>dy_mgr = m, dy_flights = [], dy_callers = [Resolved ?a r, Answered ?a]\<rparr>"
    using dy_step [OF dy_step [OF example_flight 7] 8] by simp
  with s(2,3) show ?thesis by blast
qed

section \<open>Properties\<close>

text \<open>
  C5. Interleaved requests are as safe as single ones. In every run of any number of requests on a new
  manager, in a mode that looks names up, an outcome without an error dials the first of the
  addresses it reports, and these were all brought by replies of the resolver; in TTL mode it reports
  an expiry that has not passed at the time of its request, unless it is a fallback; and no critical
  section can panic, in particular none indexes into an empty list of addresses.
\<close>

theorem concurrent_calls_safe:
  assumes "lookup_mode (pol_Mode policy)"
    and "dns_run (new_system (newDNSPolicyManager policy hook)) es s"
  shows "(\<forall>c r. Resolved c r \<in> set (dy_callers s) \<or> Departed c r \<in> set (dy_callers s) \<longrightarrow>
       (snd r = None \<longrightarrow> (\<exists>addrs. dials (fst r) addrs (cl_host c) (cl_port c) \<and> set addrs \<subseteq> replied es)) \<and>
       (pol_Mode (mgr_policy (dy_mgr s)) = DNSRefreshTTL \<longrightarrow> fresh_at (le_now (cl_env c)) r)) \<and>
    (\<forall>c. enter_section c (dy_mgr s) \<noteq> None \<and> settle_section c (dy_mgr s) \<noteq> None)"
proof -
  have ok: "system_ok (replied es) s" using answers.always [OF assms(2)] new_system_ok [OF assms(1)] by simp
  have mode: "lookup_mode (pol_Mode (mgr_policy (dy_mgr s)))" by (rule system_okD(1) [OF ok])
  have "caller_ok (replied es) (dy_mgr s) cl" if "cl \<in> set (dy_callers s)" for cl
    using ok that by (simp add: system_ok_def)
  then have "dials_among (replied es) c r \<and> fresh_result (dy_mgr s) c r"
    if "Resolved c r \<in> set (dy_callers s) \<or> Departed c r \<in> set (dy_callers s)" for c r
    using that by (fastforce simp: caller_ok_def)
  then show ?thesis
    using enter_section_total settle_section_total [OF mode] unfolding dials_among_def fresh_result_def by metis
qed

theorem concurrent_calls_safe_witness:
  "\<exists>r addrs. dials (fst r) addrs ''h'' ''80'' \<and> set addrs \<subseteq> {AddrV4 192 0 2 1} \<and> fresh_at (Instant 5) r"
proof -
  obtain m r where s: "snd r = None" "mgr_policy m = mgr_policy (example_manager DNSRefreshTTL)"
    "dns_run (new_system (example_manager DNSRefreshTTL)) [Started ''h'', Replied ''h'' (Inr ([AddrV4 192 0 2 1], 3))]
       \<lparr>dy_mgr = m, dy_flights = [], dy_callers = [Resolved example_answered r, Answered example_answered]\<rparr>"
    using example_settled by blast
  have mode: "lookup_mode (pol_Mode (zero_policy\<lparr>pol_Mode := DNSRefreshTTL, pol_Cadence := 10\<rparr>))"
    by (simp add: lookup_mode_def)
  from concurrent_calls_safe [OF mode s(3) [unfolded example_manager_def], THEN conjunct1, rule_format,
      of example_answered r] s(1,2)
  obtain addrs where "dials (fst r) addrs ''h'' ''80''" "set addrs \<subseteq> {AddrV4 192 0 2 1}" "fresh_at (Instant 5) r"
    by (auto simp: example_answered_def example_call_def)
  then show ?thesis by blast
qed

text \<open>Triggers raised and consumed.\<close>

definition count :: "(dns_event \<Rightarrow> bool) \<Rightarrow> dns_event list \<Rightarrow> nat" where
  "count P es = length (filter P es)"

lemma count_simps [simp]:
  "count P [] = 0"
  "count P (e # es) = (if P e then Suc (count P es) else count P es)"
  "count P (es @ fs) = count P es + count P fs"
  by (simp_all add: count_def)

lemma observe_triggered:
  "gr_triggered (mgr_guard m) \<Longrightarrow> gr_triggered (mgr_guard (observeResult m now code err))"
  by (auto simp: observeResult_def registerGuardFailure_def resetGuard_def guard_window_def Let_def)

definition guard_flag_ok :: "dns_event list \<Rightarrow> dns_system \<Rightarrow> bool" where
  "guard_flag_ok es s \<longleftrightarrow>
     count (\<lambda>e. e = Raised) es = count (\<lambda>e. e = Consumed) es + of_bool (gr_triggered (mgr_guard (dy_mgr s))) \<and>
     (gr_triggered (mgr_guard (dy_mgr s)) \<longrightarrow> grp_Action (gr_policy (mgr_guard (dy_mgr s))) \<noteq> DNSGuardRailActionNone)"

lemma observe_raised:
  assumes "gr_triggered (mgr_guard (observeResult m now code err))" "\<not> gr_triggered (mgr_guard m)"
  shows "grp_Action (gr_policy (mgr_guard m)) \<noteq> DNSGuardRailActionNone"
  using assms by (auto simp: observeResult_def guard_Enabled_def resetGuard_def split: if_splits)

lemma enter_section_guard:
  assumes "enter_section c m = Some (m', cl)"
  shows "mgr_guard m' = mgr_guard m"
proof (cases "lookup_mode (pol_Mode (mgr_policy m))")
  case True
  then show ?thesis using assms by (auto simp: enter_section_def lookup_mode_def Let_def run_iff split: if_splits)
next
  case False
  then show ?thesis using assms mgr_resolve_returns [of m "cl_env c" "cl_host c" "cl_port c"]
    by (auto simp: enter_section_def lookup_mode_def Let_def run_iff split: DNSRefreshMode.splits)
qed

lemma settle_section_guard:
  assumes "settle_section c m = Some (m', r)"
  shows "mgr_guard m' = mgr_guard m"
  using assms by (auto simp: settle_section_def Let_def run_iff split: DNSRefreshMode.splits sum.splits)

lemma leave_section_flag:
  assumes "leave_section r m = (b, m')"
  shows "gr_policy (mgr_guard m') = gr_policy (mgr_guard m)"
    and "b \<longleftrightarrow> gr_triggered (mgr_guard m) \<and> \<not> gr_triggered (mgr_guard m') \<and>
      grp_Action (gr_policy (mgr_guard m)) \<noteq> DNSGuardRailActionNone"
    and "gr_triggered (mgr_guard m') \<Longrightarrow> gr_triggered (mgr_guard m)"
    and "gr_triggered (mgr_guard m) \<Longrightarrow> \<not> gr_triggered (mgr_guard m') \<Longrightarrow>
      grp_Action (gr_policy (mgr_guard m)) \<noteq> DNSGuardRailActionNone \<Longrightarrow> b"
  using assms
  by (auto simp: leave_section_def consumeGuardTrigger_def store_decision_def split: prod.splits option.splits if_splits)

lemma step_guard_flag_ok:
  assumes "dns_step s fs s'" "guard_flag_ok es s"
  shows "guard_flag_ok (es @ fs) s'"
  using assms(1)
proof cases
  case (dy_enter i c m cl)
  then show ?thesis using assms(2) enter_section_guard [OF dy_enter(5)] by (simp add: guard_flag_ok_def)
next
  case (dy_settle i c m r)
  then show ?thesis using assms(2) settle_section_guard [OF dy_settle(5)] by (simp add: guard_flag_ok_def)
next
  case (dy_leave i c r consumed m)
  note f = leave_section_flag [OF dy_leave(5)]
  show ?thesis
    using dy_leave assms(2) f by (auto simp: guard_flag_ok_def of_bool_def)
next
  case (dy_observe m now code err)
  then show ?thesis
    using assms(2) observe_triggered [of "dy_mgr s" now code err] observe_raised [of "dy_mgr s" now code err]
    by (auto simp: guard_flag_ok_def of_bool_def)
qed (use assms(2) in \<open>auto simp: guard_flag_ok_def\<close>)

interpretation guard_flag: run_invariant dns_step guard_flag_ok
  by unfold_locales (rule step_guard_flag_ok)

text \<open>
  C20. A guard-rail trigger acts once: in every run on a new manager, the triggers raised by failures
  are those consumed by a request, plus one exactly while the flag is up. So no trigger is lost
  between the requests, and none flushes the connections of two of them.
\<close>

theorem guard_trigger_once:
  assumes "dns_run (new_system (newDNSPolicyManager policy hook)) es s"
  shows "count (\<lambda>e. e = Raised) es =
    count (\<lambda>e. e = Consumed) es + of_bool (gr_triggered (mgr_guard (dy_mgr s)))"
proof -
  have "guard_flag_ok es s"
    by (rule guard_flag.always [OF assms]) (simp add: guard_flag_ok_def new_system_def newDNSPolicyManager_def)
  then show ?thesis by (simp add: guard_flag_ok_def)
qed

theorem guard_trigger_once_witness:
  "\<exists>s. gr_triggered (mgr_guard (dy_mgr s)) \<and> count (\<lambda>e. e = Raised) [Raised] = 1 \<and>
     dns_run (new_system (newDNSPolicyManager (zero_policy\<lparr>pol_GuardRail := \<lparr>grp_ConsecutiveErrorThreshold = 1,
       grp_Window = 0, grp_Action = DNSGuardRailActionFlush\<rparr>\<rparr>) False)) [Raised] s"
proof -
  let ?p = "zero_policy\<lparr>pol_GuardRail := \<lparr>grp_ConsecutiveErrorThreshold = 1, grp_Window = 0, grp_Action = DNSGuardRailActionFlush\<rparr>\<rparr>"
  let ?m = "newDNSPolicyManager ?p False"
  let ?m1 = "observeResult ?m (Instant 5) 503 None"
  have t: "gr_triggered (mgr_guard ?m1)" "\<not> gr_triggered (mgr_guard ?m)"
    by (simp_all add: observeResult_def registerGuardFailure_def guard_window_def newDNSPolicyManager_def
        guard_Enabled_def serverErrorThreshold_def wrap64_def Let_def)
  have "dns_run (new_system ?m) ([] @ [Raised]) ((new_system ?m)\<lparr>dy_mgr := ?m1\<rparr>)"
    using dy_step [OF dy_refl dy_observe [of ?m1 "new_system ?m" "Instant 5" 503 None]] t by (simp add: new_system_def)
  then have r: "dns_run (new_system ?m) [Raised] ((new_system ?m)\<lparr>dy_mgr := ?m1\<rparr>)" by simp
  from guard_trigger_once [OF r] t(1) show ?thesis by (intro exI [of _ "(new_system ?m)\<lparr>dy_mgr := ?m1\<rparr>"]) (simp add: r)
qed

end
