(* ===== verification/Timing.thy ===== *)
theory Timing
  imports Go_Errors "HOL-Library.Word"
begin

text \<open>
  \<^verbatim>\<open>timing.go\<close> and the trace of \<^verbatim>\<open>task_http.go\<close>: the timestamps of the phases of a request, the
  callbacks of \<^verbatim>\<open>httptrace\<close> that store them, and the durations computed from them. A duration that
  the code leaves \<^verbatim>\<open>nil\<close> is \<open>None\<close>.
\<close>

section \<open>Definitions\<close>

record requestTimestamps =
  ts_start :: gotime
  ts_dnsStart :: gotime
  ts_dnsDone :: gotime
  ts_connStart :: gotime
  ts_connDone :: gotime
  ts_tlsStart :: gotime
  ts_tlsDone :: gotime
  ts_wroteDone :: gotime
  ts_firstByte :: gotime
  ts_dataDone :: gotime

definition zero_timestamps :: requestTimestamps where
  "zero_timestamps =
     \<lparr>ts_start = zero_time, ts_dnsStart = zero_time, ts_dnsDone = zero_time, ts_connStart = zero_time,
      ts_connDone = zero_time, ts_tlsStart = zero_time, ts_tlsDone = zero_time, ts_wroteDone = zero_time,
      ts_firstByte = zero_time, ts_dataDone = zero_time\<rparr>"

text \<open>The same phases as atomic values, shared with the callbacks of the trace.\<close>

record traceTimes =
  tt_start :: gotime
  tt_dnsStart :: gotime
  tt_dnsDone :: gotime
  tt_connStart :: gotime
  tt_connDone :: gotime
  tt_tlsStart :: gotime
  tt_tlsDone :: gotime
  tt_wroteDone :: gotime
  tt_firstByte :: gotime
  tt_dataDone :: gotime

definition zero_trace :: traceTimes where
  "zero_trace =
     \<lparr>tt_start = zero_time, tt_dnsStart = zero_time, tt_dnsDone = zero_time, tt_connStart = zero_time,
      tt_connDone = zero_time, tt_tlsStart = zero_time, tt_tlsDone = zero_time, tt_wroteDone = zero_time,
      tt_firstByte = zero_time, tt_dataDone = zero_time\<rparr>"

definition Snapshot :: "traceTimes \<Rightarrow> requestTimestamps" where
  "Snapshot t =
     \<lparr>ts_start = tt_start t, ts_dnsStart = tt_dnsStart t, ts_dnsDone = tt_dnsDone t,
      ts_connStart = tt_connStart t, ts_connDone = tt_connDone t, ts_tlsStart = tt_tlsStart t,
      ts_tlsDone = tt_tlsDone t, ts_wroteDone = tt_wroteDone t, ts_firstByte = tt_firstByte t,
      ts_dataDone = tt_dataDone t\<rparr>"

record RequestTimes =
  qt_SentAt :: gotime
  qt_ReceivedAt :: gotime
  qt_Latency :: duration
  qt_RequestTimeTotal :: "duration option"
  qt_DNSLookup :: "duration option"
  qt_TCPConnect :: "duration option"
  qt_TLSHandshake :: "duration option"
  qt_ServerProcessing :: "duration option"
  qt_DataTransfer :: "duration option"

text \<open>The guarded difference \<^verbatim>\<open>if !from.IsZero() && !to.IsZero() { ptr(to.Sub(from)) }\<close>.\<close>

definition span :: "gotime \<Rightarrow> gotime \<Rightarrow> duration option" where
  "span from to = (if \<not> time_IsZero from \<and> \<not> time_IsZero to then Some (time_Sub to from) else None)"

definition TimeDataFromTimestamps :: "requestTimestamps \<Rightarrow> RequestTimes" where
  "TimeDataFromTimestamps t =
     \<lparr>qt_SentAt = ts_start t,
      qt_ReceivedAt = ts_firstByte t,
      qt_Latency = (if \<not> time_IsZero (ts_start t) \<and> \<not> time_IsZero (ts_firstByte t)
                    then time_Sub (ts_firstByte t) (ts_start t) else 0),
      qt_RequestTimeTotal = span (ts_start t) (ts_dataDone t),
      qt_DNSLookup = span (ts_dnsStart t) (ts_dnsDone t),
      qt_TCPConnect = span (ts_connStart t) (ts_connDone t),
      qt_TLSHandshake = span (ts_tlsStart t) (ts_tlsDone t),
      qt_ServerProcessing = span (ts_wroteDone t) (ts_firstByte t),
      qt_DataTransfer = span (ts_firstByte t) (ts_dataDone t)\<rparr>"

definition zero_request_times :: RequestTimes where
  "zero_request_times =
     \<lparr>qt_SentAt = zero_time, qt_ReceivedAt = zero_time, qt_Latency = 0, qt_RequestTimeTotal = None,
      qt_DNSLookup = None, qt_TCPConnect = None, qt_TLSHandshake = None, qt_ServerProcessing = None,
      qt_DataTransfer = None\<rparr>"

text \<open>
  The callbacks of \<^verbatim>\<open>traceRequest\<close>. \<open>GotConn\<close> carries the connection's remote address, if there is
  a connection; the channel it is sent on holds one address, and a send to a full channel is
  dropped.
\<close>

datatype trace_event =
  GetConn | GotConn "string option" | DNSStart | DNSDone | ConnectStart | ConnectDone
| TLSHandshakeStart | TLSHandshakeDone | WroteRequest | GotFirstResponseByte

record trace_state =
  trs_times :: traceTimes
  trs_addrChan :: "string option"

definition addr_send :: "string option \<Rightarrow> string option \<Rightarrow> string option" where
  "addr_send addr ch = (case (addr, ch) of (Some a, None) \<Rightarrow> Some a | _ \<Rightarrow> ch)"

definition traceRequest :: "trace_state \<Rightarrow> trace_event \<times> gotime \<Rightarrow> trace_state" where
  "traceRequest s ev =
     (case ev of (e, now) \<Rightarrow>
        let t = trs_times s in
        (case e of
           GetConn \<Rightarrow> s\<lparr>trs_times := t\<lparr>tt_start := now\<rparr>\<rparr>
         | GotConn addr \<Rightarrow> s\<lparr>trs_addrChan := addr_send addr (trs_addrChan s)\<rparr>
         | DNSStart \<Rightarrow> s\<lparr>trs_times := t\<lparr>tt_dnsStart := now\<rparr>\<rparr>
         | DNSDone \<Rightarrow> s\<lparr>trs_times := t\<lparr>tt_dnsDone := now\<rparr>\<rparr>
         | ConnectStart \<Rightarrow> s\<lparr>trs_times := t\<lparr>tt_connStart := now\<rparr>\<rparr>
         | ConnectDone \<Rightarrow> s\<lparr>trs_times := t\<lparr>tt_connDone := now\<rparr>\<rparr>
         | TLSHandshakeStart \<Rightarrow> s\<lparr>trs_times := t\<lparr>tt_tlsStart := now\<rparr>\<rparr>
         | TLSHandshakeDone \<Rightarrow> s\<lparr>trs_times := t\<lparr>tt_tlsDone := now\<rparr>\<rparr>
         | WroteRequest \<Rightarrow> s\<lparr>trs_times := t\<lparr>tt_wroteDone := now\<rparr>\<rparr>
         | GotFirstResponseByte \<Rightarrow> s\<lparr>trs_times := t\<lparr>tt_firstByte := now\<rparr>\<rparr>))"

definition new_trace :: trace_state where
  "new_trace = \<lparr>trs_times = zero_trace, trs_addrChan = None\<rparr>"

definition run_trace :: "(trace_event \<times> gotime) list \<Rightarrow> trace_state" where
  "run_trace evs = foldl traceRequest new_trace evs"

section \<open>Lemmas\<close>

lemma span_Some [simp]: "0 < nanos a \<Longrightarrow> 0 < nanos b \<Longrightarrow> span a b = Some (time_Sub b a)"
  by (simp add: span_def time_IsZero_nanos)

lemma span_zero [simp]: "span zero_time b = None" "span a zero_time = None"
  by (simp_all add: span_def)

lemma time_Sub_nonneg: "a \<le> b \<Longrightarrow> 0 \<le> time_Sub b a"
  by (simp add: time_Sub_def less_eq_gotime_def)

text \<open>Consecutive spans add up, as long as the whole span fits into 64 bits.\<close>

lemma time_Sub_trans:
  assumes "a \<le> b" and "b \<le> c" and "in64 (nanos c - nanos a)"
  shows "time_Sub b a + time_Sub c b = time_Sub c a"
proof -
  have "in64 (nanos b - nanos a)" "in64 (nanos c - nanos b)"
    using assms by (auto simp: in64_def less_eq_gotime_def)
  with assms(3) show ?thesis by (simp add: time_Sub_def clamp64_id)
qed

text \<open>The time of the last event of a kind.\<close>

definition last_time :: "trace_event \<Rightarrow> (trace_event \<times> gotime) list \<Rightarrow> gotime" where
  "last_time e evs = (case filter (\<lambda>ev. fst ev = e) (rev evs) of [] \<Rightarrow> zero_time | ev # _ \<Rightarrow> snd ev)"

lemma last_time_simps [simp]:
  "last_time e [] = zero_time"
  "last_time e (evs @ [(e', now)]) = (if e' = e then now else last_time e evs)"
  by (simp_all add: last_time_def)

lemma last_time_mem: "last_time e evs = zero_time \<or> (e, last_time e evs) \<in> set evs"
  by (induction evs rule: rev_induct) (auto split: if_splits)

lemma run_trace_times:
  "Snapshot (trs_times (run_trace evs)) =
     \<lparr>ts_start = last_time GetConn evs, ts_dnsStart = last_time DNSStart evs,
      ts_dnsDone = last_time DNSDone evs, ts_connStart = last_time ConnectStart evs,
      ts_connDone = last_time ConnectDone evs, ts_tlsStart = last_time TLSHandshakeStart evs,
      ts_tlsDone = last_time TLSHandshakeDone evs, ts_wroteDone = last_time WroteRequest evs,
      ts_firstByte = last_time GotFirstResponseByte evs, ts_dataDone = zero_time\<rparr>"
proof (induction evs rule: rev_induct)
  case Nil
  show ?case by (simp add: run_trace_def new_trace_def zero_trace_def Snapshot_def)
next
  case (snoc ev evs)
  obtain e now where "ev = (e, now)" by (cases ev)
  with snoc show ?case
    by (cases e) (simp_all add: run_trace_def traceRequest_def Snapshot_def)
qed

text \<open>The address that is reported: the first connection's.\<close>

fun first_addr :: "(trace_event \<times> gotime) list \<Rightarrow> string option" where
  "first_addr [] = None"
| "first_addr ((GotConn (Some a), _) # evs) = Some a"
| "first_addr (_ # evs) = first_addr evs"

lemma first_addr_Cons:
  "first_addr (ev # evs) = (case first_addr [ev] of Some a \<Rightarrow> Some a | None \<Rightarrow> first_addr evs)"
  by (cases "(ev # evs)" rule: first_addr.cases) simp_all

lemma traceRequest_addr:
  "trs_addrChan (traceRequest s ev) =
     (case trs_addrChan s of Some a \<Rightarrow> Some a | None \<Rightarrow> first_addr [ev])"
  by (cases "[ev]" rule: first_addr.cases)
    (simp_all add: traceRequest_def addr_send_def Let_def split: option.split)

lemma foldl_trace_addr:
  "trs_addrChan (foldl traceRequest s evs) =
     (case trs_addrChan s of Some a \<Rightarrow> Some a | None \<Rightarrow> first_addr evs)"
proof (induction evs arbitrary: s)
  case (Cons ev evs)
  show ?case unfolding foldl_Cons Cons.IH traceRequest_addr first_addr_Cons [of ev evs]
    by (simp split: option.split)
qed (simp split: option.split)

section \<open>Properties\<close>

text \<open>
  The trace of a request: after any sequence of callbacks, each timestamp is the time of the
  last callback of its kind (so that on a redirect the last hop's times remain, while the remote
  address is the first hop's), and a duration is reported exactly if both of its ends were seen.
\<close>

theorem trace_times_last:
  "Snapshot (trs_times (run_trace evs)) =
     \<lparr>ts_start = last_time GetConn evs, ts_dnsStart = last_time DNSStart evs,
      ts_dnsDone = last_time DNSDone evs, ts_connStart = last_time ConnectStart evs,
      ts_connDone = last_time ConnectDone evs, ts_tlsStart = last_time TLSHandshakeStart evs,
      ts_tlsDone = last_time TLSHandshakeDone evs, ts_wroteDone = last_time WroteRequest evs,
      ts_firstByte = last_time GotFirstResponseByte evs, ts_dataDone = zero_time\<rparr> \<and>
   trs_addrChan (run_trace evs) = first_addr evs"
  using run_trace_times [of evs] foldl_trace_addr [of new_trace evs]
  by (simp add: run_trace_def new_trace_def)

text \<open>
  The reported times fit together: if a response's first byte came no earlier than its
  start and its data was complete no earlier than the first byte, then latency and transfer time
  are not negative and add up to the total time.
\<close>

theorem times_add_up:
  assumes "0 < nanos (ts_start t)" and "ts_start t \<le> ts_firstByte t" and "ts_firstByte t \<le> ts_dataDone t"
    and "in64 (nanos (ts_dataDone t) - nanos (ts_start t))"
  shows "\<exists>transfer total. qt_DataTransfer (TimeDataFromTimestamps t) = Some transfer \<and>
    qt_RequestTimeTotal (TimeDataFromTimestamps t) = Some total \<and>
    0 \<le> qt_Latency (TimeDataFromTimestamps t) \<and> 0 \<le> transfer \<and>
    qt_Latency (TimeDataFromTimestamps t) + transfer = total"
  using assms time_Sub_trans [OF assms(2-4)] time_Sub_nonneg [OF assms(2)] time_Sub_nonneg [OF assms(3)]
  by (auto simp: TimeDataFromTimestamps_def time_IsZero_nanos less_eq_gotime_def)

theorem times_add_up_witness:
  "qt_Latency (TimeDataFromTimestamps (zero_timestamps\<lparr>ts_start := Instant 5, ts_firstByte := Instant 8,
     ts_dataDone := Instant 9\<rparr>)) \<ge> 0"
  using times_add_up [of "zero_timestamps\<lparr>ts_start := Instant 5, ts_firstByte := Instant 8,
     ts_dataDone := Instant 9\<rparr>"]
  by (auto simp: less_eq_gotime_def in64_def)

end
