(* ===== verification/Response.thy ===== *)
theory Response
  imports Timing HTTP_Model
begin

text \<open>
  \<^verbatim>\<open>response.go\<close> and the \<^verbatim>\<open>timedReadCloser\<close> of \<^verbatim>\<open>timing.go\<close>: the responses that watchers send,
  with the operations of the three kinds of payload, and the contract \<open>task_response\<close> of
  \<^verbatim>\<open>TaskResponse.Data\<close> and \<^verbatim>\<open>Reader\<close>, interpreted on all three.

  An operation takes the payload and gives its result beside the payload it leaves; \<open>None\<close> is a
  panic (a \<^verbatim>\<open>nil\<close> response). A \<^verbatim>\<open>nil\<close> byte slice is the empty list.
\<close>

section \<open>Metadata\<close>

record DNSMetadata =
  dm_Mode :: DNSRefreshMode
  dm_TTL :: duration
  dm_ExpiresAt :: gotime
  dm_ResolvedAddrs :: "netip_addr list"
  dm_LookupDuration :: duration
  dm_GuardRailTriggered :: bool
  dm_FallbackUsed :: bool
  dm_Err :: go_err

record TaskResponseMetadata =
  md_RemoteAddr :: "string option"
  md_StatusCode :: int
  md_Headers :: header
  md_Size :: int
  md_TimeData :: RequestTimes
  md_DNS :: "DNSMetadata option"

definition zero_metadata :: TaskResponseMetadata where
  "zero_metadata =
     \<lparr>md_RemoteAddr = None, md_StatusCode = 0, md_Headers = [], md_Size = 0,
      md_TimeData = zero_request_times, md_DNS = None\<rparr>"

definition dns_metadata :: "DNSDecision \<Rightarrow> DNSMetadata" where
  "dns_metadata d =
     \<lparr>dm_Mode = dec_Mode d, dm_TTL = dec_TTL d, dm_ExpiresAt = dec_ExpiresAt d,
      dm_ResolvedAddrs = dec_ResolvedAddrs d, dm_LookupDuration = dec_LookupDuration d,
      dm_GuardRailTriggered = dec_GuardRailTriggered d, dm_FallbackUsed = dec_FallbackUsed d,
      dm_Err = dec_Err d\<rparr>"

section \<open>HTTP responses\<close>

record httpTaskResponse =
  h_remoteAddr :: "string option"
  h_resp :: "http_response option"
  h_once :: bool
  h_dataOnce :: bool
  h_data :: bytes
  h_dataErr :: go_err
  h_timestamps :: requestTimestamps
  h_dnsDecision :: "DNSDecision option"
  h_usedReader :: bool

definition newHTTPTaskResponse :: "string option \<Rightarrow> http_response option \<Rightarrow> httpTaskResponse" where
  "newHTTPTaskResponse remoteAddr r =
     \<lparr>h_remoteAddr = remoteAddr, h_resp = r, h_once = False, h_dataOnce = False, h_data = [],
      h_dataErr = None, h_timestamps = zero_timestamps,
      h_dnsDecision = do { rs \<leftarrow> r; req \<leftarrow> rs_Request rs; ctx_decision (rq_ctx req) },
      h_usedReader = False\<rparr>"

definition set_body :: "http_response \<Rightarrow> body \<Rightarrow> httpTaskResponse \<Rightarrow> httpTaskResponse" where
  "set_body rs b h = h\<lparr>h_resp := Some (rs\<lparr>rs_Body := Some b\<rparr>)\<rparr>"

definition body_nil :: go_error where
  "body_nil = ErrorString ''http.Response.Body is nil''"

definition readBody :: "gotime \<Rightarrow> httpTaskResponse \<Rightarrow> httpTaskResponse option" where
  "readBody now h = do {
     rs \<leftarrow> h_resp h;
     Some (case rs_Body rs of
         None \<Rightarrow> h\<lparr>h_dataErr := Some body_nil\<rparr>
       | Some b \<Rightarrow>
           (case io_ReadAll b of
              (bs, Some e, b1) \<Rightarrow> set_body rs (snd (body_Close (io_Drain b1))) (h\<lparr>h_dataErr := Some e\<rparr>)
            | (bs, None, b1) \<Rightarrow>
                set_body rs (snd (body_Close b1))
                  (h\<lparr>h_data := bs, h_dataOnce := True,
                     h_timestamps := (h_timestamps h)\<lparr>ts_dataDone := now\<rparr>\<rparr>))) }"

definition http_Close :: "httpTaskResponse \<Rightarrow> (go_err \<times> httpTaskResponse) option" where
  "http_Close h = do {
     rs \<leftarrow> h_resp h;
     Some (case rs_Body rs of
         None \<Rightarrow> (None, h)
       | Some b \<Rightarrow> (let (err, b1) = body_Close b in (err, set_body rs b1 h))) }"

definition data_after_reader :: go_error where
  "data_after_reader = ErrorString ''cannot call Data() after Reader() was already used''"

definition http_Data :: "gotime \<Rightarrow> httpTaskResponse \<Rightarrow> ((bytes \<times> go_err) \<times> httpTaskResponse) option" where
  "http_Data now h =
     (if h_usedReader h then Some (([], Some data_after_reader), h)
      else do {
        h1 \<leftarrow> (if h_once h then Some h else readBody now (h\<lparr>h_once := True\<rparr>));
        Some ((h_data h1, h_dataErr h1), h1) })"

text \<open>
  What \<^verbatim>\<open>Reader\<close> hands out: bytes in memory, or the response's own body in a \<^verbatim>\<open>timedReadCloser\<close>,
  with the state of its \<^verbatim>\<open>once\<close>.
\<close>

datatype reader = MemReader bytes | TimedReader bool

definition dataDone :: "httpTaskResponse \<Rightarrow> bool" where
  [simp]: "dataDone h = h_dataOnce h"

definition http_Reader :: "httpTaskResponse \<Rightarrow> ((reader option \<times> go_err) \<times> httpTaskResponse) option" where
  "http_Reader h =
     (if dataDone h then
        Some (if h_dataErr h \<noteq> None then ((None, h_dataErr h), h) else ((Some (MemReader (h_data h)), None), h))
      else if h_usedReader h then Some ((None, Some (ErrorString ''reader already called'')), h)
      else do {
        rs \<leftarrow> h_resp h;
        Some (case rs_Body rs of
            None \<Rightarrow> ((None, Some body_nil), h\<lparr>h_usedReader := True\<rparr>)
          | Some b \<Rightarrow> ((Some (TimedReader False), None), h\<lparr>h_usedReader := True\<rparr>)) })"

definition timestamp_done :: "gotime \<Rightarrow> httpTaskResponse \<Rightarrow> httpTaskResponse" where
  "timestamp_done now h =
     (if time_IsZero (ts_dataDone (h_timestamps h))
      then h\<lparr>h_timestamps := (h_timestamps h)\<lparr>ts_dataDone := now\<rparr>\<rparr> else h)"

text \<open>\<^verbatim>\<open>Read\<close> and \<^verbatim>\<open>Close\<close> of the \<^verbatim>\<open>timedReadCloser\<close>; the first argument is its \<^verbatim>\<open>once\<close>.\<close>

definition timed_Read ::
    "gotime \<Rightarrow> nat \<Rightarrow> bool \<Rightarrow> bool \<Rightarrow> httpTaskResponse \<Rightarrow> ((bytes \<times> go_err) \<times> bool \<times> httpTaskResponse) option" where
  "timed_Read now n eager once h = do {
     rs \<leftarrow> h_resp h;
     b \<leftarrow> rs_Body rs;
     let (bs, err, b1) = body_Read n eager b in
     let h1 = set_body rs b1 h in
     Some ((bs, err),
       if err_Is err IoEOF \<and> \<not> once then (True, timestamp_done now h1) else (once, h1)) }"

definition timed_Close ::
    "gotime \<Rightarrow> bool \<Rightarrow> httpTaskResponse \<Rightarrow> (go_err \<times> bool \<times> httpTaskResponse) option" where
  "timed_Close now once h = do {
     rs \<leftarrow> h_resp h;
     b \<leftarrow> rs_Body rs;
     let (err, b1) = body_Close b in
     Some (err, True, set_body rs b1 (if once then h else timestamp_done now h)) }"

definition http_Metadata :: "httpTaskResponse \<Rightarrow> TaskResponseMetadata" where
  "http_Metadata h =
     (case h_resp h of
        None \<Rightarrow> zero_metadata
      | Some rs \<Rightarrow>
          let md = \<lparr>md_RemoteAddr = h_remoteAddr h, md_StatusCode = rs_StatusCode rs,
                md_Headers = rs_Header rs, md_Size = rs_ContentLength rs,
                md_TimeData = TimeDataFromTimestamps (h_timestamps h), md_DNS = None\<rparr>
          in case h_dnsDecision h of
               None \<Rightarrow> md
             | Some d \<Rightarrow>
                 let md1 = md\<lparr>md_DNS := Some (dns_metadata d)\<rparr>
                 in if qt_DNSLookup (md_TimeData md1) = None \<and> dec_LookupDuration d > 0
                    then md1\<lparr>md_TimeData := (md_TimeData md1)\<lparr>qt_DNSLookup := Some (dec_LookupDuration d)\<rparr>\<rparr>
                    else md1)"

section \<open>WebSocket and error responses\<close>

record wsTaskResponse =
  w_remoteAddr :: "string option"
  w_data :: bytes
  w_timestamps :: requestTimestamps

definition newWSTaskResponse :: "string option \<Rightarrow> bytes \<Rightarrow> wsTaskResponse" where
  "newWSTaskResponse remoteAddr data =
     \<lparr>w_remoteAddr = remoteAddr, w_data = data, w_timestamps = zero_timestamps\<rparr>"

definition ws_Data :: "wsTaskResponse \<Rightarrow> bytes \<times> go_err" where
  "ws_Data w = (w_data w, None)"

definition ws_Reader :: "wsTaskResponse \<Rightarrow> reader option \<times> go_err" where
  "ws_Reader w = (Some (MemReader (w_data w)), None)"

definition ws_Metadata :: "wsTaskResponse \<Rightarrow> TaskResponseMetadata" where
  "ws_Metadata w =
     zero_metadata\<lparr>md_RemoteAddr := w_remoteAddr w, md_Size := int (length (w_data w)),
       md_TimeData := TimeDataFromTimestamps (w_timestamps w)\<rparr>"

record httpTaskResponseError =
  he_dnsDecision :: "DNSDecision option"

definition error_Metadata :: "httpTaskResponseError \<Rightarrow> TaskResponseMetadata" where
  "error_Metadata h = zero_metadata\<lparr>md_DNS := map_option dns_metadata (he_dnsDecision h)\<rparr>"

section \<open>Watcher responses\<close>

text \<open>A payload is an interface value; its dynamic type is one of the three.\<close>

datatype TaskResponse =
  HTTPPayload httpTaskResponse | WSPayload wsTaskResponse | ErrorPayload httpTaskResponseError

definition payload_Close :: "TaskResponse \<Rightarrow> (go_err \<times> TaskResponse) option" where
  "payload_Close p =
     (case p of
        HTTPPayload h \<Rightarrow> map_option (\<lambda>(err, h1). (err, HTTPPayload h1)) (http_Close h)
      | WSPayload w \<Rightarrow> Some (None, p)
      | ErrorPayload e \<Rightarrow> Some (None, p))"

definition payload_Data :: "gotime \<Rightarrow> TaskResponse \<Rightarrow> ((bytes \<times> go_err) \<times> TaskResponse) option" where
  "payload_Data now p =
     (case p of
        HTTPPayload h \<Rightarrow> map_option (\<lambda>(r, h1). (r, HTTPPayload h1)) (http_Data now h)
      | WSPayload w \<Rightarrow> Some (ws_Data w, p)
      | ErrorPayload e \<Rightarrow> Some (([], None), p))"

definition payload_Reader :: "TaskResponse \<Rightarrow> ((reader option \<times> go_err) \<times> TaskResponse) option" where
  "payload_Reader p =
     (case p of
        HTTPPayload h \<Rightarrow> map_option (\<lambda>(r, h1). (r, HTTPPayload h1)) (http_Reader h)
      | WSPayload w \<Rightarrow> Some (ws_Reader w, p)
      | ErrorPayload e \<Rightarrow> Some ((None, None), p))"

definition payload_Metadata :: "TaskResponse \<Rightarrow> TaskResponseMetadata" where
  "payload_Metadata p =
     (case p of
        HTTPPayload h \<Rightarrow> http_Metadata h
      | WSPayload w \<Rightarrow> ws_Metadata w
      | ErrorPayload e \<Rightarrow> error_Metadata e)"

record WatcherResponse =
  wr_TaskID :: string
  wr_WatcherID :: string
  wr_URL :: "url option"
  wr_Err :: go_err
  wr_Payload :: "TaskResponse option"

definition errorResponse :: "go_error \<Rightarrow> string \<Rightarrow> string \<Rightarrow> url option \<Rightarrow> WatcherResponse" where
  "errorResponse err taskID watcherID reqURL =
     \<lparr>wr_TaskID = taskID, wr_WatcherID = watcherID, wr_URL = reqURL, wr_Err = Some err,
      wr_Payload = None\<rparr>"

definition no_payload :: go_error where
  "no_payload = ErrorString ''no payload''"

definition wr_Data :: "gotime \<Rightarrow> WatcherResponse \<Rightarrow> ((bytes \<times> go_err) \<times> WatcherResponse) option" where
  "wr_Data now wr =
     (if wr_Err wr \<noteq> None then Some (([], wr_Err wr), wr)
      else
        (case wr_Payload wr of
           None \<Rightarrow> Some (([], Some no_payload), wr)
         | Some p \<Rightarrow> map_option (\<lambda>(r, p1). (r, wr\<lparr>wr_Payload := Some p1\<rparr>)) (payload_Data now p)))"

definition wr_Metadata :: "WatcherResponse \<Rightarrow> TaskResponseMetadata" where
  "wr_Metadata wr = (case wr_Payload wr of None \<Rightarrow> zero_metadata | Some p \<Rightarrow> payload_Metadata p)"

definition wr_Reader :: "WatcherResponse \<Rightarrow> ((reader option \<times> go_err) \<times> WatcherResponse) option" where
  "wr_Reader wr =
     (if wr_Err wr \<noteq> None then Some ((None, wr_Err wr), wr)
      else
        (case wr_Payload wr of
           None \<Rightarrow> Some ((None, Some no_payload), wr)
         | Some p \<Rightarrow> map_option (\<lambda>(r, p1). (r, wr\<lparr>wr_Payload := Some p1\<rparr>)) (payload_Reader p)))"

section \<open>The contract of a task response\<close>

text \<open>
  \<^verbatim>\<open>Data\<close> reads the payload once: it returns in every state that satisfies the invariant, a
  second call gives the same result and changes nothing, and a \<^verbatim>\<open>Reader\<close> taken after a
  successful \<^verbatim>\<open>Data\<close> reads the same bytes from memory (the payload of an error has no reader).
\<close>

locale task_response =
  fixes inv :: "'s \<Rightarrow> bool"
    and data :: "gotime \<Rightarrow> 's \<Rightarrow> ((bytes \<times> go_err) \<times> 's) option"
    and reader :: "'s \<Rightarrow> ((reader option \<times> go_err) \<times> 's) option"
  assumes data_total: "inv s \<Longrightarrow> \<exists>r s'. data now s = Some (r, s') \<and> inv s'"
    and data_again: "inv s \<Longrightarrow> data now s = Some (r, s') \<Longrightarrow> data now' s' = Some (r, s')"
    and reader_after: "inv s \<Longrightarrow> data now s = Some ((bs, None), s') \<Longrightarrow>
      \<exists>rd. reader s' = Some ((rd, None), s') \<and> (rd = None \<or> rd = Some (MemReader bs))"

text \<open>A sequence of calls of \<^verbatim>\<open>Data\<close> at given times.\<close>

fun data_calls ::
    "(gotime \<Rightarrow> 's \<Rightarrow> ((bytes \<times> go_err) \<times> 's) option) \<Rightarrow> gotime list \<Rightarrow> 's \<Rightarrow> ((bytes \<times> go_err) list \<times> 's) option" where
  "data_calls data [] s = Some ([], s)"
| "data_calls data (now # nows) s = do {
     (r, s1) \<leftarrow> data now s;
     (rs, s2) \<leftarrow> data_calls data nows s1;
     Some (r # rs, s2) }"

context task_response
begin

lemma data_calls_again:
  "inv s \<Longrightarrow> data now s = Some (r, s') \<Longrightarrow> data_calls data nows s' = Some (replicate (length nows) r, s')"
proof (induction nows)
  case (Cons now' nows)
  from data_again [OF Cons.prems, of now'] Cons.IH [OF Cons.prems] show ?case by simp
qed simp

lemma data_calls_same:
  assumes "inv s"
  shows "\<exists>r s'. data now s = Some (r, s') \<and>
    data_calls data (now # nows) s = Some (replicate (Suc (length nows)) r, s') \<and>
    (snd r = None \<longrightarrow> (\<exists>rd. reader s' = Some ((rd, None), s') \<and> (rd = None \<or> rd = Some (MemReader (fst r)))))"
proof -
  obtain r s' where d: "data now s = Some (r, s')" using data_total [OF assms] by blast
  obtain bs err where r: "r = (bs, err)" by (cases r)
  have "\<exists>rd. reader s' = Some ((rd, None), s') \<and> (rd = None \<or> rd = Some (MemReader bs))" if "err = None"
    using reader_after [OF assms] d that r by auto
  with d data_calls_again [OF assms d, of nows] r show ?thesis by auto
qed

end

text \<open>The states of an HTTP response that the code can produce.\<close>

definition http_ok :: "httpTaskResponse \<Rightarrow> bool" where
  "http_ok h \<longleftrightarrow> h_resp h \<noteq> None \<and> (h_once h \<and> h_dataErr h = None \<longrightarrow> h_dataOnce h)"

lemma set_body_simps [simp]:
  "h_once (set_body rs b h) = h_once h" "h_dataOnce (set_body rs b h) = h_dataOnce h"
  "h_data (set_body rs b h) = h_data h" "h_dataErr (set_body rs b h) = h_dataErr h"
  "h_usedReader (set_body rs b h) = h_usedReader h" "h_timestamps (set_body rs b h) = h_timestamps h"
  "h_resp (set_body rs b h) = Some (rs\<lparr>rs_Body := Some b\<rparr>)"
  "h_dnsDecision (set_body rs b h) = h_dnsDecision h" "h_remoteAddr (set_body rs b h) = h_remoteAddr h"
  by (simp_all add: set_body_def)

lemma readBody_props:
  assumes "readBody now h = Some h1"
  shows "h_once h1 = h_once h \<and> h_usedReader h1 = h_usedReader h \<and> h_resp h1 \<noteq> None \<and>
    (h_dataErr h1 = None \<longrightarrow> h_dataOnce h1)"
proof -
  obtain rs where rs: "h_resp h = Some rs" using assms by (auto simp: readBody_def run_iff)
  show ?thesis
  proof (cases "rs_Body rs")
    case (Some b)
    obtain bs err b1 where "io_ReadAll b = (bs, err, b1)" by (metis prod_cases3)
    with assms rs Some show ?thesis by (cases err) (auto simp: readBody_def)
  qed (use assms rs in \<open>auto simp: readBody_def\<close>)
qed

lemma readBody_total: "h_resp h \<noteq> None \<Longrightarrow> readBody now h \<noteq> None"
  by (auto simp: readBody_def)

lemma readBody_status:
  assumes "readBody now h = Some h1" and "h_resp h = Some rs"
  shows "\<exists>rs1. h_resp h1 = Some rs1 \<and> rs_StatusCode rs1 = rs_StatusCode rs \<and> rs_Request rs1 = rs_Request rs"
proof (cases "rs_Body rs")
  case (Some b)
  obtain bs err b1 where "io_ReadAll b = (bs, err, b1)" by (metis prod_cases3)
  with assms Some show ?thesis by (cases err) (auto simp: readBody_def)
qed (use assms in \<open>auto simp: readBody_def\<close>)

lemma http_Data_props:
  assumes "http_ok h" and "http_Data now h = Some (r, h1)"
  shows "http_ok h1 \<and> http_Data now' h1 = Some (r, h1) \<and>
    (snd r = None \<longrightarrow> h_dataOnce h1 \<and> h_dataErr h1 = None \<and> h_data h1 = fst r)"
  using assms readBody_props [of now "h\<lparr>h_once := True\<rparr>"]
  by (auto simp: http_Data_def http_ok_def data_after_reader_def run_iff split: if_splits)

lemma http_Data_total: "http_ok h \<Longrightarrow> \<exists>r h1. http_Data now h = Some (r, h1)"
  using readBody_total [of "h\<lparr>h_once := True\<rparr>" now] by (auto simp: http_Data_def http_ok_def)

interpretation http: task_response http_ok http_Data http_Reader
proof
  show "\<exists>r s'. http_Data now s = Some (r, s') \<and> http_ok s'" if "http_ok s" for s now
    using that http_Data_props [OF that] http_Data_total [OF that] by blast
  show "http_Data now' s' = Some (r, s')" if "http_ok s" "http_Data now s = Some (r, s')" for s now r s' now'
    using http_Data_props [OF that] by blast
  show "\<exists>rd. http_Reader s' = Some ((rd, None), s') \<and> (rd = None \<or> rd = Some (MemReader bs))"
    if "http_ok s" "http_Data now s = Some ((bs, None), s')" for s now bs s'
    using http_Data_props [OF that] by (simp add: http_Reader_def)
qed

definition payload_ok :: "TaskResponse \<Rightarrow> bool" where
  "payload_ok p \<longleftrightarrow> (case p of HTTPPayload h \<Rightarrow> http_ok h | _ \<Rightarrow> True)"

interpretation payload: task_response payload_ok payload_Data payload_Reader
proof
  show "\<exists>r s'. payload_Data now s = Some (r, s') \<and> payload_ok s'" if "payload_ok s" for s now
    using that http.data_total [of _ now]
    by (cases s) (fastforce simp: payload_Data_def payload_ok_def)+
  show "payload_Data now' s' = Some (r, s')" if "payload_ok s" "payload_Data now s = Some (r, s')" for s now r s' now'
    using that by (cases s) (auto simp: payload_Data_def payload_ok_def dest: http.data_again)
  show "\<exists>rd. payload_Reader s' = Some ((rd, None), s') \<and> (rd = None \<or> rd = Some (MemReader bs))"
    if "payload_ok s" "payload_Data now s = Some ((bs, None), s')" for s now bs s'
    using that
    by (cases s) (auto simp: payload_Data_def payload_Reader_def payload_ok_def ws_Data_def ws_Reader_def
        dest: http.reader_after)
qed

definition wr_ok :: "WatcherResponse \<Rightarrow> bool" where
  "wr_ok wr \<longleftrightarrow> (case wr_Payload wr of None \<Rightarrow> True | Some p \<Rightarrow> payload_ok p)"

interpretation watcher: task_response wr_ok wr_Data wr_Reader
proof
  show "\<exists>r s'. wr_Data now s = Some (r, s') \<and> wr_ok s'" if "wr_ok s" for s now
    using that payload.data_total [of _ now]
    by (cases "wr_Payload s") (fastforce simp: wr_Data_def wr_ok_def)+
  show "wr_Data now' s' = Some (r, s')" if "wr_ok s" "wr_Data now s = Some (r, s')" for s now r s' now'
    using that payload.data_again [of _ now _ _ now']
    by (fastforce simp: wr_Data_def wr_ok_def split: option.splits if_splits)
  show "\<exists>rd. wr_Reader s' = Some ((rd, None), s') \<and> (rd = None \<or> rd = Some (MemReader bs))"
    if "wr_ok s" "wr_Data now s = Some ((bs, None), s')" for s now bs s'
    using that
    by (auto simp: wr_Data_def wr_Reader_def wr_ok_def dest: payload.reader_after split: option.splits if_splits)
qed

section \<open>Lemmas on bodies\<close>

text \<open>A response that has just been received, with a body.\<close>

definition fresh_http :: "http_response \<Rightarrow> body \<Rightarrow> httpTaskResponse \<Rightarrow> bool" where
  "fresh_http rs b h \<longleftrightarrow>
     h_resp h = Some rs \<and> rs_Body rs = Some b \<and> \<not> bd_closed b \<and>
     \<not> h_once h \<and> \<not> h_dataOnce h \<and> \<not> h_usedReader h \<and> h_dataErr h = None"

definition http_body :: "httpTaskResponse \<Rightarrow> body option" where
  "http_body h = Option.bind (h_resp h) rs_Body"

lemma http_body_set [simp]: "http_body (set_body rs b h) = Some b"
  by (simp add: http_body_def)

lemma readBody_fresh:
  assumes "fresh_http rs b h" and "bd_end b = Sentinel IoEOF"
  shows "readBody now (h\<lparr>h_once := o1\<rparr>) =
    Some (set_body rs (b\<lparr>bd_rest := [], bd_closed := True\<rparr>)
      (h\<lparr>h_once := o1, h_data := bd_rest b, h_dataOnce := True,
         h_timestamps := (h_timestamps h)\<lparr>ts_dataDone := now\<rparr>\<rparr>))"
  using assms by (simp add: readBody_def fresh_http_def io_ReadAll_def body_Close_def)

lemma readBody_fresh':
  assumes "fresh_http rs b h" and "bd_end b = Sentinel IoEOF"
  shows "readBody now h =
    Some (set_body rs (b\<lparr>bd_rest := [], bd_closed := True\<rparr>)
      (h\<lparr>h_data := bd_rest b, h_dataOnce := True,
         h_timestamps := (h_timestamps h)\<lparr>ts_dataDone := now\<rparr>\<rparr>))"
  using readBody_fresh [OF assms, of now "h_once h"] by simp

lemma http_Data_fresh:
  assumes "fresh_http rs b h"
  shows "\<exists>h1. http_Data now h =
      Some ((if bd_end b = Sentinel IoEOF then (bd_rest b, None) else (h_data h, Some (bd_end b))), h1) \<and>
    http_body h1 = Some (b\<lparr>bd_rest := [], bd_closed := True\<rparr>)"
  using assms
  by (simp add: http_Data_def readBody_def fresh_http_def io_ReadAll_def io_Drain_def body_Close_def)

section \<open>Streaming\<close>

text \<open>
  Reading the stream until a read reports an error: for each read the time, the bytes asked for
  and whether the end is reported at once.
\<close>

fun timed_loop ::
    "(gotime \<times> nat \<times> bool) list \<Rightarrow> bool \<Rightarrow> httpTaskResponse \<Rightarrow> bytes
       \<Rightarrow> (bytes \<times> go_error \<times> gotime \<times> bool \<times> httpTaskResponse) option" where
  "timed_loop [] once h acc = None"
| "timed_loop ((now, n, eager) # sched) once h acc = do {
     (r, once1, h1) \<leftarrow> timed_Read now n eager once h;
     (case r of
        (bs, Some e) \<Rightarrow> Some (acc @ bs, e, now, once1, h1)
      | (bs, None) \<Rightarrow> timed_loop sched once1 h1 (acc @ bs)) }"

lemma body_at_end: "bd_rest b = [] \<Longrightarrow> b\<lparr>bd_rest := []\<rparr> = b"
  by (cases b) simp

lemma timed_Read_step:
  assumes "h_resp h = Some rs" and "rs_Body rs = Some b" and "\<not> bd_closed b" and "bd_end b = Sentinel IoEOF"
  obtains (at_end) bs where "timed_Read now n eager False h =
      Some ((bs, Some (Sentinel IoEOF)), True, timestamp_done now (set_body rs (b\<lparr>bd_rest := []\<rparr>) h))"
      "bs = bd_rest b"
  | (more) "bd_rest b \<noteq> []" "timed_Read now n eager False h =
      Some ((take n (bd_rest b), None), False, set_body rs (b\<lparr>bd_rest := drop n (bd_rest b)\<rparr>) h)"
  using assms(3)
proof (cases rule: body_Read_cases [where n = n and eager = eager])
  case at_end
  with that(1) assms show thesis by (simp add: timed_Read_def body_at_end)
next
  case last
  with that(1) assms show thesis by (simp add: timed_Read_def)
next
  case more
  with that(2) assms show thesis by (simp add: timed_Read_def)
qed

lemma timestamp_done_simps [simp]:
  "h_usedReader (timestamp_done now h) = h_usedReader h"
  "h_resp (timestamp_done now h) = h_resp h"
  "h_dataOnce (timestamp_done now h) = h_dataOnce h"
  "http_body (timestamp_done now h) = http_body h"
  by (simp_all add: timestamp_done_def http_body_def)

lemma timed_loop_stream:
  assumes "h_resp h = Some rs" and "rs_Body rs = Some b" and "\<not> bd_closed b" and "bd_end b = Sentinel IoEOF"
    and "list_all (\<lambda>(now, n, eager). 0 < n) sched" and "length (bd_rest b) < length sched"
    and "ts_dataDone (h_timestamps h) = zero_time"
  shows "\<exists>now h'. timed_loop sched False h acc = Some (acc @ bd_rest b, Sentinel IoEOF, now, True, h') \<and>
    now \<in> fst ` set sched \<and> ts_dataDone (h_timestamps h') = now \<and> h_usedReader h' = h_usedReader h \<and>
    http_body h' \<noteq> None"
  using assms
proof (induction sched arbitrary: h rs b acc)
  case (Cons c sched)
  obtain now n eager where c: "c = (now, n, eager)" by (cases c)
  from Cons.prems(1-4) show ?case
  proof (cases rule: timed_Read_step [where now = now and n = n and eager = eager])
    case (at_end bs)
    with Cons.prems(7) c show ?thesis by (simp add: timestamp_done_def http_body_def)
  next
    case more
    let ?b = "b\<lparr>bd_rest := drop n (bd_rest b)\<rparr>"
    let ?h = "set_body rs ?b h"
    have "length (bd_rest ?b) < length sched"
      using more(1) Cons.prems(5,6) c by (cases "bd_rest b") auto
    from Cons.IH [of ?h "rs\<lparr>rs_Body := Some ?b\<rparr>" ?b "acc @ take n (bd_rest b)", OF _ _ _ _ _ this] Cons.prems
    obtain now' h' where "timed_loop sched False ?h (acc @ take n (bd_rest b)) =
        Some (acc @ take n (bd_rest b) @ drop n (bd_rest b), Sentinel IoEOF, now', True, h')"
      "now' \<in> fst ` set sched" "ts_dataDone (h_timestamps h') = now'" "h_usedReader h' = h_usedReader h"
      "http_body h' \<noteq> None"
      by auto
    with more c show ?thesis by auto
  qed
qed simp

section \<open>Properties\<close>


definition example_body :: body where
  "example_body = \<lparr>bd_rest = [104, 105], bd_end = Sentinel IoEOF, bd_closed = False, bd_closeErr = None\<rparr>"

definition example_http :: httpTaskResponse where
  "example_http = newHTTPTaskResponse None
     (Some \<lparr>rs_StatusCode = 200, rs_Header = [], rs_ContentLength = 2, rs_Body = Some example_body,
        rs_Request = None\<rparr>)"

definition example_wr :: WatcherResponse where
  "example_wr = \<lparr>wr_TaskID = ''t'', wr_WatcherID = ''w'', wr_URL = None, wr_Err = None,
     wr_Payload = Some (HTTPPayload example_http)\<rparr>"

lemma example_wr_ok: "wr_ok example_wr"
  by (simp add: wr_ok_def example_wr_def payload_ok_def http_ok_def example_http_def newHTTPTaskResponse_def)


text \<open>
  \<^verbatim>\<open>Data\<close> on a response just received returns the whole body if it is complete, and otherwise
  the error that ended it with no bytes; either way the body has been drained and closed.
\<close>

theorem http_Data_whole_body:
  assumes "h = newHTTPTaskResponse addr (Some rs)" and "rs_Body rs = Some b" and "\<not> bd_closed b"
  shows "\<exists>h1. http_Data now h =
      Some ((if bd_end b = Sentinel IoEOF then (bd_rest b, None) else ([], Some (bd_end b))), h1) \<and>
    http_body h1 = Some (b\<lparr>bd_rest := [], bd_closed := True\<rparr>)"
proof -
  have "fresh_http rs b h" and "h_data h = []"
    using assms by (simp_all add: fresh_http_def newHTTPTaskResponse_def)
  with http_Data_fresh [of rs b h now] show ?thesis by (cases "bd_end b = Sentinel IoEOF") auto
qed

theorem http_Data_whole_body_witness:
  "\<exists>h1. http_Data (Instant 1) example_http = Some (([104, 105], None), h1)"
  using http_Data_whole_body [OF example_http_def, of example_body "Instant 1"]
  by (auto simp: example_body_def)

text \<open>
  C33. Streaming: after \<^verbatim>\<open>Reader\<close> on a response just received, reading in chunks of any positive
  sizes yields the whole body, the completion time is that of the read that reported the end and
  a later \<^verbatim>\<open>Close\<close> does not change it; \<^verbatim>\<open>Data\<close> and a second \<^verbatim>\<open>Reader\<close> are refused.
\<close>

theorem reader_streams_body:
  assumes "h = newHTTPTaskResponse addr (Some rs)" and "rs_Body rs = Some b" and "\<not> bd_closed b"
    and "bd_end b = Sentinel IoEOF"
    and "list_all (\<lambda>(now, n, eager). 0 < n) sched" and "length (bd_rest b) < length sched"
  shows "\<exists>h1 h2 now h3 err. http_Reader h = Some ((Some (TimedReader False), None), h1) \<and>
    timed_loop sched False h1 [] = Some (bd_rest b, Sentinel IoEOF, now, True, h2) \<and>
    ts_dataDone (h_timestamps h2) = now \<and> now \<in> fst ` set sched \<and>
    timed_Close later True h2 = Some (err, True, h3) \<and> h_timestamps h3 = h_timestamps h2 \<and>
    http_Data later h1 = Some (([], Some data_after_reader), h1) \<and>
    http_Reader h1 = Some ((None, Some (ErrorString ''reader already called'')), h1)"
proof -
  let ?h1 = "h\<lparr>h_usedReader := True\<rparr>"
  have h1: "http_Reader h = Some ((Some (TimedReader False), None), ?h1)"
    using assms(1,2) by (simp add: http_Reader_def newHTTPTaskResponse_def)
  have refused: "http_Data later ?h1 = Some (([], Some data_after_reader), ?h1)"
    "http_Reader ?h1 = Some ((None, Some (ErrorString ''reader already called'')), ?h1)"
    using assms(1) by (simp_all add: http_Data_def http_Reader_def newHTTPTaskResponse_def)
  obtain now h2 where loop: "timed_loop sched False ?h1 [] = Some (bd_rest b, Sentinel IoEOF, now, True, h2)"
    "now \<in> fst ` set sched" "ts_dataDone (h_timestamps h2) = now" "http_body h2 \<noteq> None"
    using timed_loop_stream [of ?h1 rs b sched "[]"] assms
    by (auto simp: newHTTPTaskResponse_def zero_timestamps_def)
  have "\<exists>err h3. timed_Close later True h2 = Some (err, True, h3) \<and> h_timestamps h3 = h_timestamps h2"
    using loop(4) by (auto simp: timed_Close_def http_body_def body_Close_def run_iff)
  with h1 loop refused show ?thesis by blast
qed

theorem reader_streams_body_witness:
  "\<exists>h1 h2 now. http_Reader example_http = Some ((Some (TimedReader False), None), h1) \<and>
    timed_loop [(Instant 1, 1, False), (Instant 2, 5, False), (Instant 3, 5, False)] False h1 [] =
      Some ([104, 105], Sentinel IoEOF, now, True, h2)"
proof -
  let ?sched = "[(Instant 1, 1, False), (Instant 2, 5, False), (Instant 3, 5, False)] :: (gotime \<times> nat \<times> bool) list"
  let ?rs = "\<lparr>rs_StatusCode = 200, rs_Header = [], rs_ContentLength = 2, rs_Body = Some example_body,
        rs_Request = None\<rparr> :: http_response"
  have b: "rs_Body ?rs = Some example_body" "\<not> bd_closed example_body" "bd_end example_body = Sentinel IoEOF"
    "bd_rest example_body = [104, 105]"
    by (simp_all add: example_body_def)
  have sched: "list_all (\<lambda>(now, n, eager). 0 < n) ?sched" "length (bd_rest example_body) < length ?sched"
    by (simp_all add: b)
  show ?thesis
    using reader_streams_body [OF example_http_def b(1-3) sched] unfolding b(4) by blast
qed

text \<open>
  C40. A body that was read into memory by \<^verbatim>\<open>readBody\<close> outside of \<^verbatim>\<open>Data\<close>, as the option
  \<^verbatim>\<open>OptReadFast\<close> does, does not come back cleanly: \<^verbatim>\<open>Data\<close> reads the closed body a second time
  and returns the bytes together with an error, and \<^verbatim>\<open>Reader\<close> afterwards returns only the error.
\<close>

theorem data_after_read_fast:
  assumes "h = newHTTPTaskResponse addr (Some rs)" and "rs_Body rs = Some b" and "\<not> bd_closed b"
    and "bd_end b = Sentinel IoEOF" and "readBody now h = Some h1"
  shows "\<exists>h2. http_Data later h1 = Some ((bd_rest b, Some errReadOnClosedResBody), h2) \<and>
    http_Reader h2 = Some ((None, Some errReadOnClosedResBody), h2) \<and>
    http_Reader h1 = Some ((Some (MemReader (bd_rest b)), None), h1)"
proof -
  have "fresh_http rs b h" using assms(1-3) by (simp add: fresh_http_def newHTTPTaskResponse_def)
  note f = readBody_fresh' [OF this assms(4), of now]
  have h1: "h1 = set_body rs (b\<lparr>bd_rest := [], bd_closed := True\<rparr>)
      (h\<lparr>h_data := bd_rest b, h_dataOnce := True, h_timestamps := (h_timestamps h)\<lparr>ts_dataDone := now\<rparr>\<rparr>)"
    using f assms(5) by simp
  have flags: "h_usedReader h1 = False" "h_once h1 = False" "h_dataOnce h1" "h_dataErr h1 = None" "h_data h1 = bd_rest b"
    using assms(1) by (simp_all add: h1 newHTTPTaskResponse_def)
  obtain rs1 b1 where rs1: "h_resp h1 = Some rs1" "rs_Body rs1 = Some b1" "bd_closed b1"
    by (simp add: h1)
  show ?thesis
    using flags rs1 by (simp add: http_Data_def readBody_def io_ReadAll_def io_Drain_def body_Close_def http_Reader_def)
qed

theorem data_after_read_fast_witness:
  "\<exists>h1 h2. readBody (Instant 1) example_http = Some h1 \<and>
     http_Data (Instant 2) h1 = Some (([104, 105], Some errReadOnClosedResBody), h2)"
proof -
  obtain h1 where h1: "readBody (Instant 1) example_http = Some h1"
    using readBody_total [of example_http "Instant 1"] by (auto simp: example_http_def newHTTPTaskResponse_def)
  from data_after_read_fast [OF example_http_def _ _ _ h1, of example_body "Instant 2"] h1
  show ?thesis by (auto simp: example_body_def)
qed

text \<open>
  When \<^verbatim>\<open>Data\<close> fails to read the body, \<^verbatim>\<open>Reader\<close> does not know that \<^verbatim>\<open>Data\<close> was called: instead of the
  error it hands out a reader over the body that \<^verbatim>\<open>Data\<close> has closed, from which every read fails
  with another error.
\<close>

theorem reader_after_failed_data:
  assumes "h = newHTTPTaskResponse addr (Some rs)" and "rs_Body rs = Some b" and "\<not> bd_closed b"
    and "bd_end b \<noteq> Sentinel IoEOF"
  shows "\<exists>h1 h2. http_Data now h = Some (([], Some (bd_end b)), h1) \<and>
    http_Reader h1 = Some ((Some (TimedReader False), None), h2) \<and>
    (\<forall>n eager. \<exists>h3. timed_Read later n eager False h2 = Some (([], Some errReadOnClosedResBody), False, h3))"
  using assms
  by (simp add: http_Data_def readBody_def io_ReadAll_def io_Drain_def body_Close_def newHTTPTaskResponse_def
      http_Reader_def set_body_def timed_Read_def body_Read_def errReadOnClosedResBody_def Let_def)

theorem reader_after_failed_data_witness:
  "\<exists>h1 h2. http_Reader h1 = Some ((Some (TimedReader False), None), h2) \<and>
     h_dataErr h1 = Some (Sentinel NetErrClosed)"
proof -
  let ?b = "example_body\<lparr>bd_end := Sentinel NetErrClosed\<rparr>"
  let ?rs = "\<lparr>rs_StatusCode = 200, rs_Header = [], rs_ContentLength = 2, rs_Body = Some ?b, rs_Request = None\<rparr>"
  obtain h1 h2 where "http_Data (Instant 1) (newHTTPTaskResponse None (Some ?rs)) =
      Some (([], Some (Sentinel NetErrClosed)), h1)"
    "http_Reader h1 = Some ((Some (TimedReader False), None), h2)"
    using reader_after_failed_data [OF refl, of ?rs ?b "Instant 1" None "Instant 2"] by (auto simp: example_body_def)
  then show ?thesis by (auto simp: http_Data_def newHTTPTaskResponse_def run_iff)
qed

end
