(* ===== verification/HTTP_Task.thy ===== *)
theory HTTP_Task
  imports DNS_Transport Response
begin

text \<open>
  \<^verbatim>\<open>task_http.go\<close>: the HTTP endpoint with its options, validation and initialisation, and the
  execution of a request, over the client of \<^verbatim>\<open>net/http\<close> with its redirects.

  The endpoint's \<^verbatim>\<open>client\<close> and \<^verbatim>\<open>dnsMgr\<close> share one manager; it is the \<open>pt_mgr\<close> of the
  client's transport. \<open>None\<close> as the result of an operation is a panic (a nil URL or client).
\<close>

section \<open>The endpoint\<close>

record tls_config =
  tls_ServerName :: string
  tls_InsecureSkipVerify :: bool

record http_client =
  hc_transport :: policyTransport
  hc_tls :: "tls_config option"

record HTTPEndpoint =
  ep_Header :: "header option"
  ep_Method :: string
  ep_Payload :: bytes
  ep_URL :: "url option"
  ep_ID :: string
  ep_client :: "http_client option"
  ep_dnsPolicy :: DNSPolicy
  ep_dnsDecisionHook :: bool
  ep_dnsPolicySet :: bool
  ep_tlsSkipVerify :: bool
  ep_OptReadFast :: bool
  ep_watcherID :: string

type_synonym HTTPEndpointOption = "HTTPEndpoint \<Rightarrow> HTTPEndpoint"

definition WithDNSPolicy :: "DNSPolicy \<Rightarrow> HTTPEndpointOption" where
  "WithDNSPolicy policy = (\<lambda>ep. ep\<lparr>ep_dnsPolicy := policy, ep_dnsPolicySet := True\<rparr>)"

definition WithDNSDecisionHook :: "bool \<Rightarrow> HTTPEndpointOption" where
  "WithDNSDecisionHook cb = (\<lambda>ep. ep\<lparr>ep_dnsDecisionHook := cb\<rparr>)"

definition WithHeader :: "header option \<Rightarrow> HTTPEndpointOption" where
  "WithHeader h = (\<lambda>ep. ep\<lparr>ep_Header := h\<rparr>)"

definition WithID :: "string \<Rightarrow> HTTPEndpointOption" where
  "WithID i = (\<lambda>ep. ep\<lparr>ep_ID := i\<rparr>)"

definition WithPayload :: "bytes \<Rightarrow> HTTPEndpointOption" where
  "WithPayload b = (\<lambda>ep. ep\<lparr>ep_Payload := b\<rparr>)"

definition WithReadFast :: HTTPEndpointOption where
  "WithReadFast = (\<lambda>ep. ep\<lparr>ep_OptReadFast := True\<rparr>)"

definition WithTLSSkipVerify :: HTTPEndpointOption where
  "WithTLSSkipVerify = (\<lambda>ep. ep\<lparr>ep_tlsSkipVerify := True\<rparr>)"

text \<open>The last argument is the random identifier that \<^verbatim>\<open>xid.New()\<close> gives.\<close>

definition NewHTTPEndpoint ::
    "url option \<Rightarrow> string \<Rightarrow> HTTPEndpointOption list \<Rightarrow> string \<Rightarrow> HTTPEndpoint" where
  "NewHTTPEndpoint u method opts xid =
     foldl (\<lambda>ep opt. opt ep)
       \<lparr>ep_Header = Some [], ep_Method = method, ep_Payload = [], ep_URL = u, ep_ID = xid,
        ep_client = None, ep_dnsPolicy = zero_policy, ep_dnsDecisionHook = False,
        ep_dnsPolicySet = False, ep_tlsSkipVerify = False, ep_OptReadFast = False, ep_watcherID = []\<rparr>
       opts"

definition http_Validate :: "string \<Rightarrow> HTTPEndpoint \<Rightarrow> go_err \<times> HTTPEndpoint" where
  "http_Validate xid e =
     (if ep_URL e = None then (Some (ErrorString ''URL is nil''), e)
      else
        let e1 = (if ep_Header e = None then e\<lparr>ep_Header := Some []\<rparr> else e);
            e2 = (if ep_ID e1 = [] then e1\<lparr>ep_ID := xid\<rparr> else e1)
        in (policy_Validate (ep_dnsPolicy e2), e2))"

definition http_Initialize :: "string \<Rightarrow> HTTPEndpoint \<Rightarrow> (go_err \<times> HTTPEndpoint) option" where
  "http_Initialize watcherID e = do {
     let e1 = e\<lparr>ep_watcherID := watcherID\<rparr>;
     cfg \<leftarrow> (if ep_tlsSkipVerify e1 then do {
               u \<leftarrow> ep_URL e1;
               Some (if url_Scheme u = ''https''
                     then Some \<lparr>tls_ServerName = url_Hostname u, tls_InsecureSkipVerify = True\<rparr>
                     else None) }
             else Some None);
     Some (case policy_Validate (ep_dnsPolicy e1) of
         Some err \<Rightarrow> (Some err, e1)
       | None \<Rightarrow>
           (None, e1\<lparr>ep_client := Some
              \<lparr>hc_transport = new_transport (ep_dnsPolicy e1) (ep_dnsDecisionHook e1), hc_tls = cfg\<rparr>\<rparr>)) }"

definition http_close :: "HTTPEndpoint \<Rightarrow> go_err" where
  "http_close e = None"

text \<open>The task keeps the payload and the method of the moment it was made.\<close>

record httpRequest =
  hr_data :: bytes
  hr_method :: string

definition http_Task :: "HTTPEndpoint \<Rightarrow> httpRequest" where
  "http_Task e = \<lparr>hr_data = ep_Payload e, hr_method = ep_Method e\<rparr>"

section \<open>The client\<close>

text \<open>
  What one execution sees of the outside: the URL that parsing the endpoint's URL text gives, for
  each hop the lookup and the network, the URL a redirect's location resolves to, the callbacks of
  the trace, whether the connection's address arrives before the timeout, and the clock when the
  result is observed and when the body has been read.
\<close>

record exec_env =
  xe_reparse :: "url \<Rightarrow> go_error + url"
  xe_lookup :: "nat \<Rightarrow> lookup_env"
  xe_net :: "nat \<Rightarrow> net_env"
  xe_location :: "url \<Rightarrow> string \<Rightarrow> go_error + url"
  xe_trace :: "(trace_event \<times> gotime) list"
  xe_addrInTime :: bool
  xe_observed :: gotime
  xe_read :: gotime

definition url_String :: "url \<Rightarrow> string" where
  "url_String u = url_Scheme u @ ''://'' @ url_Host u @ url_Path u"

text \<open>\<^verbatim>\<open>http.NewRequest\<close>.\<close>

definition NewRequest :: "exec_env \<Rightarrow> string \<Rightarrow> url \<Rightarrow> bytes \<Rightarrow> go_error + http_request" where
  "NewRequest x method u body =
     (let m = (if method = [] then ''GET'' else method)
      in if \<not> list_all is_token_char m then Inl (ErrorString (''net/http: invalid method '' @ quoted m))
         else
           (case xe_reparse x u of
              Inl e \<Rightarrow> Inl e
            | Inr u' \<Rightarrow> Inr \<lparr>rq_method = m, rq_url = u', rq_header = [], rq_body = body, rq_ctx = background_ctx\<rparr>))"

text \<open>The \<^verbatim>\<open>url.Error\<close> that the client wraps around an error.\<close>

definition url_error :: "string \<Rightarrow> url \<Rightarrow> go_error \<Rightarrow> go_error" where
  "url_error method u e =
     Errorf ((case method of [] \<Rightarrow> [] | c # cs \<Rightarrow> c # map to_lower cs) @ '' '' @ CHR 0x22 # url_String u @ CHR 0x22 # '': '') e"

text \<open>
  The next request of a redirect, if the response is one: 301, 302 and 303 turn the method into
  GET (a HEAD stays), 307 and 308 keep method and body; a response without a location is final.
\<close>

definition redirect_request :: "exec_env \<Rightarrow> http_request \<Rightarrow> http_response \<Rightarrow> (go_error + http_request) option" where
  "redirect_request x req rs =
     (let code = rs_StatusCode rs; loc = header_values (rs_Header rs) ''Location''
      in if code \<notin> {301, 302, 303, 307, 308} \<or> loc = [] \<or> hd loc = [] then None
         else
           (case xe_location x (rq_url req) (hd loc) of
              Inl e \<Rightarrow> Some (Inl e)
            | Inr u \<Rightarrow>
                let keep = (code \<in> {307, 308})
                in Some (Inr (req\<lparr>rq_url := u,
                     rq_method := (if keep \<or> rq_method req = ''HEAD'' then rq_method req else ''GET''),
                     rq_body := (if keep then rq_body req else [])\<rparr>))))"

text \<open>
  \<^verbatim>\<open>client.Do\<close> from the \<open>i\<close>-th request on, with \<open>left\<close> redirects to go: the transport
  afterwards, the round trips and the result. The client reads and closes the body of a redirect
  itself, so its connection, which stands behind those that were in use before, is handed back; the
  body of the final response is left to the caller.
\<close>

definition end_body :: "net_env \<Rightarrow> policyTransport \<Rightarrow> policyTransport \<Rightarrow> policyTransport" where
  "end_body ne p p' = release (length (tr_busy (pt_base p))) (ne_drained ne) p'"

fun do_hops ::
    "exec_env \<Rightarrow> nat \<Rightarrow> nat \<Rightarrow> string \<Rightarrow> policyTransport \<Rightarrow> http_request
       \<Rightarrow> (policyTransport \<times> round_trip list \<times> (go_error + http_response)) option" where
  "do_hops x left i op p req = do {
     r \<leftarrow> policy_RoundTrip p (xe_lookup x i) (xe_net x i) req;
     let closed = end_body (xe_net x i) p (rt_transport r);
     (case rt_result r of
        Inl e \<Rightarrow> Some (rt_transport r, [r], Inl (url_error op (rq_url req) e))
      | Inr rs \<Rightarrow>
          (case redirect_request x req rs of
             None \<Rightarrow> Some (rt_transport r, [r], Inr rs)
           | Some (Inl e) \<Rightarrow> Some (closed, [r], Inl (url_error op (rq_url req) e))
           | Some (Inr req') \<Rightarrow>
               (case left of
                  0 \<Rightarrow> Some (closed, [r],
                         Inl (url_error op (rq_url req') (ErrorString ''stopped after 10 redirects'')))
                | Suc left' \<Rightarrow> do {
                    (p', trips, res) \<leftarrow> do_hops x left' (Suc i) op closed req';
                    Some (p', r # trips, res) }))) }"

declare do_hops.simps [simp del]

definition client_Do ::
    "exec_env \<Rightarrow> policyTransport \<Rightarrow> http_request \<Rightarrow> (policyTransport \<times> round_trip list \<times> (go_error + http_response)) option" where
  "client_Do x p req = do_hops x 9 0 (rq_method req) p req"

section \<open>Execution\<close>

definition add_headers :: "header \<Rightarrow> header \<Rightarrow> header" where
  "add_headers hs h0 = foldl (\<lambda>h (key, values). foldl (\<lambda>h value. header_Add h key value) h values) h0 hs"

definition set_manager :: "dnsPolicyManager \<Rightarrow> policyTransport \<Rightarrow> policyTransport" where
  "set_manager m p = p\<lparr>pt_mgr := m\<rparr>"

definition set_transport :: "policyTransport \<Rightarrow> http_client \<Rightarrow> HTTPEndpoint \<Rightarrow> HTTPEndpoint" where
  "set_transport p c e = e\<lparr>ep_client := Some (c\<lparr>hc_transport := p\<rparr>)\<rparr>"

text \<open>The response to a failed request, with the manager's last decision if there is one.\<close>

definition failed_response :: "HTTPEndpoint \<Rightarrow> url \<Rightarrow> dnsPolicyManager \<Rightarrow> go_error \<Rightarrow> WatcherResponse" where
  "failed_response e u m err =
     (let wr = errorResponse err (ep_ID e) (ep_watcherID e) (Some u)
      in case getLastDecision m of
           Some d \<Rightarrow> wr\<lparr>wr_Payload := Some (ErrorPayload \<lparr>he_dnsDecision = Some d\<rparr>)\<rparr>
         | None \<Rightarrow> wr)"

text \<open>The response to a request that was answered.\<close>

definition answered_response :: "exec_env \<Rightarrow> HTTPEndpoint \<Rightarrow> url \<Rightarrow> http_response \<Rightarrow> WatcherResponse option" where
  "answered_response x e u rs = do {
     let ts = run_trace (xe_trace x);
     let remoteAddr = (if xe_addrInTime x then trs_addrChan ts else None);
     let h = (newHTTPTaskResponse remoteAddr (Some rs))\<lparr>h_timestamps := Snapshot (trs_times ts)\<rparr>;
     h1 \<leftarrow> (if ep_OptReadFast e then readBody (xe_read x) h else Some h);
     Some \<lparr>wr_TaskID = ep_ID e, wr_WatcherID = ep_watcherID e, wr_URL = Some u, wr_Err = None,
           wr_Payload = Some (HTTPPayload h1)\<rparr> }"

text \<open>
  \<^verbatim>\<open>Execute\<close> of an endpoint's request: the endpoint afterwards, the response sent on the channel
  and the returned error. With \<^verbatim>\<open>OptReadFast\<close> the body is read and closed before the response is
  sent, so that its connection is handed back; otherwise it stays in use until the consumer of the
  response reads or closes the body.
\<close>

definition http_Execute ::
    "exec_env \<Rightarrow> httpRequest \<Rightarrow> HTTPEndpoint \<Rightarrow> (HTTPEndpoint \<times> WatcherResponse list \<times> go_err) option" where
  "http_Execute x r e = do {
     u \<leftarrow> ep_URL e;
     (case NewRequest x (hr_method r) u (hr_data r) of
        Inl err \<Rightarrow> Some (e, [errorResponse err (ep_ID e) (ep_watcherID e) (Some u)], Some err)
      | Inr req0 \<Rightarrow> do {
          let req = req0\<lparr>rq_header :=
            (case ep_Header e of None \<Rightarrow> [] | Some hs \<Rightarrow> add_headers hs (rq_header req0))\<rparr>;
          c \<leftarrow> ep_client e;
          (p, trips, res) \<leftarrow> client_Do x (hc_transport c) req;
          (case res of
             Inl err \<Rightarrow>
               (let m = observeResult (pt_mgr p) (xe_observed x) 0 (Some err);
                    e1 = set_transport (set_manager m p) c e
                in Some (e1, [failed_response e1 u m err], Some err))
           | Inr rs \<Rightarrow>
               (let m = observeResult (pt_mgr p) (xe_observed x) (rs_StatusCode rs) None;
                    p1 = (if ep_OptReadFast e
                          then end_body (xe_net x (length trips - 1)) (hc_transport c) p else p);
                    e1 = set_transport (set_manager m p1) c e
                in do {
                  wr \<leftarrow> answered_response x e1 u rs;
                  Some (e1, [wr], None) })) }) }"

section \<open>Lemmas on the client\<close>

lemma end_body_simps [simp]:
  "pt_mgr (end_body ne p p') = pt_mgr p'" "mgr_addrs (end_body ne p p') = mgr_addrs p'"
  by (simp_all add: end_body_def)

lemma end_body_within: "pool_within H p' \<Longrightarrow> pool_within H (end_body ne p p')"
  by (simp add: end_body_def release_within)

text \<open>The client returns after at most one request more than the redirects it has left.\<close>

lemma do_hops_total:
  "\<exists>p' trips res. do_hops x left i op p req = Some (p', trips, res) \<and>
     1 \<le> length trips \<and> length trips \<le> Suc left"
proof (induction left arbitrary: i p req)
  case 0
  obtain r where r: "policy_RoundTrip p (xe_lookup x i) (xe_net x i) req = Some r"
    using policy_RoundTrip_total by blast
  show ?case by (subst do_hops.simps) (simp add: r Let_def split: sum.split option.split)
next
  case (Suc left)
  obtain r where r: "policy_RoundTrip p (xe_lookup x i) (xe_net x i) req = Some r"
    using policy_RoundTrip_total by blast
  show ?case
  proof (cases "\<exists>rs req'. rt_result r = Inr rs \<and> redirect_request x req rs = Some (Inr req')")
    case True
    then obtain rs req' where rd: "rt_result r = Inr rs" "redirect_request x req rs = Some (Inr req')" by blast
    obtain p' trips res where "do_hops x left (Suc i) op (end_body (xe_net x i) p (rt_transport r)) req' = Some (p', trips, res)"
      "1 \<le> length trips" "length trips \<le> Suc left"
      using Suc.IH by blast
    then show ?thesis by (subst do_hops.simps) (simp add: r rd)
  next
    case False
    then show ?thesis by (subst do_hops.simps) (auto simp: r Let_def split: sum.split option.split)
  qed
qed

text \<open>A property of transports that every round trip and every end of a body keep is kept by the client.\<close>

lemma do_hops_invariant:
  assumes "do_hops x left i op p req = Some (p', trips, res)" and "P p"
    and "\<And>p i req r. P p \<Longrightarrow> policy_RoundTrip p (xe_lookup x i) (xe_net x i) req = Some r \<Longrightarrow>
      P (rt_transport r) \<and> Q req r"
    and "\<And>ne p p'. P p' \<Longrightarrow> P (end_body ne p p')"
  shows "P p' \<and> (\<forall>r \<in> set trips. \<exists>req. Q req r)"
  using assms(1,2)
proof (induction left arbitrary: i p req trips)
  case 0
  obtain r where r: "policy_RoundTrip p (xe_lookup x i) (xe_net x i) req = Some r"
    using policy_RoundTrip_total by blast
  have "(p' = rt_transport r \<or> p' = end_body (xe_net x i) p (rt_transport r)) \<and> trips = [r]"
    using 0(1) by (subst (asm) do_hops.simps) (auto simp: r Let_def split: sum.splits option.splits)
  with assms(3) [OF 0(2) r] assms(4) show ?case by auto
next
  case (Suc left)
  obtain r where r: "policy_RoundTrip p (xe_lookup x i) (xe_net x i) req = Some r"
    using policy_RoundTrip_total by blast
  let ?c = "end_body (xe_net x i) p (rt_transport r)"
  note step = assms(3) [OF Suc.prems(2) r]
  have "(p' = rt_transport r \<or> p' = ?c) \<and> trips = [r] \<or>
      (\<exists>req' trips'. trips = r # trips' \<and> do_hops x left (Suc i) op ?c req' = Some (p', trips', res))"
    using Suc.prems(1) by (subst (asm) do_hops.simps) (auto simp: r run_iff Let_def split: sum.splits option.splits)
  then show ?case
  proof (elim disjE exE conjE)
    fix req' trips'
    assume t: "trips = r # trips'" "do_hops x left (Suc i) op ?c req' = Some (p', trips', res)"
    from Suc.IH [OF t(2)] step assms(4) show ?thesis by (auto simp: t(1))
  qed (use step assms(4) in auto)
qed

text \<open>A round trip changes neither the policy nor the counters of the guard rail.\<close>

definition guard_counters :: "dnsPolicyManager \<Rightarrow> DNSGuardRailPolicy \<times> int \<times> gotime \<times> gotime" where
  "guard_counters m = (let g = mgr_guard m in (gr_policy g, gr_count g, gr_firstFailure g, gr_lastFailure g))"

lemma guard_counters_consume [simp]: "guard_counters (snd (consumeGuardTrigger m)) = guard_counters m"
  by (simp add: guard_counters_def consumeGuardTrigger_def Let_def)

lemma policy_RoundTrip_counters:
  assumes "policy_RoundTrip p env ne req = Some r"
  shows "guard_counters (pt_mgr (rt_transport r)) = guard_counters (pt_mgr p)"
proof -
  obtain m2 tr1 pr where prep: "prepareRequest (pt_mgr p) env (pt_base p) (rq_ctx req) (rq_url req) = Some (m2, tr1, pr)"
    and mgr: "pt_mgr (rt_transport r) = m2"
    using assms by (auto simp: policy_RoundTrip_def run_iff split: option.splits prod.splits)
  have guard: "mgr_guard m1 = mgr_guard (pt_mgr p)"
    if "mgr_resolve (pt_mgr p) env h po = Some (m1, oc, err)" for h po m1 oc err
    using mgr_resolve_returns [of "pt_mgr p" env h po] that by auto
  from prep show ?thesis unfolding mgr
  proof (cases rule: prepareRequest_cases)
    case (failed m1 oc e)
    then show "guard_counters m2 = guard_counters (pt_mgr p)"
      using guard [OF failed(1)] prepare_failed_simps(3) [OF failed(2)] by (simp add: guard_counters_def)
  next
    case (fallback m1 oc d e)
    then show "guard_counters m2 = guard_counters (pt_mgr p)"
      using guard [OF fallback(1)] prepare_fallback_simps(3) [OF fallback(4)] by (simp add: guard_counters_def)
  next
    case (go m1 oc)
    have "m2 = snd (consumeGuardTrigger m1)" by (rule prepare_go_simps(1) [OF go(3)])
    moreover have "guard_counters m1 = guard_counters (pt_mgr p)"
      using guard [OF go(1)] by (simp add: guard_counters_def)
    ultimately show "guard_counters m2 = guard_counters (pt_mgr p)" by simp
  qed simp
qed

lemma client_Do_counters:
  assumes "client_Do x p req = Some (p', trips, res)"
  shows "guard_counters (pt_mgr p') = guard_counters (pt_mgr p)"
  using do_hops_invariant [where P = "\<lambda>q. guard_counters (pt_mgr q) = guard_counters (pt_mgr p)"
      and Q = "\<lambda>_ _. True", OF assms [unfolded client_Do_def]]
  by (simp add: policy_RoundTrip_counters)

lemma client_Do_total:
  "\<exists>p' trips res. client_Do x p req = Some (p', trips, res) \<and> 1 \<le> length trips \<and> length trips \<le> 10"
  using do_hops_total [of x 9 0 "rq_method req" p req] by (simp add: client_Do_def)

section \<open>Lemmas on the execution\<close>

lemma answered_response_ok:
  "\<exists>wr h. answered_response x e u rs = Some wr \<and> wr_Err wr = None \<and> wr_TaskID wr = ep_ID e \<and>
     wr_WatcherID wr = ep_watcherID e \<and> wr_URL wr = Some u \<and> wr_Payload wr = Some (HTTPPayload h) \<and>
     http_ok h \<and> md_StatusCode (http_Metadata h) = rs_StatusCode rs \<and>
     (\<not> ep_OptReadFast e \<longrightarrow> h_data h = [] \<and>
       (\<forall>b. rs_Body rs = Some b \<and> \<not> bd_closed b \<longrightarrow> fresh_http rs b h))"
proof -
  let ?addr = "if xe_addrInTime x then trs_addrChan (run_trace (xe_trace x)) else None"
  define h where "h = (newHTTPTaskResponse ?addr (Some rs))
    \<lparr>h_timestamps := Snapshot (trs_times (run_trace (xe_trace x)))\<rparr>"
  have h: "h_resp h = Some rs" "\<not> h_once h" by (simp_all add: h_def newHTTPTaskResponse_def)
  obtain h1 where h1: "(if ep_OptReadFast e then readBody (xe_read x) h else Some h) = Some h1"
    using readBody_total [of h "xe_read x"] h by (cases "ep_OptReadFast e") auto
  then have ok: "http_ok h1" and st: "\<exists>rs1. h_resp h1 = Some rs1 \<and> rs_StatusCode rs1 = rs_StatusCode rs"
    using h readBody_props [of "xe_read x" h h1] readBody_status [of "xe_read x" h h1 rs]
    by (auto simp: http_ok_def split: if_splits)
  have "md_StatusCode (http_Metadata h1) = rs_StatusCode rs"
    using st by (auto simp: http_Metadata_def Let_def split: option.split)
  moreover have "\<not> ep_OptReadFast e \<longrightarrow> h_data h1 = [] \<and>
      (\<forall>b. rs_Body rs = Some b \<and> \<not> bd_closed b \<longrightarrow> fresh_http rs b h1)"
    using h1 by (auto simp: h_def newHTTPTaskResponse_def fresh_http_def)
  ultimately show ?thesis using ok h1
    by (cases "ep_OptReadFast e") (simp_all add: answered_response_def h_def [symmetric] Let_def)
qed

text \<open>The branches of an execution.\<close>

lemma http_Execute_invalid:
  assumes "ep_URL e = Some u" and "NewRequest x (hr_method r) u (hr_data r) = Inl err"
  shows "http_Execute x r e = Some (e, [errorResponse err (ep_ID e) (ep_watcherID e) (Some u)], Some err)"
  using assms by (simp add: http_Execute_def)

lemma set_transport_simps [simp]:
  "ep_ID (set_transport p c e) = ep_ID e" "ep_watcherID (set_transport p c e) = ep_watcherID e"
  "ep_URL (set_transport p c e) = ep_URL e" "ep_Header (set_transport p c e) = ep_Header e"
  "ep_client (set_transport p c e) = Some (c\<lparr>hc_transport := p\<rparr>)"
  "ep_OptReadFast (set_transport p c e) = ep_OptReadFast e"
  by (simp_all add: set_transport_def)

text \<open>The request that an execution gives to the client.\<close>

definition task_request :: "HTTPEndpoint \<Rightarrow> http_request \<Rightarrow> http_request" where
  "task_request e req0 = req0\<lparr>rq_header :=
     (case ep_Header e of None \<Rightarrow> [] | Some hs \<Rightarrow> add_headers hs (rq_header req0))\<rparr>"

text \<open>The transport that an execution leaves, before the manager has observed the result.\<close>

definition left_transport ::
    "exec_env \<Rightarrow> HTTPEndpoint \<Rightarrow> http_client \<Rightarrow> policyTransport \<Rightarrow> nat \<Rightarrow> (go_error + http_response) \<Rightarrow> policyTransport" where
  "left_transport x e c p n res =
     (if (\<exists>rs. res = Inr rs) \<and> ep_OptReadFast e then end_body (xe_net x (n - 1)) (hc_transport c) p else p)"

lemma http_Execute_run:
  assumes "ep_URL e = Some u" and "ep_client e = Some c"
    and "NewRequest x (hr_method r) u (hr_data r) = Inr req0"
    and "client_Do x (hc_transport c) (task_request e req0) = Some (p, trips, res)"
  shows "\<exists>wr. http_Execute x r e = Some
      (set_transport (set_manager (observeResult (pt_mgr p) (xe_observed x)
         (case res of Inl _ \<Rightarrow> 0 | Inr rs \<Rightarrow> rs_StatusCode rs)
         (case res of Inl err \<Rightarrow> Some err | Inr _ \<Rightarrow> None)) (left_transport x e c p (length trips) res)) c e, [wr],
       (case res of Inl err \<Rightarrow> Some err | Inr _ \<Rightarrow> None)) \<and>
    wr_TaskID wr = ep_ID e \<and> wr_WatcherID wr = ep_watcherID e \<and> wr_URL wr = Some u \<and>
    (case res of
       Inl err \<Rightarrow> wr_Err wr = Some err \<and>
         wr_Payload wr = map_option (\<lambda>d. ErrorPayload \<lparr>he_dnsDecision = Some d\<rparr>)
           (getLastDecision (observeResult (pt_mgr p) (xe_observed x) 0 (Some err)))
     | Inr rs \<Rightarrow> wr_Err wr = None \<and> (\<exists>h. wr_Payload wr = Some (HTTPPayload h) \<and> http_ok h \<and>
         md_StatusCode (http_Metadata h) = rs_StatusCode rs \<and>
         (\<not> ep_OptReadFast e \<longrightarrow> h_data h = [] \<and>
           (\<forall>b. rs_Body rs = Some b \<and> \<not> bd_closed b \<longrightarrow> fresh_http rs b h))))"
proof (cases res)
  case (Inl err)
  with assms show ?thesis
    by (auto simp: http_Execute_def task_request_def failed_response_def errorResponse_def Let_def left_transport_def
        split: option.split)
next
  case (Inr rs)
  let ?m = "observeResult (pt_mgr p) (xe_observed x) (rs_StatusCode rs) None"
  let ?p1 = "left_transport x e c p (length trips) res"
  let ?e1 = "set_transport (set_manager ?m ?p1) c e"
  have p1: "?p1 = (if ep_OptReadFast e then end_body (xe_net x (length trips - 1)) (hc_transport c) p else p)"
    by (simp add: left_transport_def Inr)
  obtain wr h where "answered_response x ?e1 u rs = Some wr" "wr_Err wr = None" "wr_TaskID wr = ep_ID e"
    "wr_WatcherID wr = ep_watcherID e" "wr_URL wr = Some u" "wr_Payload wr = Some (HTTPPayload h)" "http_ok h"
    "md_StatusCode (http_Metadata h) = rs_StatusCode rs"
    "\<not> ep_OptReadFast e \<longrightarrow> h_data h = [] \<and> (\<forall>b. rs_Body rs = Some b \<and> \<not> bd_closed b \<longrightarrow> fresh_http rs b h)"
    using answered_response_ok [of x ?e1 u rs] by auto
  with Inr assms show ?thesis
    by (simp add: http_Execute_def task_request_def Let_def p1 [symmetric] split del: if_split)
qed

lemma left_transport_mgr [simp]: "pt_mgr (left_transport x e c p n res) = pt_mgr p"
  by (simp add: left_transport_def)

lemma http_Initialize_ok:
  assumes "http_Initialize wid e = Some (None, e0)"
  shows "policy_Validate (ep_dnsPolicy e) = None \<and>
    (\<exists>cfg. e0 = e\<lparr>ep_watcherID := wid, ep_client := Some
       \<lparr>hc_transport = new_transport (ep_dnsPolicy e) (ep_dnsDecisionHook e), hc_tls = cfg\<rparr>\<rparr>)"
  using assms by (auto simp: http_Initialize_def Let_def run_iff split: option.splits)

section \<open>Sequences of executions\<close>

fun run_executes :: "httpRequest \<Rightarrow> exec_env list \<Rightarrow> HTTPEndpoint \<Rightarrow> (HTTPEndpoint \<times> WatcherResponse list) option" where
  "run_executes r [] e = Some (e, [])"
| "run_executes r (x # xs) e = do {
     (e1, wrs, err) \<leftarrow> http_Execute x r e;
     (e2, wrs') \<leftarrow> run_executes r xs e1;
     Some (e2, wrs @ wrs') }"

text \<open>A response that the guard rail counts as a failure.\<close>

definition wr_failed :: "WatcherResponse \<Rightarrow> bool" where
  "wr_failed wr \<longleftrightarrow> wr_Err wr \<noteq> None \<or> md_StatusCode (wr_Metadata wr) \<ge> 500"

definition ep_mgr :: "HTTPEndpoint \<Rightarrow> dnsPolicyManager option" where
  "ep_mgr e = map_option (\<lambda>c. pt_mgr (hc_transport c)) (ep_client e)"

lemma http_Execute_counters:
  assumes url: "ep_URL e = Some u" and mgr: "ep_mgr e = Some m"
    and req: "NewRequest x (hr_method r) u (hr_data r) = Inr req0"
    and run: "http_Execute x r e = Some (e1, wrs, err)"
  shows "\<exists>wr m1 st. wrs = [wr] \<and> ep_URL e1 = Some u \<and> guard_counters m1 = guard_counters m \<and>
    ep_mgr e1 = Some (observeResult m1 (xe_observed x) st err) \<and> wr_Err wr = err \<and>
    (wr_failed wr \<longleftrightarrow> is_failure (xe_observed x, st, err))"
proof -
  obtain c where c: "ep_client e = Some c" "m = pt_mgr (hc_transport c)"
    using mgr by (auto simp: ep_mgr_def)
  obtain p trips res where do: "client_Do x (hc_transport c) (task_request e req0) = Some (p, trips, res)"
    using client_Do_total by blast
  let ?st = "case res of Inl _ \<Rightarrow> 0 | Inr rs \<Rightarrow> rs_StatusCode rs"
  from http_Execute_run [where x = x and r = r, OF url c(1) req do] run c client_Do_counters [OF do] url
  have "\<exists>wr. wrs = [wr] \<and> ep_URL e1 = Some u \<and> guard_counters (pt_mgr p) = guard_counters m \<and>
    ep_mgr e1 = Some (observeResult (pt_mgr p) (xe_observed x) ?st err) \<and> wr_Err wr = err \<and>
    (wr_failed wr \<longleftrightarrow> is_failure (xe_observed x, ?st, err))"
    by (cases res) (auto simp: ep_mgr_def set_manager_def wr_failed_def is_failure_def serverErrorThreshold_def
        wr_Metadata_def payload_Metadata_def)
  then show ?thesis by blast
qed

text \<open>Without a window, a failing result adds one to the counter until the threshold is reached.\<close>

lemma observeResult_count:
  assumes "guard_counters m = (pol, n, f, l)" and "guard_Enabled pol" and "grp_Window pol \<le> 0"
    and "in64 (grp_ConsecutiveErrorThreshold pol)" and "0 \<le> n" and "n < grp_ConsecutiveErrorThreshold pol"
    and "is_failure (now, st, err)"
  shows "if n + 1 = grp_ConsecutiveErrorThreshold pol
    then gr_triggered (mgr_guard (observeResult m now st err)) \<and>
      (grp_Action pol = DNSGuardRailActionForceLookup \<longrightarrow> mgr_forceLookup (observeResult m now st err))
    else \<exists>f' l'. guard_counters (observeResult m now st err) = (pol, n + 1, f', l')"
proof -
  have g: "gr_policy (mgr_guard m) = pol" "gr_count (mgr_guard m) = n"
    using assms(1) by (simp_all add: guard_counters_def Let_def)
  have wf: "guard_wf (mgr_guard m)" using assms g by (simp add: guard_wf_def)
  have obs: "observeResult m now st err = registerGuardFailure m now"
    using assms(2,7) g by (auto simp: observeResult_def is_failure_def)
  have win: "gr_count (guard_window (mgr_guard m) now) = n"
    using assms(3) g by (simp add: guard_window_def)
  show ?thesis
  proof (cases "n + 1 = grp_ConsecutiveErrorThreshold pol")
    case True
    with registerGuardFailure_guard [OF wf, of now] assms(2) g win obs
    have "gr_triggered (mgr_guard (observeResult m now st err))" by (simp add: Let_def)
    moreover have "mgr_forceLookup (registerGuardFailure m now)" if "grp_Action pol = DNSGuardRailActionForceLookup"
      using True that assms(2) g win guard_count_increment [OF wf, of now]
      by (simp add: registerGuardFailure_def Let_def)
    ultimately show ?thesis using True obs by simp
  next
    case False
    with registerGuardFailure_guard [OF wf, of now] assms(2,6) g win obs
    show ?thesis by (simp add: Let_def guard_counters_def)
  qed
qed

lemma run_executes_trip:
  assumes "ep_URL e = Some u" and "ep_mgr e = Some m" and "guard_counters m = (pol, n, f, l)"
    and "guard_Enabled pol" and "grp_Window pol \<le> 0" and "in64 (grp_ConsecutiveErrorThreshold pol)"
    and "0 \<le> n" and "xs \<noteq> []" and "n + int (length xs) = grp_ConsecutiveErrorThreshold pol"
    and "\<forall>x \<in> set xs. \<exists>req0. NewRequest x (hr_method r) u (hr_data r) = Inr req0"
    and "run_executes r xs e = Some (e', wrs)" and "list_all wr_failed wrs"
  shows "\<exists>m'. ep_mgr e' = Some m' \<and> gr_triggered (mgr_guard m') \<and>
    (grp_Action pol = DNSGuardRailActionForceLookup \<longrightarrow> mgr_forceLookup m')"
  using assms
proof (induction xs arbitrary: e m n f l wrs)
  case (Cons x xs)
  obtain req0 where req: "NewRequest x (hr_method r) u (hr_data r) = Inr req0" using Cons.prems(10) by auto
  obtain e1 wrs1 err wrs2 where ex: "http_Execute x r e = Some (e1, wrs1, err)"
    and rest: "run_executes r xs e1 = Some (e', wrs2)" and wrs: "wrs = wrs1 @ wrs2"
    using Cons.prems(11) by (auto simp: run_iff)
  obtain wr m1 st where s: "wrs1 = [wr]" "ep_URL e1 = Some u" "guard_counters m1 = guard_counters m"
    "ep_mgr e1 = Some (observeResult m1 (xe_observed x) st err)"
    "wr_failed wr \<longleftrightarrow> is_failure (xe_observed x, st, err)"
    using http_Execute_counters [OF Cons.prems(1,2) req ex] by auto
  have lt: "n < grp_ConsecutiveErrorThreshold pol" using Cons.prems(9) by simp
  have fail: "is_failure (xe_observed x, st, err)" using Cons.prems(12) s(1,5) wrs by simp
  have c1: "guard_counters m1 = (pol, n, f, l)" using s(3) Cons.prems(3) by simp
  note step = observeResult_count [OF c1 Cons.prems(4-7) lt fail]
  show ?case
  proof (cases xs)
    case Nil
    then have "n + 1 = grp_ConsecutiveErrorThreshold pol" and "e' = e1"
      using Cons.prems(9) rest by simp_all
    with step s(4) show ?thesis by simp
  next
    case (Cons y ys)
    then have ne: "n + 1 \<noteq> grp_ConsecutiveErrorThreshold pol" using Cons.prems(9) by simp
    then obtain f' l' where c2: "guard_counters (observeResult m1 (xe_observed x) st err) = (pol, n + 1, f', l')"
      using step by auto
    show ?thesis
      by (rule Cons.IH [OF s(2,4) c2 Cons.prems(4-6)]) (use Cons Cons.prems rest wrs in auto)
  qed
qed simp

section \<open>Properties\<close>

text \<open>The response carries the client's answer: its status and, unless it was read already, its body.\<close>

definition carries_answer :: "HTTPEndpoint \<Rightarrow> http_response \<Rightarrow> WatcherResponse \<Rightarrow> bool" where
  "carries_answer e rs wr \<longleftrightarrow> wr_Err wr = None \<and> md_StatusCode (wr_Metadata wr) = rs_StatusCode rs \<and> wr_ok wr \<and>
     (\<forall>b now. rs_Body rs = Some b \<and> \<not> bd_closed b \<and> \<not> ep_OptReadFast e \<longrightarrow>
       (\<exists>wr'. wr_Data now wr =
          Some ((if bd_end b = Sentinel IoEOF then (bd_rest b, None) else ([], Some (bd_end b))), wr')))"

text \<open>
  C7. An execution reports exactly once: whenever an initialised endpoint executes, it returns,
  sends exactly one response, and that response carries the endpoint's identifiers and URL and
  the very error the execution returns. There is an error exactly if the request could not be made
  or the client reported one; otherwise the response carries the client's answer: its status code
  and, unless the endpoint reads fast, data that are the whole body of that answer, or the error that
  ended the body.
\<close>

theorem execute_reports_once:
  assumes "ep_URL e = Some u" and "ep_client e = Some c"
  shows "\<exists>e' wr err. http_Execute x r e = Some (e', [wr], err) \<and> wr_Err wr = err \<and>
    wr_TaskID wr = ep_ID e \<and> wr_WatcherID wr = ep_watcherID e \<and> wr_URL wr = Some u \<and>
    ep_client e' \<noteq> None \<and>
    (case NewRequest x (hr_method r) u (hr_data r) of
       Inl er \<Rightarrow> err = Some er
     | Inr req0 \<Rightarrow> \<exists>p trips res. client_Do x (hc_transport c) (task_request e req0) = Some (p, trips, res) \<and>
         (case res of
            Inl er \<Rightarrow> err = Some er
          | Inr rs \<Rightarrow> err = None \<and> carries_answer e rs wr))"
proof (cases "NewRequest x (hr_method r) u (hr_data r)")
  case (Inl err)
  with assms http_Execute_invalid [OF assms(1) Inl] show ?thesis by (simp add: errorResponse_def)
next
  case (Inr req0)
  obtain p trips res where do: "client_Do x (hc_transport c) (task_request e req0) = Some (p, trips, res)"
    using client_Do_total by blast
  have data: "\<exists>wr'. wr_Data now wr =
      Some ((if bd_end b = Sentinel IoEOF then (bd_rest b, None) else ([], Some (bd_end b))), wr')"
    if "wr_Err wr = None" "wr_Payload wr = Some (HTTPPayload h)" "h_data h = []" "fresh_http rs b h" for wr h rs b now
    using http_Data_fresh [OF that(4), of now] that(1-3)
    by (cases "bd_end b = Sentinel IoEOF") (auto simp: wr_Data_def payload_Data_def)
  show ?thesis
  proof (cases res)
    case (Inl er)
    with http_Execute_run [OF assms Inr do] do Inr show ?thesis by auto
  next
    case r: (Inr rs)
    let ?e = "set_transport (set_manager (observeResult (pt_mgr p) (xe_observed x) (rs_StatusCode rs) None)
      (left_transport x e c p (length trips) res)) c e"
    from http_Execute_run [OF assms Inr do] obtain wr h where run:
      "http_Execute x r e = Some (?e, [wr], None)"
      "wr_TaskID wr = ep_ID e" "wr_WatcherID wr = ep_watcherID e" "wr_URL wr = Some u"
      "wr_Err wr = None" "wr_Payload wr = Some (HTTPPayload h)" "http_ok h"
      "md_StatusCode (http_Metadata h) = rs_StatusCode rs"
      "\<not> ep_OptReadFast e \<longrightarrow> h_data h = [] \<and> (\<forall>b. rs_Body rs = Some b \<and> \<not> bd_closed b \<longrightarrow> fresh_http rs b h)"
      unfolding r by auto
    have "wr_Err wr = None \<and> md_StatusCode (wr_Metadata wr) = rs_StatusCode rs \<and> wr_ok wr"
      using run by (simp add: wr_Metadata_def payload_Metadata_def wr_ok_def payload_ok_def)
    then have "carries_answer e rs wr"
      using data [OF run(5,6)] run(9) unfolding carries_answer_def by blast
    then show ?thesis using run(1-5) by (simp add: Inr do r)
  qed
qed

definition example_exec :: "go_error + netip_addr list \<times> duration \<Rightarrow> net_env \<Rightarrow> exec_env" where
  "example_exec reply ne =
     \<lparr>xe_reparse = Inr, xe_lookup = (\<lambda>i. example_env 7 reply), xe_net = (\<lambda>i. ne),
      xe_location = (\<lambda>u l. Inr (u\<lparr>url_Host := l\<rparr>)), xe_trace = [], xe_addrInTime = False,
      xe_observed = Instant 8, xe_read = Instant 9\<rparr>"

definition example_endpoint :: "DNSPolicy \<Rightarrow> HTTPEndpoint" where
  "example_endpoint policy = NewHTTPEndpoint (Some example_url) ''GET'' [WithDNSPolicy policy] ''id''"

lemma example_endpoint_simps [simp]:
  "ep_URL (example_endpoint policy) = Some example_url" "ep_ID (example_endpoint policy) = ''id''"
  "ep_dnsPolicy (example_endpoint policy) = policy" "ep_tlsSkipVerify (example_endpoint policy) = False"
  "ep_Header (example_endpoint policy) = Some []" "ep_OptReadFast (example_endpoint policy) = False"
  by (simp_all add: example_endpoint_def NewHTTPEndpoint_def WithDNSPolicy_def)

lemma example_NewRequest:
  "NewRequest (example_exec reply ne) ''GET'' u body =
     Inr \<lparr>rq_method = ''GET'', rq_url = u, rq_header = [], rq_body = body, rq_ctx = background_ctx\<rparr>"
proof -
  have "list_all is_token_char ''GET''" by code_simp
  then show ?thesis by (simp add: NewRequest_def example_exec_def Let_def)
qed

theorem execute_reports_once_witness:
  "\<exists>e' wr err. http_Execute (example_exec (Inl (ErrorString ''down'')) example_net)
       \<lparr>hr_data = [], hr_method = ''GET''\<rparr>
       (example_endpoint zero_policy\<lparr>ep_client := Some \<lparr>hc_transport = new_transport zero_policy False, hc_tls = None\<rparr>\<rparr>)
     = Some (e', [wr], err) \<and> wr_TaskID wr = ''id''"
  using execute_reports_once [of "example_endpoint zero_policy\<lparr>ep_client :=
      Some \<lparr>hc_transport = new_transport zero_policy False, hc_tls = None\<rparr>\<rparr>"]
  by fastforce

text \<open>
  The client always returns, after at most ten requests.
\<close>

theorem redirects_bounded:
  "\<exists>p' trips res. client_Do x p req = Some (p', trips, res) \<and> 1 \<le> length trips \<and> length trips \<le> 10"
  by (rule client_Do_total)

text \<open>
  C26. Failing executions trip the guard rail: from a newly initialised endpoint whose guard rail
  is enabled and has no window, as many executions in a row as the threshold, all of which fail
  or are answered with a server error, leave the trigger set for the next request, with a lookup
  forced if that is the action. Redirects and refreshes within the executions do not count.
\<close>

theorem failing_executions_trip:
  assumes "http_Initialize wid e = Some (None, e0)" and "ep_URL e = Some u"
    and "pol = pol_GuardRail (ep_dnsPolicy e)"
    and "guard_Enabled pol" and "grp_Window pol \<le> 0" and "in64 (grp_ConsecutiveErrorThreshold pol)"
    and "int (length xs) = grp_ConsecutiveErrorThreshold pol"
    and "\<forall>x \<in> set xs. \<exists>req0. NewRequest x (hr_method r) u (hr_data r) = Inr req0"
    and "run_executes r xs e0 = Some (e', wrs)" and "list_all wr_failed wrs"
  shows "\<exists>m'. ep_mgr e' = Some m' \<and> gr_triggered (mgr_guard m') \<and>
    (grp_Action pol = DNSGuardRailActionForceLookup \<longrightarrow> mgr_forceLookup m')"
proof -
  have e0: "ep_URL e0 = Some u" "ep_mgr e0 = Some (newDNSPolicyManager (ep_dnsPolicy e) (ep_dnsDecisionHook e))"
    using http_Initialize_ok [OF assms(1)] assms(2) by (auto simp: ep_mgr_def)
  have c: "guard_counters (newDNSPolicyManager (ep_dnsPolicy e) (ep_dnsDecisionHook e)) = (pol, 0, zero_time, zero_time)"
    using assms(3) by (simp add: guard_counters_def newDNSPolicyManager_def)
  have "xs \<noteq> []" using assms(4,7) by (auto simp: guard_Enabled_def)
  from run_executes_trip [OF e0 c assms(4-6) _ this _ assms(8-10)] assms(7) show ?thesis by simp
qed

definition example_tripping :: DNSPolicy where
  "example_tripping = zero_policy\<lparr>pol_Mode := DNSRefreshTTL,
     pol_GuardRail := \<lparr>grp_ConsecutiveErrorThreshold = 1, grp_Window = 0,
       grp_Action = DNSGuardRailActionForceLookup\<rparr>\<rparr>"

text \<open>An execution whose lookup fails, on an endpoint without a cached address.\<close>

lemma example_failing_Do:
  assumes "rq_url req = example_url"
  shows "\<exists>p' trips err. client_Do (example_exec (Inl (ErrorString ''down'')) example_net)
    (new_transport example_tripping False) req = Some (p', trips, Inl err)"
proof -
  let ?m = "newDNSPolicyManager example_tripping False"
  have m: "pol_Mode (mgr_policy ?m) = DNSRefreshTTL" "mgr_cache ?m = empty_cache"
    "mgr_resolver ?m = mgr_resolver (example_manager DNSRefreshTTL)"
    by (simp_all add: newDNSPolicyManager_def example_tripping_def example_manager_def zero_policy_def)
  have "mgr_resolve ?m (example_env 7 (Inl (ErrorString ''down''))) ''h'' ''80'' =
      Some (clear_force ?m, failed_lookup (mgr_policy ?m) ''h'' (ErrorString ''down''))"
    using m by (simp add: mgr_resolve_modes resolveTTL_eq ttl_expired_def empty_cache_def lookup_closure_def
        ttl_failed_def)
  then show ?thesis
    by (subst client_Do_def, subst do_hops.simps)
      (simp add: policy_RoundTrip_def prepareRequest_def assms example_exec_def failed_lookup_def
        prepare_failed_def zero_outcome_def new_transport_def Let_def)
qed

theorem failing_executions_trip_witness:
  "\<exists>e0 e' wrs m'. http_Initialize ''w'' (example_endpoint example_tripping) = Some (None, e0) \<and>
     run_executes \<lparr>hr_data = [], hr_method = ''GET''\<rparr>
       [example_exec (Inl (ErrorString ''down'')) example_net] e0 = Some (e', wrs) \<and>
     ep_mgr e' = Some m' \<and> gr_triggered (mgr_guard m') \<and> mgr_forceLookup m'"
proof -
  let ?e = "example_endpoint example_tripping" and ?r = "\<lparr>hr_data = [], hr_method = ''GET''\<rparr> :: httpRequest"
  let ?x = "example_exec (Inl (ErrorString ''down'')) example_net" and ?pol = "pol_GuardRail example_tripping"
  have "policy_Validate example_tripping = None"
    by (simp add: policy_Validate_def example_tripping_def zero_policy_def)
  then obtain e0 where init: "http_Initialize ''w'' ?e = Some (None, e0)"
    by (simp add: http_Initialize_def Let_def)
  then obtain cfg where e0: "e0 = ?e\<lparr>ep_watcherID := ''w'', ep_client := Some
      \<lparr>hc_transport = new_transport example_tripping False, hc_tls = cfg\<rparr>\<rparr>"
    using http_Initialize_ok [OF init]
    by (auto simp: example_endpoint_def NewHTTPEndpoint_def WithDNSPolicy_def)
  define req0 where "req0 = (\<lparr>rq_method = ''GET'', rq_url = example_url, rq_header = [], rq_body = [],
    rq_ctx = background_ctx\<rparr> :: http_request)"
  have req: "NewRequest ?x (hr_method ?r) example_url (hr_data ?r) = Inr req0"
    by (simp add: example_NewRequest req0_def)
  obtain p trips err where do: "client_Do ?x (new_transport example_tripping False) (task_request e0 req0) =
      Some (p, trips, Inl err)"
    using example_failing_Do [of "task_request e0 req0"] by (auto simp: task_request_def req0_def)
  have c: "ep_client e0 = Some \<lparr>hc_transport = new_transport example_tripping False, hc_tls = cfg\<rparr>"
    and u: "ep_URL e0 = Some example_url" by (simp_all add: e0)
  obtain e1 wr where ex: "http_Execute ?x ?r e0 = Some (e1, [wr], Some err)" "wr_Err wr = Some err"
    using http_Execute_run [OF u c req] do by fastforce
  then have run: "run_executes ?r [?x] e0 = Some (e1, [wr])" by simp
  have g: "guard_Enabled ?pol" "grp_Window ?pol \<le> 0" "in64 (grp_ConsecutiveErrorThreshold ?pol)"
    "int (length [?x]) = grp_ConsecutiveErrorThreshold ?pol"
    "grp_Action ?pol = DNSGuardRailActionForceLookup"
    by (simp_all add: example_tripping_def guard_Enabled_def in64_def)
  have good: "\<forall>x \<in> set [?x]. \<exists>req0. NewRequest x (hr_method ?r) example_url (hr_data ?r) = Inr req0"
    using req by simp
  have fl: "list_all wr_failed [wr]" using ex by (simp add: wr_failed_def)
  from failing_executions_trip [OF init _ _ g(1-4) good run fl] g(5) init run show ?thesis by auto
qed

section \<open>Properties of the shared cache and decision\<close>

lemma policy_RoundTrip_single:
  assumes mode: "pol_Mode (mgr_policy (pt_mgr p)) = DNSRefreshSingleLookup" and ne: "mgr_addrs p \<noteq> []"
    and rt: "policy_RoundTrip p env net req = Some r"
  shows "mgr_addrs (rt_transport r) = mgr_addrs p"
proof -
  have lm: "lookup_mode (pol_Mode (mgr_policy (pt_mgr p)))" using mode by (simp add: lookup_mode_def)
  show ?thesis
  proof (cases "rt_carrier r = NotSent")
    case True
    from policy_RoundTrip_not_sent [OF lm rt True] show ?thesis by (auto simp: mgr_addrs_def)
  next
    case False
    from lm rt False show ?thesis
    proof (rule policy_RoundTrip_sent)
      fix m1 oc m2 tr1 pr ca res tr2
      assume res: "mgr_resolve (pt_mgr p) env (url_Hostname (rq_url req)) (request_port (rq_url req)) = Some (m1, oc, None)"
        and go: "prepare_go m1 (pt_base p) (rq_ctx req) (url_Hostname (rq_url req)) oc = (m2, tr1, pr)"
        and r: "r = \<lparr>rt_transport = \<lparr>pt_base = tr2, pt_mgr = m2\<rparr>, rt_hook = pr_hook pr, rt_carrier = ca, rt_result = res\<rparr>"
      have "m1 = pt_mgr p"
        using res mode ne by (simp add: mgr_resolve_modes resolveSingle_eq mgr_addrs_def)
      with prepare_go_simps(1) [OF go] show ?thesis by (simp add: r mgr_addrs_def)
    qed
  qed
qed

lemma policy_RoundTrip_lastDecision:
  assumes mode: "lookup_mode (pol_Mode (mgr_policy (pt_mgr p)))"
    and rt: "policy_RoundTrip p env net req = Some r" and sent: "rt_carrier r \<noteq> NotSent"
  shows "mgr_lastDecision (pt_mgr (rt_transport r)) = mgr_lastDecision (pt_mgr p)"
  using mode rt sent
proof (rule policy_RoundTrip_sent)
  fix m1 oc m2 tr1 pr ca res tr2
  assume res: "mgr_resolve (pt_mgr p) env (url_Hostname (rq_url req)) (request_port (rq_url req)) = Some (m1, oc, None)"
    and go: "prepare_go m1 (pt_base p) (rq_ctx req) (url_Hostname (rq_url req)) oc = (m2, tr1, pr)"
    and r: "r = \<lparr>rt_transport = \<lparr>pt_base = tr2, pt_mgr = m2\<rparr>, rt_hook = pr_hook pr, rt_carrier = ca, rt_result = res\<rparr>"
  have "mgr_lastDecision (snd (consumeGuardTrigger m1)) = mgr_lastDecision m1"
    by (simp add: consumeGuardTrigger_def)
  with mgr_resolve_contract(4) [OF mode res] prepare_go_simps(1) [OF go] show ?thesis by (simp add: r)
qed

lemma getLastDecision_observe [simp]: "getLastDecision (observeResult m now st err) = getLastDecision m"
  by (simp add: getLastDecision_def observeResult_def registerGuardFailure_def resetGuard_def Let_def)

text \<open>
  The cache does not know its host: with an address cached in single-lookup mode, every
  request of an execution goes to that address, also the requests of redirects to other hosts.
\<close>

theorem redirects_keep_address:
  assumes "pol_Mode (mgr_policy (pt_mgr p)) = DNSRefreshSingleLookup" and "mgr_addrs p \<noteq> []"
    and "pool_current p" and "client_Do x p req = Some (p', trips, res)"
  shows "\<forall>r \<in> set trips. \<forall>c. carrier_conn (rt_carrier r) = Some c \<longrightarrow> conn_to (mgr_addrs p) c"
proof -
  define P where "P q \<longleftrightarrow> pol_Mode (mgr_policy (pt_mgr q)) = DNSRefreshSingleLookup \<and>
    mgr_addrs q = mgr_addrs p \<and> pool_current q" for q
  define Q where "Q req r \<longleftrightarrow> (\<forall>c. carrier_conn (rt_carrier r) = Some c \<longrightarrow> conn_to (mgr_addrs p) c)"
    for req :: http_request and r :: round_trip
  have "P (rt_transport r) \<and> Q req r"
    if "P q" and rt: "policy_RoundTrip q (xe_lookup x i) (xe_net x i) req = Some r" for q i req r
  proof -
    have q: "lookup_mode (pol_Mode (mgr_policy (pt_mgr q)))" "pool_current q"
      "pol_Mode (mgr_policy (pt_mgr q)) = DNSRefreshSingleLookup" "mgr_addrs q = mgr_addrs p"
      using that(1) by (simp_all add: P_def lookup_mode_def)
    with policy_RoundTrip_current [OF q(1) rt q(2)] policy_RoundTrip_single [OF q(3) _ rt]
      policy_RoundTrip_pool [OF q(1) rt q(2)] assms(2)
    show ?thesis by (auto simp: P_def Q_def)
  qed
  moreover have "P (end_body ne q q')" if "P q'" for ne q q'
    using that by (simp add: P_def end_body_within)
  ultimately have "P p' \<and> (\<forall>r \<in> set trips. \<exists>req. Q req r)"
    using do_hops_invariant [OF assms(4) [unfolded client_Do_def], of P Q] assms(1,3) by (simp add: P_def)
  then show ?thesis by (auto simp: Q_def)
qed

definition example_single :: policyTransport where
  "example_single = example_transport\<lparr>pt_mgr := (pt_mgr example_transport)\<lparr>mgr_policy :=
     (mgr_policy (pt_mgr example_transport))\<lparr>pol_Mode := DNSRefreshSingleLookup\<rparr>\<rparr>\<rparr>"

definition example_redirect :: net_env where
  "example_redirect = example_net\<lparr>ne_exchange := Inr (example_response\<lparr>rs_StatusCode := 302,
     rs_Header := [(''Location'', [''other''])]\<rparr>)\<rparr>"

theorem redirects_keep_address_witness:
  "\<exists>p' trips res. client_Do (example_exec (Inl (ErrorString ''down'')) example_redirect) example_single
       example_request = Some (p', trips, res) \<and>
     (\<forall>r \<in> set trips. \<forall>c. carrier_conn (rt_carrier r) = Some c \<longrightarrow> conn_to [AddrV4 192 0 2 1] c)"
proof -
  have h: "pol_Mode (mgr_policy (pt_mgr example_single)) = DNSRefreshSingleLookup"
    "mgr_addrs example_single = [AddrV4 192 0 2 1]" "pool_current example_single"
    using example_pool by (simp_all add: example_single_def example_transport_def mgr_addrs_def pool_within_def)
  obtain p' trips res where do: "client_Do (example_exec (Inl (ErrorString ''down'')) example_redirect)
      example_single example_request = Some (p', trips, res)"
    using client_Do_total by blast
  from redirects_keep_address [OF h(1) _ h(3) do] h(2) do show ?thesis by auto
qed

text \<open>
  C38. The stored decision is never cleared: when an earlier request left a decision behind and a
  later request is resolved and sent but fails on the network, the response to the later request
  carries the earlier decision.
\<close>

theorem stale_decision_attached:
  assumes "ep_URL e = Some u" and "ep_client e = Some c"
    and "NewRequest x (hr_method r) u (hr_data r) = Inr req0"
    and "lookup_mode (pol_Mode (mgr_policy (pt_mgr (hc_transport c))))"
    and "mgr_lastDecision (pt_mgr (hc_transport c)) = Some d"
    and "policy_RoundTrip (hc_transport c) (xe_lookup x 0) (xe_net x 0) (task_request e req0) = Some t"
    and "rt_carrier t \<noteq> NotSent" and "rt_result t = Inl err"
  shows "\<exists>e' wr err'. http_Execute x r e = Some (e', [wr], Some err') \<and>
    wr_Payload wr = Some (ErrorPayload \<lparr>he_dnsDecision = Some d\<rparr>)"
proof -
  have do: "client_Do x (hc_transport c) (task_request e req0) = Some (rt_transport t, [t],
      Inl (url_error (rq_method (task_request e req0)) (rq_url (task_request e req0)) err))"
    by (subst client_Do_def, subst do_hops.simps) (simp add: assms(6,8))
  have "getLastDecision (pt_mgr (rt_transport t)) = Some d"
    using policy_RoundTrip_lastDecision [OF assms(4,6,7)] assms(5) by (simp add: getLastDecision_def)
  with http_Execute_run [OF assms(1-3) do] show ?thesis by auto
qed

definition example_stale :: policyTransport where
  "example_stale = \<lparr>pt_base = empty_pool, pt_mgr = (pt_mgr example_transport)
     \<lparr>mgr_lastDecision := Some (new_decision ''old'' DNSRefreshTTL)\<rparr>\<rparr>"

theorem stale_decision_attached_witness:
  "\<exists>e' wr err'. http_Execute
       (example_exec (Inl (ErrorString ''down'')) (example_net\<lparr>ne_dial := \<lambda>_. Some (ErrorString ''refused'')\<rparr>))
       \<lparr>hr_data = [], hr_method = ''GET''\<rparr>
       (example_endpoint zero_policy\<lparr>ep_client := Some \<lparr>hc_transport = example_stale, hc_tls = None\<rparr>\<rparr>)
     = Some (e', [wr], Some err') \<and>
     wr_Payload wr = Some (ErrorPayload \<lparr>he_dnsDecision = Some (new_decision ''old'' DNSRefreshTTL)\<rparr>)"
proof -
  let ?x = "example_exec (Inl (ErrorString ''down'')) (example_net\<lparr>ne_dial := \<lambda>_. Some (ErrorString ''refused'')\<rparr>)"
  let ?r = "\<lparr>hr_data = [], hr_method = ''GET''\<rparr> :: httpRequest"
  let ?e = "example_endpoint zero_policy\<lparr>ep_client := Some \<lparr>hc_transport = example_stale, hc_tls = None\<rparr>\<rparr>"
  let ?req = "\<lparr>rq_method = ''GET'', rq_url = example_url, rq_header = [], rq_body = [],
    rq_ctx = background_ctx\<rparr> :: http_request"
  have u: "ep_URL ?e = Some example_url" and c: "ep_client ?e = Some \<lparr>hc_transport = example_stale, hc_tls = None\<rparr>"
    by simp_all
  have req: "NewRequest ?x (hr_method ?r) example_url (hr_data ?r) = Inr ?req" by (simp add: example_NewRequest)
  have m: "lookup_mode (pol_Mode (mgr_policy (pt_mgr (hc_transport \<lparr>hc_transport = example_stale, hc_tls = None\<rparr>))))"
    "mgr_lastDecision (pt_mgr (hc_transport \<lparr>hc_transport = example_stale, hc_tls = None\<rparr>)) =
      Some (new_decision ''old'' DNSRefreshTTL)"
    by (simp_all add: example_stale_def example_transport_def lookup_mode_def)
  have "\<exists>t. policy_RoundTrip example_stale (xe_lookup ?x 0) (xe_net ?x 0) (task_request ?e ?req) = Some t \<and>
      rt_carrier t \<noteq> NotSent \<and> (\<exists>err. rt_result t = Inl err)"
    by (simp add: task_request_def example_exec_def example_stale_def example_eval add_headers_def
        split: prod.split sum.split)
  then obtain t err where t: "policy_RoundTrip (hc_transport \<lparr>hc_transport = example_stale, hc_tls = None\<rparr>)
      (xe_lookup ?x 0) (xe_net ?x 0) (task_request ?e ?req) = Some t"
    "rt_carrier t \<noteq> NotSent" "rt_result t = Inl err" by auto
  from stale_decision_attached [OF u c req m t] show ?thesis by blast
qed

text \<open>
  Initialisation: an endpoint with a URL is initialised exactly if its policy is valid; it
  then has a client with an empty pool and a manager that follows this policy, and certificate
  checks are switched off exactly if that was asked for and the scheme is https. Otherwise the
  error is \<^verbatim>\<open>ErrInvalidDNSPolicy\<close> and there is no new client.
\<close>

theorem initialize_endpoint:
  assumes "ep_URL e = Some u"
  shows "\<exists>err e1. http_Initialize wid e = Some (err, e1) \<and> ep_watcherID e1 = wid \<and>
    (if policy_ok (ep_dnsPolicy e)
     then err = None \<and> (\<exists>c. ep_client e1 = Some c \<and>
       hc_transport c = new_transport (ep_dnsPolicy e) (ep_dnsDecisionHook e) \<and>
       ((\<exists>cfg. hc_tls c = Some cfg \<and> tls_InsecureSkipVerify cfg \<and> tls_ServerName cfg = url_Hostname u) =
         (ep_tlsSkipVerify e \<and> url_Scheme u = ''https'')))
     else err_Is err ErrInvalidDNSPolicy \<and> ep_client e1 = ep_client e)"
proof (cases "policy_Validate (ep_dnsPolicy e)")
  case None
  moreover have "policy_ok (ep_dnsPolicy e)" using None by (simp add: policy_Validate_None_iff)
  ultimately show ?thesis using assms by (simp add: http_Initialize_def Let_def)
next
  case (Some err)
  with assms policy_Validate_Is [of "ep_dnsPolicy e"] policy_Validate_None_iff [of "ep_dnsPolicy e"]
  show ?thesis by (auto simp: http_Initialize_def Let_def)
qed

theorem initialize_endpoint_witness:
  "\<exists>e1. http_Initialize ''w'' (example_endpoint example_tripping) = Some (None, e1)"
proof -
  have ok: "policy_ok example_tripping"
    by (simp add: policy_ok_def example_tripping_def zero_policy_def)
  obtain err e1 where "http_Initialize ''w'' (example_endpoint example_tripping) = Some (err, e1)"
    "err = None"
    using initialize_endpoint [of "example_endpoint example_tripping" example_url "''w''"]
    unfolding example_endpoint_simps if_P [OF ok] by blast
  then show ?thesis by blast
qed

end
