(* ===== verification/WS_Endpoint.thy ===== *)
theory WS_Endpoint
  imports Response Turns
begin

text \<open>
  \<^verbatim>\<open>task_ws.go\<close>, part one: the WebSocket endpoint and its tasks as operations on the endpoint's
  state, with the mutex, the wait group of the read pump and the channel of responses as fields.

  The WebSocket and JSON-RPC libraries are parameters: what a call of them does is a field of
  \<open>ws_env\<close> (one record per operation) or of \<open>jsonrpc_lib\<close>. An operation returns, blocks for ever
  or panics.
\<close>

section \<open>State\<close>

datatype WSEndpointMode = ModeUnknown | OneHitText | PersistentJSONRPC | ModeUnnamed nat

record 'id wsInflightMessage =
  im_inflightID :: string
  im_originalID :: "'id option"
  im_timeSent :: gotime

text \<open>
  A connection is named by its remote address. \<open>we_ctx\<close> is the context, once there is one, with
  whether it has been cancelled; \<open>we_pumps\<close> counts the running read pumps (the wait group), and
  waiting for them blocks until it is zero; \<open>we_written\<close> lists the messages given to
  \<^verbatim>\<open>WriteMessage\<close>.

  \<open>we_respChan\<close> lists the responses handed to the channel, oldest first. It is what an operation
  sends if the channel takes it: a send that finds no room keeps the goroutine where it is, with
  the mutex where the code sends under the mutex (one-hit executions and write errors), until
  the forwarding goroutine or the consumer makes room.
\<close>

record 'id WSEndpoint =
  we_locked :: bool
  we_Header :: "header option"
  we_Mode :: WSEndpointMode
  we_Payload :: bytes
  we_URL :: "url option"
  we_ID :: string
  we_conn :: "string option"
  we_remoteAddr :: "string option"
  we_inflight :: "string \<Rightarrow> 'id wsInflightMessage option"
  we_pumps :: nat
  we_watcherID :: string
  we_respChan :: "WatcherResponse list"
  we_written :: "bytes list"
  we_ctx :: "bool option"

record ('req, 'resp, 'id) jsonrpc_lib =
  jr_empty :: 'req
  jr_Unmarshal :: "bytes \<Rightarrow> go_error + 'req"
  jr_IsEmpty :: "'req \<Rightarrow> bool"
  jr_ID :: "'req \<Rightarrow> 'id"
  jr_setID :: "'req \<Rightarrow> string \<Rightarrow> 'req"
  jr_Marshal :: "'req \<Rightarrow> go_error + bytes"
  jr_DecodeResponse :: "bytes \<Rightarrow> go_error + 'resp"
  jr_respIsEmpty :: "'resp \<Rightarrow> bool"
  jr_IDString :: "'resp \<Rightarrow> string"
  jr_RawResult :: "'resp \<Rightarrow> string"
  jr_WithID :: "'resp \<Rightarrow> 'id option \<Rightarrow> go_error + 'resp"
  jr_respMarshal :: "'resp \<Rightarrow> go_error + bytes"

text \<open>
  The outside of one operation: dialling gives an error or the remote address; the results of
  writing, reading, the close message and closing; what the library's two predicates on close
  errors say; the clock at the successive calls of \<^verbatim>\<open>time.Now\<close> and a random identifier.
\<close>

record ws_env =
  wv_dial :: "go_error + string"
  wv_write :: go_err
  wv_read :: "go_error + bytes"
  wv_control :: go_err
  wv_close :: go_err
  wv_IsUnexpectedCloseError :: "go_error \<Rightarrow> int list \<Rightarrow> bool"
  wv_IsCloseError :: "go_error \<Rightarrow> int list \<Rightarrow> bool"
  wv_now :: "nat \<Rightarrow> gotime"
  wv_xid :: string

definition CloseNormalClosure :: int where "CloseNormalClosure = 1000"
definition CloseGoingAway :: int where "CloseGoingAway = 1001"
definition CloseAbnormalClosure :: int where "CloseAbnormalClosure = 1006"
definition CloseServiceRestart :: int where "CloseServiceRestart = 1012"
definition CloseTryAgainLater :: int where "CloseTryAgainLater = 1013"

lemmas close_codes = CloseNormalClosure_def CloseGoingAway_def CloseAbnormalClosure_def
  CloseServiceRestart_def CloseTryAgainLater_def

section \<open>Errors\<close>

text \<open>\<^verbatim>\<open>errors.As\<close> for a close error and for a \<^verbatim>\<open>net.Error\<close> (by its \<^verbatim>\<open>Timeout()\<close>): the first in the tree.\<close>

fun first_some :: "'a option list \<Rightarrow> 'a option" where
  "first_some [] = None"
| "first_some (None # xs) = first_some xs"
| "first_some (Some a # xs) = Some a"

fun as_CloseError :: "go_error \<Rightarrow> (int \<times> string \<times> go_error) option" where
  "as_CloseError (CloseError code txt rendered) = Some (code, txt, CloseError code txt rendered)"
| "as_CloseError (Errorf p e) = as_CloseError e"
| "as_CloseError (JoinError es) = first_some (map as_CloseError es)"
| "as_CloseError (Sentinel s) = None"
| "as_CloseError (ErrorString m) = None"
| "as_CloseError (ForeignError ss tmo m) = None"

fun as_netError :: "go_error \<Rightarrow> bool option" where
  "as_netError (ForeignError ss tmo m) = tmo"
| "as_netError (Errorf p e) = as_netError e"
| "as_netError (JoinError es) = first_some (map as_netError es)"
| "as_netError (Sentinel s) = None"
| "as_netError (ErrorString m) = None"
| "as_netError (CloseError code txt rendered) = None"

text \<open>The prefix \<^verbatim>\<open>websocket unexpected close (%d %q): \<close>.\<close>

definition close_prefix :: "int \<Rightarrow> string \<Rightarrow> string" where
  "close_prefix code txt =
     ''websocket unexpected close ('' @ int_string code @ '' '' @ quoted txt @ ''): ''"

section \<open>The mutex and the channel\<close>

definition we_lock :: "'id WSEndpoint \<Rightarrow> 'id WSEndpoint outcome" where
  "we_lock e = (if we_locked e then Blocks else Returns (e\<lparr>we_locked := True\<rparr>))"

definition we_unlock :: "'id WSEndpoint \<Rightarrow> 'id WSEndpoint" where
  "we_unlock e = e\<lparr>we_locked := False\<rparr>"

definition send_resp :: "WatcherResponse \<Rightarrow> 'id WSEndpoint \<Rightarrow> 'id WSEndpoint" where
  "send_resp wr e = e\<lparr>we_respChan := we_respChan e @ [wr]\<rparr>"

definition send_error :: "go_error \<Rightarrow> url \<Rightarrow> 'id WSEndpoint \<Rightarrow> 'id WSEndpoint" where
  "send_error err u e = send_resp (errorResponse err (we_ID e) (we_watcherID e) (Some u)) e"

section \<open>The connection\<close>

definition ws_Close :: "ws_env \<Rightarrow> 'id WSEndpoint \<Rightarrow> (go_err \<times> 'id WSEndpoint) outcome" where
  "ws_Close env e0 = and_then (we_lock e0) (\<lambda>e.
     if we_conn e = None then Returns (None, we_unlock e)
     else
       (case wv_control env of
          Some err \<Rightarrow> Returns (Some err, we_unlock e)
        | None \<Rightarrow>
            (case wv_close env of
               Some err \<Rightarrow> Returns (Some err, we_unlock e)
             | None \<Rightarrow>
                 (case we_ctx e of
                    None \<Rightarrow> Panics
                  | Some _ \<Rightarrow> Returns (None, we_unlock (e\<lparr>we_conn := None, we_ctx := Some True\<rparr>))))))"

definition closeConn :: "ws_env \<Rightarrow> 'id WSEndpoint \<Rightarrow> (go_err \<times> 'id WSEndpoint) outcome" where
  "closeConn env e0 = and_then (we_lock e0) (\<lambda>e.
     if we_conn e \<noteq> None then Returns (wv_close env, we_unlock (e\<lparr>we_conn := None\<rparr>))
     else Returns (None, we_unlock e))"

definition connect :: "ws_env \<Rightarrow> 'id WSEndpoint \<Rightarrow> (go_err \<times> 'id WSEndpoint) outcome" where
  "connect env e0 =
     (if we_Mode e0 \<noteq> PersistentJSONRPC
      then Returns (Some (ErrorString ''cannot establish long lived connection for non-long mode''), e0)
      else and_then (we_lock e0) (\<lambda>e.
        if we_conn e \<noteq> None
        then Returns (Some (ErrorString ''connection already established''), we_unlock e)
        else if we_URL e = None then Panics
        else
          (case wv_dial env of
             Inl err \<Rightarrow> Returns (Some err, we_unlock e)
           | Inr addr \<Rightarrow>
               Returns (None, we_unlock (e\<lparr>we_conn := Some addr, we_remoteAddr := Some addr,
                                           we_pumps := we_pumps e + 1\<rparr>)))))"

definition nilConn :: "'id WSEndpoint \<Rightarrow> (bool \<times> 'id WSEndpoint) outcome" where
  "nilConn e0 = and_then (we_lock e0) (\<lambda>e. Returns (we_conn e = None, we_unlock e))"

text \<open>
  \<^verbatim>\<open>reconnect\<close> holds the mutex only while it looks at the connection and while it dials. In between
  it closes the old connection, which panics if the connection has become nil meanwhile, and waits
  until no read pump runs. It is made of these parts, between which others may come.
\<close>

definition close_old :: "ws_env \<Rightarrow> 'id WSEndpoint \<Rightarrow> (go_err \<times> 'id WSEndpoint) outcome" where
  "close_old env e =
     (if we_conn e = None then Panics
      else Returns (map_option (Errorf ''failed to close connection: '') (wv_close env), e))"

definition wait_pump :: "'id WSEndpoint \<Rightarrow> 'id WSEndpoint outcome" where
  "wait_pump e = (if we_pumps e = 0 then Returns e else Blocks)"

definition redial :: "ws_env \<Rightarrow> 'id WSEndpoint \<Rightarrow> (go_err \<times> 'id WSEndpoint) outcome" where
  "redial env e0 = and_then (we_lock e0) (\<lambda>e.
     if we_URL e = None then Panics
     else
       (case wv_dial env of
          Inl err \<Rightarrow> Returns (Some (Errorf ''failed to dial when reconnecting: '' err),
                      we_unlock (e\<lparr>we_conn := None\<rparr>))
        | Inr addr \<Rightarrow>
            Returns (None, we_unlock (e\<lparr>we_conn := Some addr, we_pumps := we_pumps e + 1\<rparr>))))"

definition reconnect :: "ws_env \<Rightarrow> 'id WSEndpoint \<Rightarrow> (go_err \<times> 'id WSEndpoint) outcome" where
  "reconnect env e0 =
     (if we_Mode e0 \<noteq> PersistentJSONRPC
      then Returns (Some (ErrorString ''can only reconnect for long-lived connections''), e0)
      else and_then (nilConn e0) (\<lambda>(isNil, e1).
        and_then (if isNil then Returns (None, e1) else close_old env e1) (\<lambda>(err, e2).
          if err \<noteq> None then Returns (err, e2)
          else and_then (wait_pump e2) (redial env))))"

definition ws_Initialize :: "ws_env \<Rightarrow> string \<Rightarrow> 'id WSEndpoint \<Rightarrow> (go_err \<times> 'id WSEndpoint) outcome" where
  "ws_Initialize env watcherID e0 = and_then (we_lock e0) (\<lambda>e.
     let e1 = we_unlock (e\<lparr>we_watcherID := watcherID, we_ctx := Some False\<rparr>)
     in case we_Mode e1 of
          PersistentJSONRPC \<Rightarrow> and_then (connect env e1) (\<lambda>(err, e2).
            Returns (map_option (Errorf ''failed to connect when initializing: '') err, e2))
        | OneHitText \<Rightarrow> Returns (None, e1)
        | _ \<Rightarrow> and_then (we_lock e1) (\<lambda>e2. Returns (None, we_unlock (e2\<lparr>we_Mode := OneHitText\<rparr>))))"

definition ws_Validate :: "string \<Rightarrow> 'id WSEndpoint \<Rightarrow> go_err \<times> 'id WSEndpoint" where
  "ws_Validate xid e =
     (if we_URL e = None then (Some (ErrorString ''URL is nil''), e)
      else
        let e1 = (if we_Header e = None then e\<lparr>we_Header := Some []\<rparr> else e)
        in (None, if we_ID e1 = [] then e1\<lparr>we_ID := xid\<rparr> else e1))"

definition NewWSEndpoint ::
    "url option \<Rightarrow> header option \<Rightarrow> WSEndpointMode \<Rightarrow> bytes \<Rightarrow> string \<Rightarrow> 'id WSEndpoint" where
  "NewWSEndpoint wsURL header mode payload i =
     \<lparr>we_locked = False, we_Header = header, we_Mode = mode, we_Payload = payload, we_URL = wsURL,
      we_ID = i, we_conn = None, we_remoteAddr = None, we_inflight = (\<lambda>_. None), we_pumps = 0,
      we_watcherID = [], we_respChan = [], we_written = [], we_ctx = None\<rparr>"

datatype wsPersistentProtocol = UnknownProtocol | JSONRPC

datatype wsTask = wsPersistent wsPersistentProtocol | wsOneHit

definition ws_Task :: "'id WSEndpoint \<Rightarrow> wsTask" where
  "ws_Task e = (case we_Mode e of PersistentJSONRPC \<Rightarrow> wsPersistent JSONRPC | _ \<Rightarrow> wsOneHit)"

section \<open>The read pump\<close>

definition closing :: "ws_env \<Rightarrow> 'id WSEndpoint \<Rightarrow> 'id WSEndpoint outcome" where
  "closing env e = and_then (closeConn env e) (\<lambda>(_, e1). Returns e1)"

definition handleWebSocketCloseError ::
    "ws_env \<Rightarrow> int \<Rightarrow> string \<Rightarrow> go_error \<Rightarrow> url \<Rightarrow> 'id WSEndpoint \<Rightarrow> 'id WSEndpoint outcome" where
  "handleWebSocketCloseError env code txt ce u e =
     (if code \<in> {CloseNormalClosure, CloseGoingAway, CloseServiceRestart} then closing env e
      else if code = CloseTryAgainLater
      then closing env (send_error (Errorf ''websocket closed: try again later (1013): '' ce) u e)
      else if code = CloseAbnormalClosure
      then closing env (send_error (Errorf ''websocket closed abnormally (1006): '' ce) u e)
      else closing env (send_error (Errorf (close_prefix code txt) ce) u e))"

definition handleNetworkError :: "ws_env \<Rightarrow> go_error \<Rightarrow> url \<Rightarrow> 'id WSEndpoint \<Rightarrow> 'id WSEndpoint outcome" where
  "handleNetworkError env err u e =
     (if as_netError err = Some True
      then closing env (send_error (Errorf ''websocket read timeout error: '' err) u e)
      else closing env (send_error (Errorf ''websocket read error: '' err) u e))"

definition handleWebSocketReadError ::
    "ws_env \<Rightarrow> go_error \<Rightarrow> url \<Rightarrow> 'id WSEndpoint \<Rightarrow> 'id WSEndpoint outcome" where
  "handleWebSocketReadError env err u e =
     (case we_ctx e of
        None \<Rightarrow> Panics
      | Some True \<Rightarrow> closing env e
      | Some False \<Rightarrow>
          (case as_CloseError err of
             Some (code, txt, ce) \<Rightarrow> handleWebSocketCloseError env code txt ce u e
           | None \<Rightarrow>
               if errors_Is err NetErrClosed \<or>
                  str_contains (error_text err) ''use of closed network connection''
               then closing env e
               else if wv_IsUnexpectedCloseError env err
                         [CloseNormalClosure, CloseGoingAway, CloseServiceRestart]
               then closing env (send_error (Errorf ''websocket unexpected close: '' err) u e)
               else handleNetworkError env err u e))"

section \<open>Incoming messages\<close>

definition parseJSONRPCResponse ::
    "('req, 'resp, 'id) jsonrpc_lib \<Rightarrow> bytes \<Rightarrow> url \<Rightarrow> 'id WSEndpoint \<Rightarrow> 'resp option \<times> 'id WSEndpoint" where
  "parseJSONRPCResponse L p u e =
     (case jr_DecodeResponse L p of
        Inl err \<Rightarrow> (None, send_error (Errorf ''failed parsing jsonrpc.Response from bytes: '' err) u e)
      | Inr resp \<Rightarrow> (Some resp, e))"

definition processInflightMessage ::
    "('req, 'resp, 'id) jsonrpc_lib \<Rightarrow> 'resp \<Rightarrow> 'id wsInflightMessage \<Rightarrow> requestTimestamps \<Rightarrow> url
       \<Rightarrow> 'id WSEndpoint \<Rightarrow> 'id WSEndpoint" where
  "processInflightMessage L resp msg timestamps u e =
     (let e1 = e\<lparr>we_inflight := (we_inflight e)(jr_IDString L resp := None)\<rparr>;
          ts = timestamps\<lparr>ts_start := im_timeSent msg\<rparr>
      in case jr_WithID L resp (im_originalID msg) of
           Inl err \<Rightarrow> send_error (Errorf ''failed restoring original ID: '' err) u e1
         | Inr respClone \<Rightarrow>
             (case jr_respMarshal L respClone of
                Inl err \<Rightarrow> send_error (Errorf ''failed re-marshaling JSON-RPC response: '' err) u e1
              | Inr data \<Rightarrow>
                  send_resp
                    \<lparr>wr_TaskID = we_ID e1, wr_WatcherID = we_watcherID e1, wr_URL = Some u, wr_Err = None,
                     wr_Payload = Some (WSPayload
                       ((newWSTaskResponse (we_remoteAddr e1) data)\<lparr>w_timestamps := ts\<rparr>))\<rparr> e1))"

definition handleJSONRPCResponse ::
    "('req, 'resp, 'id) jsonrpc_lib \<Rightarrow> bytes \<Rightarrow> requestTimestamps \<Rightarrow> url \<Rightarrow> 'id WSEndpoint \<Rightarrow> 'id WSEndpoint" where
  "handleJSONRPCResponse L p timestamps u e =
     (case parseJSONRPCResponse L p u e of
        (None, e1) \<Rightarrow> e1
      | (Some resp, e1) \<Rightarrow>
          if jr_respIsEmpty L resp then send_error (ErrorString ''empty JSON-RPC response'') u e1
          else if jr_IDString L resp = []
          then send_error (ErrorString (''found nil response ID, error: '' @ jr_RawResult L resp)) u e1
          else
            (case we_inflight e1 (jr_IDString L resp) of
               Some msg \<Rightarrow> processInflightMessage L resp msg timestamps u e1
             | None \<Rightarrow> send_error (ErrorString (''unknown response ID: '' @ jr_IDString L resp)) u e1))"

definition handleRegularResponse :: "bytes \<Rightarrow> url \<Rightarrow> 'id WSEndpoint \<Rightarrow> 'id WSEndpoint" where
  "handleRegularResponse p u e =
     send_resp
       \<lparr>wr_TaskID = we_ID e, wr_WatcherID = we_watcherID e, wr_URL = Some u, wr_Err = None,
        wr_Payload = Some (WSPayload (newWSTaskResponse (we_remoteAddr e) p))\<rparr> e"

definition write_message :: "bytes \<Rightarrow> 'id WSEndpoint \<Rightarrow> 'id WSEndpoint" where
  "write_message p e = e\<lparr>we_written := we_written e @ [p]\<rparr>"

text \<open>
  One turn of the loop of \<^verbatim>\<open>readPump\<close>: whether the pump goes on, and the endpoint. A turn looks
  at the context and the connection, and panics if the connection is nil; then it waits for the
  read, which may return when the context has been cancelled or the connection replaced. A pump
  that ends leaves the wait group.
\<close>

definition pump_done :: "'id WSEndpoint \<Rightarrow> 'id WSEndpoint" where
  "pump_done e = e\<lparr>we_pumps := we_pumps e - 1\<rparr>"

definition pump_read ::
    "('req, 'resp, 'id) jsonrpc_lib \<Rightarrow> ws_env \<Rightarrow> url \<Rightarrow> 'id WSEndpoint \<Rightarrow> (bool \<times> 'id WSEndpoint) outcome" where
  "pump_read L env u e =
     (case wv_read env of
        Inl err \<Rightarrow> and_then (handleWebSocketReadError env err u e) (\<lambda>e1. Returns (False, pump_done e1))
      | Inr p \<Rightarrow>
          let timestamps = zero_timestamps\<lparr>ts_firstByte := wv_now env 0\<rparr>
          in Returns (True,
               if we_Mode e = PersistentJSONRPC then handleJSONRPCResponse L p timestamps u e
               else handleRegularResponse p u e))"

definition readPump ::
    "('req, 'resp, 'id) jsonrpc_lib \<Rightarrow> ws_env \<Rightarrow> 'id WSEndpoint \<Rightarrow> (bool \<times> 'id WSEndpoint) outcome" where
  "readPump L env e =
     (case we_ctx e of
        None \<Rightarrow> Panics
      | Some True \<Rightarrow> Returns (False, pump_done e)
      | Some False \<Rightarrow>
          (case we_URL e of
             None \<Rightarrow> Panics
           | Some u \<Rightarrow> if we_conn e = None then Panics else pump_read L env u e))"

section \<open>One-hit tasks\<close>

definition establishConnection :: "ws_env \<Rightarrow> requestTimestamps \<times> (go_error + string)" where
  "establishConnection env =
     (let ts = zero_timestamps\<lparr>ts_start := wv_now env 0, ts_dnsStart := wv_now env 1,
                 ts_connStart := wv_now env 2, ts_tlsStart := wv_now env 3\<rparr>
      in case wv_dial env of
           Inl err \<Rightarrow> (ts, Inl (Errorf ''failed to dial: '' err))
         | Inr addr \<Rightarrow> (ts\<lparr>ts_dnsDone := wv_now env 4, ts_connDone := wv_now env 5,
                           ts_tlsDone := wv_now env 6\<rparr>, Inr addr))"

definition sendAndReceiveMessage :: "ws_env \<Rightarrow> requestTimestamps \<Rightarrow> requestTimestamps \<times> (go_error + bytes)" where
  "sendAndReceiveMessage env ts =
     (case wv_write env of
        Some err \<Rightarrow> (ts, Inl (Errorf ''failed to write message: '' err))
      | None \<Rightarrow>
          let ts1 = ts\<lparr>ts_wroteDone := wv_now env 7\<rparr>
          in case wv_read env of
               Inl err \<Rightarrow> (ts1, Inl (Errorf ''failed to read message: '' err))
             | Inr message \<Rightarrow> (ts1\<lparr>ts_firstByte := wv_now env 8, ts_dataDone := wv_now env 9\<rparr>, Inr message))"

definition closeConnectionGracefully :: "ws_env \<Rightarrow> go_err" where
  "closeConnectionGracefully env = map_option (Errorf ''failed to write close message: '') (wv_control env)"

text \<open>
  The connection of a one-hit task is its own and is closed on every path; what the close message and
  the close report is ignored.
\<close>

definition oneHit_Execute :: "ws_env \<Rightarrow> 'id WSEndpoint \<Rightarrow> (go_err \<times> 'id WSEndpoint) outcome" where
  "oneHit_Execute env e0 =
     (if we_conn e0 \<noteq> None then Returns (Some (ErrorString ''connection is already open''), e0)
      else and_then (we_lock e0) (\<lambda>e.
        case we_URL e of
          None \<Rightarrow> Panics
        | Some u \<Rightarrow>
            (case we_ctx e of
               None \<Rightarrow> Panics
             | Some True \<Rightarrow> Returns (None, we_unlock e)
             | Some False \<Rightarrow>
                 (case establishConnection env of
                    (_, Inl err) \<Rightarrow> Returns (Some err, we_unlock (send_error err u e))
                  | (ts, Inr addr) \<Rightarrow>
                      let e1 = write_message (we_Payload e) e
                      in case sendAndReceiveMessage env ts of
                           (_, Inl err) \<Rightarrow> Returns (Some err, we_unlock (send_error err u e1))
                         | (ts1, Inr message) \<Rightarrow>
                             let e2 = send_resp
                                   \<lparr>wr_TaskID = we_ID e1, wr_WatcherID = we_watcherID e1, wr_URL = Some u, wr_Err = None,
                                    wr_Payload = Some (WSPayload
                                      ((newWSTaskResponse (Some addr) message)\<lparr>w_timestamps := ts1\<rparr>))\<rparr> e1;
                                 ignored = closeConnectionGracefully env
                             in Returns (None, we_unlock e2)))))"

section \<open>Persistent tasks\<close>

definition prepareJSONRPCMessage ::
    "('req, 'resp, 'id) jsonrpc_lib \<Rightarrow> ws_env \<Rightarrow> 'id WSEndpoint \<Rightarrow> go_error + bytes \<times> 'id wsInflightMessage" where
  "prepareJSONRPCMessage L env e =
     (case (if we_Payload e \<noteq> [] then jr_Unmarshal L (we_Payload e) else Inr (jr_empty L)) of
        Inl err \<Rightarrow> Inl (Errorf ''failed to unmarshal JSON-RPC message: '' err)
      | Inr req \<Rightarrow>
          let inflightID = wv_xid env;
              originalID = (if jr_IsEmpty L req then None else Some (jr_ID L req));
              req' = (if jr_IsEmpty L req then req else jr_setID L req inflightID)
          in case jr_Marshal L req' of
               Inl err \<Rightarrow> Inl (Errorf ''failed to marshal JSON-RPC message: '' err)
             | Inr payload \<Rightarrow> Inr (payload, \<lparr>im_inflightID = inflightID, im_originalID = originalID,
                                         im_timeSent = wv_now env 0\<rparr>))"

text \<open>
  \<^verbatim>\<open>handleWriteError\<close>, which \<^verbatim>\<open>Execute\<close> calls with the mutex held and which closes the
  connection through \<^verbatim>\<open>closeConn\<close>.
\<close>

definition handleWriteError :: "ws_env \<Rightarrow> go_error \<Rightarrow> url \<Rightarrow> 'id WSEndpoint \<Rightarrow> (go_err \<times> 'id WSEndpoint) outcome" where
  "handleWriteError env wsErr u e =
     (let err =
        (if wv_IsCloseError env wsErr [CloseNormalClosure, CloseGoingAway]
         then Errorf ''websocket write failed (connection closed): '' wsErr
         else if str_contains (error_text wsErr) ''websocket: close sent''
         then Errorf ''websocket write failed (close sent): '' wsErr
         else Errorf ''unexpected websocket write error: '' wsErr)
      in and_then (closeConn env e) (\<lambda>(_, e1). Returns (Some err, send_error err u e1)))"

text \<open>
  \<^verbatim>\<open>Execute\<close> makes sure of the connection and sends under the mutex. Here it runs through without
  an interruption; how its parts interleave with others is in \<^verbatim>\<open>WS_Concurrent\<close>.
\<close>

definition persistent_send ::
    "('req, 'resp, 'id) jsonrpc_lib \<Rightarrow> ws_env \<Rightarrow> 'id WSEndpoint \<Rightarrow> (go_err \<times> 'id WSEndpoint) outcome" where
  "persistent_send L env e0 = and_then (we_lock e0) (\<lambda>e.
     case we_URL e of
       None \<Rightarrow> Panics
     | Some u \<Rightarrow>
         (case we_ctx e of
            None \<Rightarrow> Panics
          | Some True \<Rightarrow> Returns (None, we_unlock e)
          | Some False \<Rightarrow>
              (case prepareJSONRPCMessage L env e of
                 Inl err \<Rightarrow> Returns (Some err, we_unlock (send_error err u e))
               | Inr (payload, msg) \<Rightarrow>
                   let e1 = e\<lparr>we_inflight := (we_inflight e)(im_inflightID msg := Some msg)\<rparr>;
                       payload' = (if payload = [] then we_Payload e1 else payload)
                   in if we_conn e1 = None then Panics
                      else
                        let e2 = write_message payload' e1
                        in case wv_write env of
                             Some err \<Rightarrow> and_then (handleWriteError env err u e2)
                                           (\<lambda>(r, e3). Returns (r, we_unlock e3))
                           | None \<Rightarrow> Returns (None, we_unlock e2))))"

definition persistent_Execute ::
    "('req, 'resp, 'id) jsonrpc_lib \<Rightarrow> ws_env \<Rightarrow> wsPersistentProtocol \<Rightarrow> 'id WSEndpoint \<Rightarrow> (go_err \<times> 'id WSEndpoint) outcome" where
  "persistent_Execute L env protocol e0 =
     (if protocol \<noteq> JSONRPC then Returns (Some (ErrorString ''unsupported protocol''), e0)
      else and_then (nilConn e0) (\<lambda>(isNil, e).
        and_then (if isNil then reconnect env e else Returns (None, e)) (\<lambda>(err, e1).
          if err \<noteq> None then Returns (err, e1) else persistent_send L env e1)))"

end
