(* ===== verification/WS_Properties.thy ===== *)
theory WS_Properties
  imports WS_Endpoint
begin

text \<open>
  \<^verbatim>\<open>task_ws.go\<close>, part two: what the operations of \<^verbatim>\<open>WS_Endpoint\<close> do with the mutex, the
  connection, the in-flight messages and the channel of responses.
\<close>

section \<open>Lemmas on the operations\<close>

lemma we_lock_free [simp]: "\<not> we_locked e \<Longrightarrow> we_lock e = Returns (e\<lparr>we_locked := True\<rparr>)"
  by (simp add: we_lock_def)

lemma we_lock_held [simp]: "we_locked e \<Longrightarrow> we_lock e = Blocks"
  by (simp add: we_lock_def)

lemma we_locked_unlock [simp]: "\<not> we_locked (we_unlock e)"
  by (simp add: we_unlock_def)

lemma unlocked_id [simp]: "\<not> we_locked e \<Longrightarrow> e\<lparr>we_locked := False\<rparr> = e"
  by (cases e) simp

lemma no_conn_id [simp]: "we_conn e = None \<Longrightarrow> e\<lparr>we_conn := None\<rparr> = e"
  by (cases e) simp

lemma unlock_after [simp]:
  "\<not> we_locked e \<Longrightarrow> we_unlock (e\<lparr>we_locked := True\<rparr>) = e"
  "\<not> we_locked e \<Longrightarrow> we_unlock (e\<lparr>we_locked := True, we_conn := c\<rparr>) = e\<lparr>we_conn := c\<rparr>"
  by (cases e, simp add: we_unlock_def)+

lemma send_resp_simps [simp]:
  "we_locked (send_resp wr e) = we_locked e" "we_conn (send_resp wr e) = we_conn e"
  "we_pumps (send_resp wr e) = we_pumps e" "we_ctx (send_resp wr e) = we_ctx e"
  "we_inflight (send_resp wr e) = we_inflight e" "we_Mode (send_resp wr e) = we_Mode e"
  "we_URL (send_resp wr e) = we_URL e" "we_ID (send_resp wr e) = we_ID e"
  "we_watcherID (send_resp wr e) = we_watcherID e" "we_remoteAddr (send_resp wr e) = we_remoteAddr e"
  "we_respChan (send_resp wr e) = we_respChan e @ [wr]" "we_Payload (send_resp wr e) = we_Payload e"
  by (simp_all add: send_resp_def)

lemma send_error_simps [simp]:
  "we_locked (send_error err u e) = we_locked e" "we_conn (send_error err u e) = we_conn e"
  "we_pumps (send_error err u e) = we_pumps e" "we_ctx (send_error err u e) = we_ctx e"
  "we_inflight (send_error err u e) = we_inflight e" "we_Mode (send_error err u e) = we_Mode e"
  "we_URL (send_error err u e) = we_URL e" "we_remoteAddr (send_error err u e) = we_remoteAddr e"
  "we_respChan (send_error err u e) =
     we_respChan e @ [errorResponse err (we_ID e) (we_watcherID e) (Some u)]"
  by (simp_all add: send_error_def)

lemma closing_free [simp]: "\<not> we_locked e \<Longrightarrow> closing env e = Returns (e\<lparr>we_conn := None\<rparr>)"
  by (simp add: closing_def closeConn_def)

lemma nilConn_free [simp]: "\<not> we_locked e \<Longrightarrow> nilConn e = Returns (we_conn e = None, e)"
  by (simp add: nilConn_def)

text \<open>A read error is reported unless it is one of these.\<close>

definition quiet_error :: "'id WSEndpoint \<Rightarrow> go_error \<Rightarrow> bool" where
  "quiet_error e err \<longleftrightarrow>
     we_ctx e = Some True \<or>
     (case as_CloseError err of
        Some (code, txt, ce) \<Rightarrow> code \<in> {CloseNormalClosure, CloseGoingAway, CloseServiceRestart}
      | None \<Rightarrow> errors_Is err NetErrClosed \<or>
          str_contains (error_text err) ''use of closed network connection'')"

lemma handleWebSocketReadError_spec:
  assumes "\<not> we_locked e" and "we_ctx e \<noteq> None"
  shows "\<exists>reports. handleWebSocketReadError env err u e =
      Returns (foldl (\<lambda>e r. send_error r u e) e reports\<lparr>we_conn := None\<rparr>) \<and>
    (if quiet_error e err then reports = []
     else \<exists>p cause. reports = [Errorf p cause] \<and>
       cause = (case as_CloseError err of Some (code, txt, ce) \<Rightarrow> ce | None \<Rightarrow> err))"
proof -
  obtain b where b: "we_ctx e = Some b" using assms(2) by auto
  show ?thesis
  proof (cases "as_CloseError err")
    case None
    with assms(1) b show ?thesis
      by (cases b) (auto simp: handleWebSocketReadError_def quiet_error_def handleNetworkError_def
          intro: exI [of _ "[_]"] exI [of _ "[]"])
  next
    case (Some c)
    obtain code tx ce where c: "c = (code, tx, ce)" by (cases c)
    with Some assms(1) b show ?thesis
      by (cases b) (auto simp: handleWebSocketReadError_def quiet_error_def handleWebSocketCloseError_def
          intro: exI [of _ "[_]"] exI [of _ "[]"])
  qed
qed

section \<open>The mutex\<close>

text \<open>
  An operation leaves the mutex free if it returns, and waits for nothing, but for the read pumps
  to end when \<open>waits\<close> allows it. An operation that takes the mutex twice does not free it.
\<close>

fun frees :: "bool \<Rightarrow> ('a \<times> 'id WSEndpoint) outcome \<Rightarrow> bool" where
  "frees waits (Returns (a, e)) \<longleftrightarrow> \<not> we_locked e"
| "frees waits Blocks \<longleftrightarrow> waits"
| "frees waits Panics \<longleftrightarrow> True"

lemma frees_and_then:
  "frees waits r \<Longrightarrow> (\<And>a e. r = Returns (a, e) \<Longrightarrow> \<not> we_locked e \<Longrightarrow> frees waits (f (a, e))) \<Longrightarrow>
    frees waits (and_then r f)"
  by (cases r) auto

lemma frees_waits: "frees False r \<Longrightarrow> frees waits r"
  by (cases r) auto

lemma ws_Close_frees: "\<not> we_locked e \<Longrightarrow> frees False (ws_Close env e)"
  by (simp add: ws_Close_def split: option.split)

lemma connect_frees: "\<not> we_locked e \<Longrightarrow> frees False (connect env e)"
  by (simp add: connect_def split: option.split sum.split)

lemma redial_frees: "\<not> we_locked e \<Longrightarrow> frees False (redial env e)"
  by (simp add: redial_def split: sum.split)

lemma reconnect_frees: "\<not> we_locked e \<Longrightarrow> frees (0 < we_pumps e) (reconnect env e)"
  by (auto simp: reconnect_def close_old_def wait_pump_def redial_frees)

lemma ws_Initialize_frees:
  assumes "\<not> we_locked e"
  shows "frees False (ws_Initialize env wid e)"
proof -
  let ?e1 = "we_unlock (e\<lparr>we_locked := True, we_watcherID := wid, we_ctx := Some False\<rparr>)"
  have "frees False (and_then (connect env ?e1) (\<lambda>(err, e2).
      Returns (map_option (Errorf ''failed to connect when initializing: '') err, e2)))"
    by (rule frees_and_then) (auto simp: connect_frees)
  with assms show ?thesis
    by (simp add: ws_Initialize_def Let_def split: WSEndpointMode.split)
qed

lemma handleJSONRPCResponse_frame [simp]:
  "we_locked (handleJSONRPCResponse L p ts u e) = we_locked e"
  "we_conn (handleJSONRPCResponse L p ts u e) = we_conn e"
  "we_ctx (handleJSONRPCResponse L p ts u e) = we_ctx e"
  "we_pumps (handleJSONRPCResponse L p ts u e) = we_pumps e"
  "we_Mode (handleJSONRPCResponse L p ts u e) = we_Mode e"
  "we_URL (handleJSONRPCResponse L p ts u e) = we_URL e"
  "we_remoteAddr (handleJSONRPCResponse L p ts u e) = we_remoteAddr e"
  by (auto simp: handleJSONRPCResponse_def parseJSONRPCResponse_def processInflightMessage_def Let_def
      split: sum.split option.split)

lemma foldl_send_error [simp]:
  "we_locked (foldl (\<lambda>e r. send_error r u e) e rs) = we_locked e"
  "we_pumps (foldl (\<lambda>e r. send_error r u e) e rs) = we_pumps e"
  "we_ctx (foldl (\<lambda>e r. send_error r u e) e rs) = we_ctx e"
  "we_Mode (foldl (\<lambda>e r. send_error r u e) e rs) = we_Mode e"
  "we_inflight (foldl (\<lambda>e r. send_error r u e) e rs) = we_inflight e"
  "we_conn (foldl (\<lambda>e r. send_error r u e) e rs) = we_conn e"
  by (induction rs arbitrary: e) auto

lemma readPump_frees:
  assumes "\<not> we_locked e"
  shows "frees False (readPump L env e)"
proof (cases "we_ctx e = Some False \<and> we_URL e \<noteq> None \<and> we_conn e \<noteq> None")
  case False
  then show ?thesis
    using assms by (auto simp: readPump_def pump_read_def pump_done_def split: option.splits bool.splits)
next
  case True
  then obtain u where u: "we_URL e = Some u" by auto
  show ?thesis
  proof (cases "wv_read env")
    case (Inl err)
    from handleWebSocketReadError_spec [OF assms, of env err u] True obtain rs where
      "handleWebSocketReadError env err u e = Returns (foldl (\<lambda>e r. send_error r u e) e rs\<lparr>we_conn := None\<rparr>)"
      by auto
    with True u Inl assms show ?thesis by (simp add: readPump_def pump_read_def pump_done_def)
  next
    case (Inr p)
    with True u assms show ?thesis by (simp add: readPump_def pump_read_def handleRegularResponse_def Let_def)
  qed
qed

lemma oneHit_Execute_frees: "\<not> we_locked e \<Longrightarrow> frees False (oneHit_Execute env e)"
  by (simp add: oneHit_Execute_def Let_def split: option.split sum.split prod.split bool.split)

lemma persistent_send_frees:
  assumes "\<not> we_locked e" and "wv_write env = None"
  shows "frees False (persistent_send L env e)"
  using assms by (simp add: persistent_send_def Let_def split: option.split sum.split prod.split bool.split)

text \<open>The mutex is not reentrant: closing the connection while it is held never returns.\<close>

lemma handleWriteError_blocks: "we_locked e \<Longrightarrow> handleWriteError env err u e = Blocks"
  by (simp add: handleWriteError_def closeConn_def Let_def)

section \<open>Properties of the mutex and of errors\<close>


definition example_ws :: "WSEndpointMode \<Rightarrow> string WSEndpoint" where
  "example_ws mode = (NewWSEndpoint (Some \<lparr>url_Scheme = ''ws'', url_Host = ''h'', url_Path = []\<rparr>) (Some [])
     mode [49] ''id'')\<lparr>we_ctx := Some False, we_watcherID := ''w''\<rparr>"

definition example_ws_env :: ws_env where
  "example_ws_env = \<lparr>wv_dial = Inr ''a'', wv_write = None, wv_read = Inr [50], wv_control = None,
     wv_close = None, wv_IsUnexpectedCloseError = (\<lambda>_ _. False), wv_IsCloseError = (\<lambda>_ _. False),
     wv_now = (\<lambda>i. Instant (int i + 1)), wv_xid = ''x''\<rparr>"

lemma example_ws_simps [simp]:
  "we_locked (example_ws mode) = False" "we_Mode (example_ws mode) = mode"
  "we_conn (example_ws mode) = None" "we_ctx (example_ws mode) = Some False"
  "we_respChan (example_ws mode) = []" "we_Payload (example_ws mode) = [49]"
  "we_URL (example_ws mode) = Some \<lparr>url_Scheme = ''ws'', url_Host = ''h'', url_Path = []\<rparr>"
  by (simp_all add: example_ws_def NewWSEndpoint_def)

text \<open>A JSON-RPC library whose requests and responses are an identifier, as one byte.\<close>

definition example_jsonrpc :: "(string, string, string) jsonrpc_lib" where
  "example_jsonrpc =
     \<lparr>jr_empty = [], jr_Unmarshal = (\<lambda>p. Inr ''o''), jr_IsEmpty = (\<lambda>r. r = []), jr_ID = (\<lambda>r. r),
      jr_setID = (\<lambda>r i. i), jr_Marshal = (\<lambda>r. Inr (map (\<lambda>_. 7) r)),
      jr_DecodeResponse = (\<lambda>p. Inr (if p = [50] then ''x'' else ''y'')), jr_respIsEmpty = (\<lambda>r. r = []),
      jr_IDString = (\<lambda>r. r), jr_RawResult = (\<lambda>r. r), jr_WithID = (\<lambda>r i. Inr (case i of None \<Rightarrow> [] | Some j \<Rightarrow> j)),
      jr_respMarshal = (\<lambda>r. Inr (map (\<lambda>c. of_nat (of_char c)) r))\<rparr>"


text \<open>
  C36. A failed write on a persistent connection blocks for ever: the execution holds the mutex when
  the error handler closes the connection, which takes the mutex again; the error is never
  reported and the mutex is never freed.
\<close>

theorem persistent_write_error_blocks:
  assumes "\<not> we_locked e" and "we_conn e \<noteq> None" and "we_ctx e = Some False" and "we_URL e \<noteq> None"
    and "prepareJSONRPCMessage L env e = Inr (payload, msg)" and "wv_write env = Some err"
  shows "persistent_Execute L env JSONRPC e = Blocks"
proof -
  have "prepareJSONRPCMessage L env (e\<lparr>we_locked := True\<rparr>) = prepareJSONRPCMessage L env e"
    by (simp add: prepareJSONRPCMessage_def)
  with assms show ?thesis
    by (auto simp: persistent_Execute_def persistent_send_def write_message_def
        handleWriteError_blocks Let_def)
qed

definition example_persistent :: "string WSEndpoint" where
  "example_persistent = (NewWSEndpoint (Some \<lparr>url_Scheme = ''ws'', url_Host = ''h'', url_Path = []\<rparr>) (Some [])
     PersistentJSONRPC [49] ''id'')\<lparr>we_ctx := Some False, we_watcherID := ''w'', we_conn := Some ''a'', we_pumps := 1\<rparr>"

theorem persistent_write_error_blocks_witness:
  "persistent_Execute example_jsonrpc (example_ws_env\<lparr>wv_write := Some (ErrorString ''broken pipe'')\<rparr>) JSONRPC
     example_persistent = Blocks"
  by (rule persistent_write_error_blocks [where err = "ErrorString ''broken pipe''"])
    (auto simp: example_persistent_def NewWSEndpoint_def prepareJSONRPCMessage_def example_jsonrpc_def
      example_ws_env_def)

text \<open>
  C27. When a read fails, whatever has become of the endpoint while the pump waited for it, the pump
  ends and the connection is dropped, and the error is reported exactly once, as an error response
  that wraps it (or the close error in it), unless the endpoint is shutting down, the peer closed
  normally, went away or restarts, or the connection was closed locally: then nothing is sent. A
  turn of the pump on an endpoint that is open is that read.
\<close>

theorem read_error_reported:
  assumes "\<not> we_locked e" and "we_ctx e = Some cancelled" and "wv_read env = Inl err"
  shows "\<exists>e1. pump_read L env u e = Returns (False, e1) \<and> we_conn e1 = None \<and>
    we_pumps e1 = we_pumps e - 1 \<and> we_inflight e1 = we_inflight e \<and>
    (if cancelled \<or>
        (case as_CloseError err of
           Some (code, txt, ce) \<Rightarrow> code \<in> {CloseNormalClosure, CloseGoingAway, CloseServiceRestart}
         | None \<Rightarrow> errors_Is err NetErrClosed \<or>
             str_contains (error_text err) ''use of closed network connection'')
     then we_respChan e1 = we_respChan e
     else \<exists>p cause. we_respChan e1 = we_respChan e @
         [errorResponse (Errorf p cause) (we_ID e) (we_watcherID e) (Some u)] \<and>
       cause = (case as_CloseError err of Some (code, txt, ce) \<Rightarrow> ce | None \<Rightarrow> err)) \<and>
    (\<not> cancelled \<and> we_URL e = Some u \<and> we_conn e \<noteq> None \<longrightarrow> readPump L env e = pump_read L env u e)"
proof -
  obtain rs where h: "handleWebSocketReadError env err u e =
      Returns (foldl (\<lambda>e r. send_error r u e) e rs\<lparr>we_conn := None\<rparr>)"
    and rs: "if quiet_error e err then rs = []
     else \<exists>p cause. rs = [Errorf p cause] \<and>
       cause = (case as_CloseError err of Some (code, txt, ce) \<Rightarrow> ce | None \<Rightarrow> err)"
    using handleWebSocketReadError_spec [OF assms(1), of env err u] assms(2) by auto
  have r: "pump_read L env u e = Returns (False, pump_done (foldl (\<lambda>e r. send_error r u e) e rs\<lparr>we_conn := None\<rparr>))"
    using assms(3) h by (simp add: pump_read_def)
  have q: "quiet_error e err \<longleftrightarrow> cancelled \<or>
        (case as_CloseError err of
           Some (code, txt, ce) \<Rightarrow> code \<in> {CloseNormalClosure, CloseGoingAway, CloseServiceRestart}
         | None \<Rightarrow> errors_Is err NetErrClosed \<or>
             str_contains (error_text err) ''use of closed network connection'')"
    by (simp add: quiet_error_def assms(2))
  have t: "\<not> cancelled \<and> we_URL e = Some u \<and> we_conn e \<noteq> None \<longrightarrow> readPump L env e = pump_read L env u e"
    using assms(2) by (auto simp: readPump_def)
  show ?thesis
    unfolding q [symmetric] r
    by (intro exI conjI) (use rs t r in \<open>cases "quiet_error e err"; auto simp: pump_done_def\<close>)+
qed

theorem read_error_reported_witness:
  "(\<exists>e1 p. readPump example_jsonrpc (example_ws_env\<lparr>wv_read := Inl (CloseError 1006 ''x'' ''eof'')\<rparr>)
       example_persistent = Returns (False, e1) \<and>
     we_respChan e1 = [errorResponse (Errorf p (CloseError 1006 ''x'' ''eof'')) ''id'' ''w''
       (Some \<lparr>url_Scheme = ''ws'', url_Host = ''h'', url_Path = []\<rparr>)]) \<and>
   (\<exists>e1. pump_read example_jsonrpc (example_ws_env\<lparr>wv_read := Inl (CloseError 1006 ''x'' ''eof'')\<rparr>)
       \<lparr>url_Scheme = ''ws'', url_Host = ''h'', url_Path = []\<rparr> (example_persistent\<lparr>we_ctx := Some True\<rparr>) =
       Returns (False, e1) \<and> we_respChan e1 = [])"
proof -
  let ?u = "\<lparr>url_Scheme = ''ws'', url_Host = ''h'', url_Path = []\<rparr>"
  let ?env = "example_ws_env\<lparr>wv_read := Inl (CloseError 1006 ''x'' ''eof'')\<rparr>"
  have p: "\<not> we_locked example_persistent" "we_conn example_persistent \<noteq> None" "we_ctx example_persistent = Some False"
    "we_URL example_persistent = Some ?u" "we_respChan example_persistent = []"
    "we_ID example_persistent = ''id''" "we_watcherID example_persistent = ''w''"
    by (simp_all add: example_persistent_def NewWSEndpoint_def)
  show ?thesis
    using read_error_reported [OF p(1,3), of ?env "CloseError 1006 ''x'' ''eof''" example_jsonrpc ?u]
      read_error_reported [of "example_persistent\<lparr>we_ctx := Some True\<rparr>" True ?env
        "CloseError 1006 ''x'' ''eof''" example_jsonrpc ?u] p
    by (auto simp: close_codes)
qed

section \<open>Messages and responses\<close>

text \<open>Every message the pump reads is answered by exactly one response.\<close>

lemma handleJSONRPCResponse_one:
  "\<exists>wr. we_respChan (handleJSONRPCResponse L p ts u e) = we_respChan e @ [wr] \<and>
     wr_TaskID wr = we_ID e \<and> wr_WatcherID wr = we_watcherID e \<and> wr_URL wr = Some u"
  by (auto simp: handleJSONRPCResponse_def parseJSONRPCResponse_def processInflightMessage_def Let_def
      errorResponse_def split: sum.split option.split)

lemma handleJSONRPCResponse_ids [simp]:
  "we_ID (handleJSONRPCResponse L p ts u e) = we_ID e"
  "we_watcherID (handleJSONRPCResponse L p ts u e) = we_watcherID e"
  by (auto simp: handleJSONRPCResponse_def parseJSONRPCResponse_def processInflightMessage_def Let_def
      send_error_def send_resp_def split: sum.split option.split)

text \<open>A message that does not carry an identifier leaves what is in flight under it.\<close>

lemma handleJSONRPCResponse_other:
  assumes "\<And>resp. jr_DecodeResponse L p = Inr resp \<Longrightarrow> jr_IDString L resp \<noteq> k"
  shows "we_inflight (handleJSONRPCResponse L p ts u e) k = we_inflight e k"
  using assms
  by (auto simp: handleJSONRPCResponse_def parseJSONRPCResponse_def processInflightMessage_def Let_def
      split: sum.split option.split)

text \<open>The pump over a sequence of reads.\<close>

fun run_pump :: "('req, 'resp, 'id) jsonrpc_lib \<Rightarrow> ws_env list \<Rightarrow> 'id WSEndpoint \<Rightarrow> 'id WSEndpoint outcome" where
  "run_pump L [] e = Returns e"
| "run_pump L (env # envs) e =
     and_then (readPump L env e) (\<lambda>(goes_on, e1). if goes_on then run_pump L envs e1 else Returns e1)"

definition ws_live :: "url \<Rightarrow> 'id WSEndpoint \<Rightarrow> bool" where
  "ws_live u e \<longleftrightarrow> \<not> we_locked e \<and> we_ctx e = Some False \<and> we_conn e \<noteq> None \<and> we_URL e = Some u \<and>
     we_Mode e = PersistentJSONRPC"

lemma readPump_message:
  assumes "ws_live u e" and "wv_read env = Inr p"
  shows "readPump L env e = Returns (True,
    handleJSONRPCResponse L p (zero_timestamps\<lparr>ts_firstByte := wv_now env 0\<rparr>) u e)"
  using assms by (auto simp: readPump_def pump_read_def ws_live_def Let_def)

lemma ws_live_message [simp]: "ws_live u (handleJSONRPCResponse L p ts u e) = ws_live u e"
  by (simp add: ws_live_def)

lemma run_pump_others:
  assumes "ws_live u e"
    and "\<forall>v \<in> set others. \<exists>p. wv_read v = Inr p \<and> (\<forall>resp. jr_DecodeResponse L p = Inr resp \<longrightarrow> jr_IDString L resp \<noteq> k)"
  shows "\<exists>e1 rs. run_pump L (others @ rest) e = run_pump L rest e1 \<and> ws_live u e1 \<and>
    we_respChan e1 = we_respChan e @ rs \<and> length rs = length others \<and>
    we_inflight e1 k = we_inflight e k \<and> we_ID e1 = we_ID e \<and> we_watcherID e1 = we_watcherID e \<and>
    we_remoteAddr e1 = we_remoteAddr e"
  using assms
proof (induction others arbitrary: e)
  case Nil
  then show ?case by auto
next
  case (Cons v others)
  then obtain p where p: "wv_read v = Inr p"
    "\<And>resp. jr_DecodeResponse L p = Inr resp \<Longrightarrow> jr_IDString L resp \<noteq> k" by auto
  let ?e = "handleJSONRPCResponse L p (zero_timestamps\<lparr>ts_firstByte := wv_now v 0\<rparr>) u e"
  obtain wr where wr: "we_respChan ?e = we_respChan e @ [wr]" using handleJSONRPCResponse_one by blast
  have "ws_live u ?e" using Cons.prems(1) by simp
  then obtain e1 rs where IH: "run_pump L (others @ rest) ?e = run_pump L rest e1" "ws_live u e1"
    "we_respChan e1 = we_respChan ?e @ rs" "length rs = length others" "we_inflight e1 k = we_inflight ?e k"
    "we_ID e1 = we_ID ?e" "we_watcherID e1 = we_watcherID ?e" "we_remoteAddr e1 = we_remoteAddr ?e"
    using Cons.IH [of ?e] Cons.prems(2) by auto
  show ?case
    by (rule exI [of _ e1], rule exI [of _ "wr # rs"])
      (use IH wr readPump_message [OF Cons.prems(1) p(1), of L]
         handleJSONRPCResponse_other [where L = L and p = p and k = k, OF p(2)] in simp)
qed

lemma persistent_send_ok:
  assumes "ws_live u e" and "prepareJSONRPCMessage L env e = Inr (payload, msg)" and "wv_write env = None"
  shows "\<exists>e1. persistent_Execute L env JSONRPC e = Returns (None, e1) \<and> ws_live u e1 \<and>
    we_inflight e1 = (we_inflight e)(im_inflightID msg := Some msg) \<and>
    we_respChan e1 = we_respChan e \<and> we_ID e1 = we_ID e \<and> we_watcherID e1 = we_watcherID e \<and>
    we_remoteAddr e1 = we_remoteAddr e \<and>
    we_written e1 = we_written e @ [if payload = [] then we_Payload e else payload]"
proof -
  have "prepareJSONRPCMessage L env (e\<lparr>we_locked := True\<rparr>) = prepareJSONRPCMessage L env e"
    by (simp add: prepareJSONRPCMessage_def)
  with assms show ?thesis
    by (auto simp: persistent_Execute_def persistent_send_def write_message_def
        ws_live_def we_unlock_def Let_def)
qed

section \<open>Properties of the tasks\<close>

text \<open>
  C9. Matching a response to its request: a persistent task writes one message, its
  JSON-RPC request with the identifier that \<^verbatim>\<open>xid\<close> generated in place of its own, and has the
  request in flight under that identifier; whatever other messages the connection delivers first,
  each of which gives one response, the answer that carries the identifier gives one response with the
  original identifier restored, the time the request was sent as its start and the answer's
  arrival as its first byte, and the request is no longer in flight.
\<close>

theorem jsonrpc_answer_matched:
  assumes "ws_live u e" and "we_Payload e \<noteq> []"
    and "jr_Unmarshal L (we_Payload e) = Inr req" and "\<not> jr_IsEmpty L req"
    and "jr_Marshal L (jr_setID L req (wv_xid env)) = Inr payload" and "wv_write env = None"
    and "\<forall>v \<in> set others. \<exists>p. wv_read v = Inr p \<and>
      (\<forall>resp. jr_DecodeResponse L p = Inr resp \<longrightarrow> jr_IDString L resp \<noteq> wv_xid env)"
    and "wv_read answer = Inr p" and "jr_DecodeResponse L p = Inr resp" and "\<not> jr_respIsEmpty L resp"
    and "jr_IDString L resp = wv_xid env" and "wv_xid env \<noteq> []"
    and "jr_WithID L resp (Some (jr_ID L req)) = Inr resp'" and "jr_respMarshal L resp' = Inr data"
  shows "\<exists>e1 e2 rs. persistent_Execute L env JSONRPC e = Returns (None, e1) \<and>
    (payload \<noteq> [] \<longrightarrow> we_written e1 = we_written e @ [payload]) \<and>
    we_inflight e1 = (we_inflight e)(wv_xid env \<mapsto>
      \<lparr>im_inflightID = wv_xid env, im_originalID = Some (jr_ID L req), im_timeSent = wv_now env 0\<rparr>) \<and>
    run_pump L (others @ [answer]) e1 = Returns e2 \<and> length rs = length others \<and>
    we_respChan e2 = we_respChan e @ rs @
      [\<lparr>wr_TaskID = we_ID e, wr_WatcherID = we_watcherID e, wr_URL = Some u, wr_Err = None,
        wr_Payload = Some (WSPayload \<lparr>w_remoteAddr = we_remoteAddr e, w_data = data,
          w_timestamps = zero_timestamps\<lparr>ts_start := wv_now env 0, ts_firstByte := wv_now answer 0\<rparr>\<rparr>)\<rparr>] \<and>
    we_inflight e2 (wv_xid env) = None"
proof -
  let ?k = "wv_xid env"
  let ?msg = "\<lparr>im_inflightID = ?k, im_originalID = Some (jr_ID L req), im_timeSent = wv_now env 0\<rparr>"
  have prep: "prepareJSONRPCMessage L env e = Inr (payload, ?msg)"
    using assms(2-5) by (simp add: prepareJSONRPCMessage_def Let_def)
  obtain e1 where e1: "persistent_Execute L env JSONRPC e = Returns (None, e1)" "ws_live u e1"
    "we_inflight e1 = (we_inflight e)(?k := Some ?msg)" "we_respChan e1 = we_respChan e"
    "we_ID e1 = we_ID e" "we_watcherID e1 = we_watcherID e" "we_remoteAddr e1 = we_remoteAddr e"
    "payload \<noteq> [] \<Longrightarrow> we_written e1 = we_written e @ [payload]"
    using persistent_send_ok [OF assms(1) prep assms(6)] by auto
  obtain e2 rs where e2: "run_pump L (others @ [answer]) e1 = run_pump L [answer] e2" "ws_live u e2"
    "we_respChan e2 = we_respChan e1 @ rs" "length rs = length others" "we_inflight e2 ?k = we_inflight e1 ?k"
    "we_ID e2 = we_ID e1" "we_watcherID e2 = we_watcherID e1" "we_remoteAddr e2 = we_remoteAddr e1"
    using run_pump_others [OF e1(2) assms(7), of "[answer]"] by blast
  let ?ts = "zero_timestamps\<lparr>ts_firstByte := wv_now answer 0\<rparr>"
  let ?e3 = "handleJSONRPCResponse L p ?ts u e2"
  have "run_pump L [answer] e2 = Returns ?e3"
    using readPump_message [OF e2(2) assms(8), of L] by simp
  moreover have "?e3 = processInflightMessage L resp ?msg ?ts u e2"
    using assms(9-12) e2(5) e1(3) by (simp add: handleJSONRPCResponse_def parseJSONRPCResponse_def)
  moreover have "we_respChan (processInflightMessage L resp ?msg ?ts u e2) = we_respChan e @ rs @
      [\<lparr>wr_TaskID = we_ID e, wr_WatcherID = we_watcherID e, wr_URL = Some u, wr_Err = None,
        wr_Payload = Some (WSPayload \<lparr>w_remoteAddr = we_remoteAddr e, w_data = data,
          w_timestamps = zero_timestamps\<lparr>ts_start := wv_now env 0, ts_firstByte := wv_now answer 0\<rparr>\<rparr>)\<rparr>]"
    using assms(13,14) e1(4-7) e2(3,6-8)
    by (simp add: processInflightMessage_def newWSTaskResponse_def zero_timestamps_def Let_def)
  moreover have "we_inflight (processInflightMessage L resp ?msg ?ts u e2) ?k = None"
    using assms(11,13,14) by (simp add: processInflightMessage_def Let_def)
  ultimately show ?thesis using e1(1,3,8) e2(1,4) by auto
qed

theorem jsonrpc_answer_matched_witness:
  "\<exists>e1 e2 rs wr. persistent_Execute example_jsonrpc example_ws_env JSONRPC example_persistent = Returns (None, e1) \<and>
     we_written e1 = [[7]] \<and>
     run_pump example_jsonrpc ([example_ws_env\<lparr>wv_read := Inr [51]\<rparr>] @ [example_ws_env]) e1 = Returns e2 \<and>
     we_respChan e2 = rs @ [wr] \<and> length rs = 1 \<and> wr_Err wr = None"
proof -
  let ?u = "\<lparr>url_Scheme = ''ws'', url_Host = ''h'', url_Path = []\<rparr>"
  have live: "ws_live ?u example_persistent"
    by (simp add: ws_live_def example_persistent_def NewWSEndpoint_def)
  have fields: "we_Payload example_persistent = [49]" "we_respChan example_persistent = []"
    "we_written example_persistent = []"
    by (simp_all add: example_persistent_def NewWSEndpoint_def)
  show ?thesis
    using jsonrpc_answer_matched [OF live, of example_jsonrpc "''o''" example_ws_env "[7]"
        "[example_ws_env\<lparr>wv_read := Inr [51]\<rparr>]" example_ws_env "[50]" "''x''" "''o''" "[111]"]
    by (fastforce simp: fields example_jsonrpc_def example_ws_env_def)
qed

text \<open>
  C28. A one-hit task reports exactly once: if the endpoint is initialised and not shut down, the
  execution sends one response, whose error is the one it returns, and the error is nil exactly
  if dialling, writing and reading all succeeded; the response then holds the message that was
  read and the address that was dialled, and the endpoint keeps no connection.
\<close>

theorem one_hit_reports_once:
  assumes "\<not> we_locked e" and "we_conn e = None" and "we_ctx e = Some False" and "we_URL e = Some u"
  shows "\<exists>err wr e1. oneHit_Execute env e = Returns (err, e1) \<and> we_respChan e1 = we_respChan e @ [wr] \<and>
    wr_Err wr = err \<and> wr_TaskID wr = we_ID e \<and> wr_WatcherID wr = we_watcherID e \<and> wr_URL wr = Some u \<and>
    we_conn e1 = None \<and> \<not> we_locked e1 \<and>
    (err = None \<longleftrightarrow> (\<exists>addr message. wv_dial env = Inr addr \<and> wv_write env = None \<and> wv_read env = Inr message)) \<and>
    (err = None \<longrightarrow> (\<exists>w. wr_Payload wr = Some (WSPayload w) \<and> wv_read env = Inr (w_data w) \<and>
       wv_dial env = Inr (the (w_remoteAddr w)) \<and>
       w_timestamps w = \<lparr>ts_start = wv_now env 0, ts_dnsStart = wv_now env 1, ts_dnsDone = wv_now env 4,
         ts_connStart = wv_now env 2, ts_connDone = wv_now env 5, ts_tlsStart = wv_now env 3,
         ts_tlsDone = wv_now env 6, ts_wroteDone = wv_now env 7, ts_firstByte = wv_now env 8,
         ts_dataDone = wv_now env 9\<rparr>))"
proof (cases "wv_dial env")
  case (Inl err)
  with assms show ?thesis
    by (simp add: oneHit_Execute_def establishConnection_def we_unlock_def errorResponse_def send_error_def
        send_resp_def Let_def)
next
  case (Inr addr)
  note dial = this
  show ?thesis
  proof (cases "wv_write env")
    case (Some err)
    with dial assms show ?thesis
      by (simp add: oneHit_Execute_def establishConnection_def sendAndReceiveMessage_def we_unlock_def
          errorResponse_def send_error_def send_resp_def write_message_def Let_def)
  next
    case None
    with dial assms show ?thesis
      by (cases "wv_read env")
        (simp_all add: oneHit_Execute_def establishConnection_def sendAndReceiveMessage_def we_unlock_def
          errorResponse_def send_error_def send_resp_def write_message_def newWSTaskResponse_def
          zero_timestamps_def Let_def)
  qed
qed

theorem one_hit_reports_once_witness:
  "\<exists>e1 wr. oneHit_Execute example_ws_env (example_ws OneHitText) = Returns (None, e1) \<and>
     we_respChan e1 = [wr] \<and> wr_Err wr = None"
proof -
  obtain err wr e1 where r: "oneHit_Execute example_ws_env (example_ws OneHitText) = Returns (err, e1)"
    "we_respChan e1 = [wr]" "wr_Err wr = err"
    "err = None \<longleftrightarrow> (\<exists>addr message. wv_dial example_ws_env = Inr addr \<and> wv_write example_ws_env = None \<and>
      wv_read example_ws_env = Inr message)"
    using one_hit_reports_once [of "example_ws OneHitText" _ example_ws_env] by fastforce
  then have "err = None" by (simp add: example_ws_env_def)
  with r show ?thesis by auto
qed

lemma prepareJSONRPCMessage_cong:
  "we_Payload e = we_Payload e' \<Longrightarrow> prepareJSONRPCMessage L env e = prepareJSONRPCMessage L env e'"
  by (simp add: prepareJSONRPCMessage_def)

lemma prepareJSONRPCMessage_lock [simp]:
  "prepareJSONRPCMessage L env (e\<lparr>we_locked := b\<rparr>) = prepareJSONRPCMessage L env e"
  by (simp add: prepareJSONRPCMessage_def)

lemma handleJSONRPCResponse_inflight:
  "we_inflight (handleJSONRPCResponse L p ts u e) k = Some msg \<Longrightarrow> we_inflight e k = Some msg"
  by (auto simp: handleJSONRPCResponse_def parseJSONRPCResponse_def processInflightMessage_def Let_def
      split: sum.splits option.splits if_splits)

section \<open>Closing\<close>

text \<open>
  Closing an endpoint that has no connection changes nothing, so a one-hit endpoint goes on: after
  \<^verbatim>\<open>Close\<close>, an execution still dials, writes and reports. Closing a persistent endpoint cancels it and
  its pump ends, but the next execution dials a new connection all the same and starts a pump, and
  leaves them without sending.
\<close>

theorem execute_after_close:
  assumes "\<not> we_locked e" and "we_ctx e = Some False" and "we_URL e = Some u"
    and "wv_dial env = Inr addr" and "wv_control env = None" and "wv_close env = None"
  shows "(we_conn e = None \<longrightarrow> (\<exists>e1 err wr. ws_Close env e = Returns (None, e) \<and>
      oneHit_Execute env e = Returns (err, e1) \<and> we_respChan e1 = we_respChan e @ [wr])) \<and>
    (we_conn e \<noteq> None \<and> we_Mode e = PersistentJSONRPC \<and> we_pumps e = 1 \<longrightarrow> (\<exists>e1 e2 e3.
      ws_Close env e = Returns (None, e1) \<and> we_ctx e1 = Some True \<and>
      readPump L env e1 = Returns (False, e2) \<and> we_pumps e2 = 0 \<and>
      persistent_Execute L env JSONRPC e2 = Returns (None, e3) \<and>
      we_conn e3 = Some addr \<and> we_pumps e3 = 1 \<and> we_written e3 = we_written e \<and> we_respChan e3 = we_respChan e))"
proof (intro conjI impI)
  assume c: "we_conn e = None"
  have "ws_Close env e = Returns (None, e)" using assms(1) c by (simp add: ws_Close_def)
  moreover have "\<exists>e1 err wr. oneHit_Execute env e = Returns (err, e1) \<and> we_respChan e1 = we_respChan e @ [wr]"
    using assms(1-4) c
    by (auto simp: oneHit_Execute_def establishConnection_def sendAndReceiveMessage_def write_message_def
        we_unlock_def send_error_def send_resp_def Let_def split: option.split sum.split)
  ultimately show "\<exists>e1 err wr. ws_Close env e = Returns (None, e) \<and>
      oneHit_Execute env e = Returns (err, e1) \<and> we_respChan e1 = we_respChan e @ [wr]" by blast
next
  assume c: "we_conn e \<noteq> None \<and> we_Mode e = PersistentJSONRPC \<and> we_pumps e = 1"
  let ?e1 = "e\<lparr>we_conn := None, we_ctx := Some True\<rparr>"
  have e1: "ws_Close env e = Returns (None, we_unlock (e\<lparr>we_locked := True, we_conn := None, we_ctx := Some True\<rparr>))"
    using assms c by (auto simp: ws_Close_def)
  have eq: "we_unlock (e\<lparr>we_locked := True, we_conn := None, we_ctx := Some True\<rparr>) = ?e1"
    using assms(1) by (cases e) (simp add: we_unlock_def)
  have pump: "readPump L env ?e1 = Returns (False, pump_done ?e1)" "we_pumps (pump_done ?e1) = 0"
    using c by (simp_all add: readPump_def pump_done_def)
  have "\<exists>e3. persistent_Execute L env JSONRPC (pump_done ?e1) = Returns (None, e3) \<and>
      we_conn e3 = Some addr \<and> we_pumps e3 = 1 \<and> we_written e3 = we_written e \<and> we_respChan e3 = we_respChan e"
    using assms c
    by (simp add: persistent_Execute_def reconnect_def wait_pump_def redial_def pump_done_def
        persistent_send_def we_unlock_def)
  then obtain e3 where "persistent_Execute L env JSONRPC (pump_done ?e1) = Returns (None, e3)"
    "we_conn e3 = Some addr" "we_pumps e3 = 1" "we_written e3 = we_written e" "we_respChan e3 = we_respChan e" by blast
  with e1 eq pump show "\<exists>e1 e2 e3. ws_Close env e = Returns (None, e1) \<and> we_ctx e1 = Some True \<and>
      readPump L env e1 = Returns (False, e2) \<and> we_pumps e2 = 0 \<and>
      persistent_Execute L env JSONRPC e2 = Returns (None, e3) \<and>
      we_conn e3 = Some addr \<and> we_pumps e3 = 1 \<and> we_written e3 = we_written e \<and> we_respChan e3 = we_respChan e"
    by (intro exI [of _ ?e1] exI [of _ "pump_done ?e1"] exI [of _ e3]) simp
qed

theorem execute_after_close_witness:
  "\<exists>e1 err wr. ws_Close example_ws_env (example_ws OneHitText) = Returns (None, example_ws OneHitText) \<and>
     oneHit_Execute example_ws_env (example_ws OneHitText) = Returns (err, e1) \<and> we_respChan e1 = [wr]"
proof -
  let ?u = "\<lparr>url_Scheme = ''ws'', url_Host = ''h'', url_Path = []\<rparr>"
  have "wv_dial example_ws_env = Inr ''a''" "wv_control example_ws_env = None" "wv_close example_ws_env = None"
    by (simp_all add: example_ws_env_def)
  from execute_after_close [OF _ _ _ this, of "example_ws OneHitText" ?u example_jsonrpc]
  show ?thesis by fastforce
qed

text \<open>
  When the close message cannot be written or the connection cannot be closed, \<^verbatim>\<open>Close\<close> returns the
  error and changes nothing: the connection stays, the context is not cancelled and the read pump
  goes on, so that every further message is still sent to the channel of responses.
\<close>

theorem close_error_keeps_pump:
  assumes "\<not> we_locked e" and "we_conn e \<noteq> None" and "we_ctx e = Some False" and "we_URL e = Some u"
    and "wv_control env = Some err \<or> wv_control env = None \<and> wv_close env = Some err"
    and "wv_read env' = Inr p" and "we_Mode e = PersistentJSONRPC"
  shows "ws_Close env e = Returns (Some err, e) \<and>
    (\<exists>e1 wr. readPump L env' e = Returns (True, e1) \<and> we_respChan e1 = we_respChan e @ [wr] \<and>
       wr_WatcherID wr = we_watcherID e \<and> we_pumps e1 = we_pumps e)"
proof
  show "ws_Close env e = Returns (Some err, e)"
    using assms(1,2,5) by (auto simp: ws_Close_def)
  have "\<exists>wr. we_respChan (handleJSONRPCResponse L p ts u e) = we_respChan e @ [wr] \<and> wr_WatcherID wr = we_watcherID e"
    for ts
    by (auto simp: handleJSONRPCResponse_def parseJSONRPCResponse_def processInflightMessage_def send_error_def
        send_resp_def errorResponse_def Let_def split: sum.split option.split)
  with assms show "\<exists>e1 wr. readPump L env' e = Returns (True, e1) \<and> we_respChan e1 = we_respChan e @ [wr] \<and>
       wr_WatcherID wr = we_watcherID e \<and> we_pumps e1 = we_pumps e"
    by (auto simp: readPump_def pump_read_def Let_def)
qed

theorem close_error_keeps_pump_witness:
  "\<exists>e1 wr. ws_Close (example_ws_env\<lparr>wv_control := Some (Sentinel NetErrClosed)\<rparr>) example_persistent =
       Returns (Some (Sentinel NetErrClosed), example_persistent) \<and>
     readPump example_jsonrpc example_ws_env example_persistent = Returns (True, e1) \<and> we_respChan e1 = [wr]"
proof -
  let ?env = "example_ws_env\<lparr>wv_control := Some (Sentinel NetErrClosed)\<rparr>"
  have p: "\<not> we_locked example_persistent" "we_conn example_persistent \<noteq> None" "we_ctx example_persistent = Some False"
    "we_URL example_persistent = Some \<lparr>url_Scheme = ''ws'', url_Host = ''h'', url_Path = []\<rparr>"
    "we_Mode example_persistent = PersistentJSONRPC" "we_respChan example_persistent = []"
    by (simp_all add: example_persistent_def NewWSEndpoint_def)
  have v: "wv_control ?env = Some (Sentinel NetErrClosed) \<or> wv_control ?env = None \<and> wv_close ?env = Some (Sentinel NetErrClosed)"
    "wv_read example_ws_env = Inr [50]"
    by (simp_all add: example_ws_env_def)
  from close_error_keeps_pump [where L = example_jsonrpc, OF p(1-4) v p(5)] p(6) show ?thesis by auto
qed

end
