(* ===== verification/Watcher.thy ===== *)
theory Watcher
  imports HTTP_Task WS_Properties
begin

text \<open>
  \<^verbatim>\<open>task.go\<close> and \<^verbatim>\<open>watcher.go\<close>: the interface \<^verbatim>\<open>WatcherTask\<close> with its dispatch to the two kinds of
  endpoints, and the watcher that validates, starts and closes its tasks and turns them into a job
  of the task manager.
\<close>

section \<open>Tasks\<close>

text \<open>
  A task is one of the two endpoints or an implementation of the user's, which is given by what
  its methods return. The outside of one task operation is a random identifier and, for a WebSocket
  endpoint, its network.
\<close>

record custom_task =
  ct_Validate :: go_err
  ct_Initialize :: go_err
  ct_Close :: go_err

datatype 'id WatcherTask = HTTPTask HTTPEndpoint | WSTask "'id WSEndpoint" | CustomTask custom_task

record task_env =
  te_xid :: string
  te_ws :: ws_env

definition task_Validate :: "task_env \<Rightarrow> 'id WatcherTask \<Rightarrow> go_err \<times> 'id WatcherTask" where
  "task_Validate env t =
     (case t of
        HTTPTask e \<Rightarrow> (let (err, e1) = http_Validate (te_xid env) e in (err, HTTPTask e1))
      | WSTask e \<Rightarrow> (let (err, e1) = ws_Validate (te_xid env) e in (err, WSTask e1))
      | CustomTask c \<Rightarrow> (ct_Validate c, t))"

definition task_Initialize :: "task_env \<Rightarrow> string \<Rightarrow> 'id WatcherTask \<Rightarrow> (go_err \<times> 'id WatcherTask) outcome" where
  "task_Initialize env wid t =
     (case t of
        HTTPTask e \<Rightarrow>
          (case http_Initialize wid e of
             None \<Rightarrow> Panics
           | Some (err, e1) \<Rightarrow> Returns (err, HTTPTask e1))
      | WSTask e \<Rightarrow> and_then (ws_Initialize (te_ws env) wid e) (\<lambda>(err, e1). Returns (err, WSTask e1))
      | CustomTask c \<Rightarrow> Returns (ct_Initialize c, t))"

definition task_Close :: "task_env \<Rightarrow> 'id WatcherTask \<Rightarrow> (go_err \<times> 'id WatcherTask) outcome" where
  "task_Close env t =
     (case t of
        HTTPTask e \<Rightarrow> Returns (http_close e, t)
      | WSTask e \<Rightarrow> and_then (ws_Close (te_ws env) e) (\<lambda>(err, e1). Returns (err, WSTask e1))
      | CustomTask c \<Rightarrow> Returns (ct_Close c, t))"

datatype task_ref = HTTPRequest httpRequest | WSRequest wsTask | CustomRequest

definition task_Task :: "'id WatcherTask \<Rightarrow> task_ref" where
  "task_Task t =
     (case t of
        HTTPTask e \<Rightarrow> HTTPRequest (http_Task e)
      | WSTask e \<Rightarrow> WSRequest (ws_Task e)
      | CustomTask c \<Rightarrow> CustomRequest)"

text \<open>
  The loops over the tasks: each task's operation in turn, with its error joined to those before;
  a loop goes on after an error.
\<close>

fun validate_tasks ::
    "(nat \<Rightarrow> task_env) \<Rightarrow> nat \<Rightarrow> go_err \<Rightarrow> 'id WatcherTask list \<Rightarrow> go_err \<times> 'id WatcherTask list" where
  "validate_tasks env i errs [] = (errs, [])"
| "validate_tasks env i errs (t # ts) =
     (let (err, t1) = task_Validate (env i) t;
          (errs1, ts1) = validate_tasks env (Suc i) (join_into errs err) ts
      in (errs1, t1 # ts1))"

fun each_task ::
    "(task_env \<Rightarrow> 'id WatcherTask \<Rightarrow> (go_err \<times> 'id WatcherTask) outcome) \<Rightarrow> (nat \<Rightarrow> task_env) \<Rightarrow> nat \<Rightarrow> go_err
       \<Rightarrow> 'id WatcherTask list \<Rightarrow> (go_err \<times> 'id WatcherTask list) outcome" where
  "each_task f env i errs [] = Returns (errs, [])"
| "each_task f env i errs (t # ts) =
     and_then (f (env i) t) (\<lambda>(err, t1).
       and_then (each_task f env (Suc i) (join_into errs err) ts) (\<lambda>(errs1, ts1).
         Returns (errs1, t1 # ts1)))"

section \<open>The watcher\<close>

text \<open>\<open>w_doneChan\<close> is the done channel, if there is one, with whether it has been closed.\<close>

record 'id Watcher =
  w_ID :: string
  w_Cadence :: duration
  w_Tasks :: "'id WatcherTask list"
  w_doneChan :: "bool option"

definition new_error :: "string \<Rightarrow> go_err" where
  "new_error msg = Some (ErrorString msg)"

definition watcher_Validate :: "(nat \<Rightarrow> task_env) \<Rightarrow> 'id Watcher option \<Rightarrow> go_err \<times> 'id Watcher option" where
  "watcher_Validate env w =
     (case w of
        None \<Rightarrow> (new_error ''watcher is nil'', None)
      | Some w \<Rightarrow>
          let errs0 = None;
              errs1 = (if w_ID w = [] then join_into errs0 (new_error ''var ID must not be nil'') else errs0);
              errs2 = (if w_Cadence w \<le> 0
                       then join_into errs1 (new_error ''var Cadence must be greater than 0'') else errs1);
              errs3 = (if w_Tasks w = []
                       then join_into errs2 (new_error ''var Tasks must not be nil or empty'') else errs2);
              errs4 = (case w_doneChan w of
                         None \<Rightarrow> join_into errs3 (new_error ''doneChan must not be nil'')
                       | Some True \<Rightarrow> join_into errs3 (new_error ''doneChan must not be closed'')
                       | Some False \<Rightarrow> errs3);
              (errs5, ts) = validate_tasks env 0 errs4 (w_Tasks w)
          in (errs5, Some (w\<lparr>w_Tasks := ts\<rparr>)))"

text \<open>Closing a nil or closed channel panics.\<close>

definition watcher_close :: "(nat \<Rightarrow> task_env) \<Rightarrow> 'id Watcher \<Rightarrow> (go_err \<times> 'id Watcher) outcome" where
  "watcher_close env w =
     (if w_doneChan w \<noteq> Some False then Panics
      else and_then (each_task task_Close env 0 None (w_Tasks w)) (\<lambda>(errs, ts).
        Returns (errs, w\<lparr>w_doneChan := Some True, w_Tasks := ts\<rparr>)))"

record taskman_job =
  jb_ID :: string
  jb_Cadence :: duration
  jb_NextExec :: gotime
  jb_Tasks :: "task_ref list"

definition watcher_job :: "gotime \<Rightarrow> 'id Watcher \<Rightarrow> taskman_job" where
  "watcher_job now w =
     \<lparr>jb_ID = w_ID w, jb_Cadence = w_Cadence w, jb_NextExec = time_Add now (w_Cadence w),
      jb_Tasks = map task_Task (w_Tasks w)\<rparr>"

text \<open>\<open>chan\<close> says whether the response channel is not nil.\<close>

definition watcher_start :: "(nat \<Rightarrow> task_env) \<Rightarrow> bool \<Rightarrow> 'id Watcher \<Rightarrow> (go_err \<times> 'id Watcher) outcome" where
  "watcher_start env chan w =
     (let errs0 = (if \<not> chan then join_into None (new_error ''response channel is nil'') else None);
          w1 = (if w_doneChan w = None then w\<lparr>w_doneChan := Some False\<rparr> else w)
      in and_then (each_task (\<lambda>te. task_Initialize te (w_ID w)) env 0 errs0 (w_Tasks w1)) (\<lambda>(errs, ts).
           Returns (errs, w1\<lparr>w_Tasks := ts\<rparr>)))"

definition NewWatcher ::
    "string \<Rightarrow> (nat \<Rightarrow> task_env) \<Rightarrow> string \<Rightarrow> duration \<Rightarrow> 'id WatcherTask list \<Rightarrow> 'id Watcher option \<times> go_err" where
  "NewWatcher xid env i cadence tasks =
     (let w = \<lparr>w_ID = (if i = [] then xid else i), w_Cadence = cadence, w_Tasks = tasks, w_doneChan = Some False\<rparr>
      in case watcher_Validate env (Some w) of
           (Some err, _) \<Rightarrow> (None, Some (Errorf ''invalid watcher initialization: '' err))
         | (None, w1) \<Rightarrow> (w1, None))"

definition WatcherTasksToSlice :: "'id WatcherTask list \<Rightarrow> 'id WatcherTask list" where
  "WatcherTasksToSlice tasks = [] @ tasks"

section \<open>Lemmas\<close>

text \<open>The errors of the tasks, one by one.\<close>

fun validate_errors :: "(nat \<Rightarrow> task_env) \<Rightarrow> nat \<Rightarrow> 'id WatcherTask list \<Rightarrow> go_err list" where
  "validate_errors env i [] = []"
| "validate_errors env i (t # ts) = fst (task_Validate (env i) t) # validate_errors env (Suc i) ts"

lemma validate_tasks_errors:
  "fst (validate_tasks env i errs ts) = foldl join_into errs (validate_errors env i ts)"
  by (induction ts arbitrary: i errs) (simp_all add: Let_def case_prod_beta)

lemma validate_tasks_length [simp]: "length (snd (validate_tasks env i errs ts)) = length ts"
  by (induction ts arbitrary: i errs) (simp_all add: Let_def case_prod_beta)

lemma task_Validate_again:
  "fst (task_Validate env' (snd (task_Validate env t))) = fst (task_Validate env t)"
  by (cases t) (auto simp: task_Validate_def http_Validate_def ws_Validate_def Let_def)

text \<open>What makes a task valid.\<close>

definition task_ok :: "'id WatcherTask \<Rightarrow> bool" where
  "task_ok t \<longleftrightarrow>
     (case t of
        HTTPTask e \<Rightarrow> ep_URL e \<noteq> None \<and> policy_ok (ep_dnsPolicy e)
      | WSTask e \<Rightarrow> we_URL e \<noteq> None
      | CustomTask c \<Rightarrow> ct_Validate c = None)"

lemma task_Validate_None_iff: "fst (task_Validate env t) = None \<longleftrightarrow> task_ok t"
  by (cases t) (auto simp: task_Validate_def task_ok_def http_Validate_def ws_Validate_def Let_def
      policy_Validate_None_iff)

lemma validate_errors_None: "(\<forall>e \<in> set (validate_errors env i ts). e = None) \<longleftrightarrow> list_all task_ok ts"
  by (induction ts arbitrary: i) (auto simp: task_Validate_None_iff)

definition watcher_ok :: "'id Watcher \<Rightarrow> bool" where
  "watcher_ok w \<longleftrightarrow> w_ID w \<noteq> [] \<and> 0 < w_Cadence w \<and> w_Tasks w \<noteq> [] \<and> w_doneChan w = Some False \<and>
     list_all task_ok (w_Tasks w)"

lemma watcher_Validate_None_iff: "fst (watcher_Validate env (Some w)) = None \<longleftrightarrow> watcher_ok w"
  using validate_tasks_errors [of env 0 _ "w_Tasks w"]
  by (auto simp: watcher_Validate_def watcher_ok_def fold_join_into_None validate_errors_None new_error_def
      Let_def case_prod_beta simp del: not_None_eq split: option.splits bool.splits if_splits)

text \<open>Loops that return go through every task and join all errors.\<close>

lemma each_task_Returns:
  assumes "each_task f env i errs ts = Returns (errs1, ts1)"
  shows "length ts1 = length ts \<and>
    (\<exists>es. length es = length ts \<and> errs1 = foldl join_into errs es \<and>
      (\<forall>j < length ts. f (env (i + j)) (ts ! j) = Returns (es ! j, ts1 ! j)))"
  using assms
proof (induction ts arbitrary: i errs ts1)
  case (Cons t ts)
  then obtain err t1 ts2 where t: "f (env i) t = Returns (err, t1)"
    and rest: "each_task f env (Suc i) (join_into errs err) ts = Returns (errs1, ts2)" and ts1: "ts1 = t1 # ts2"
    by (auto simp: run_iff)
  obtain es where es: "length es = length ts" "errs1 = foldl join_into (join_into errs err) es"
    "\<forall>j < length ts. f (env (Suc i + j)) (ts ! j) = Returns (es ! j, ts2 ! j)" "length ts2 = length ts"
    using Cons.IH [OF rest] by blast
  have "f (env (i + j)) ((t # ts) ! j) = Returns ((err # es) ! j, ts1 ! j)" if "j < length (t # ts)" for j
    using that t es(3) ts1 by (cases j) auto
  with es ts1 show ?case by (intro conjI exI [of _ "err # es"]) auto
qed simp

section \<open>Properties\<close>

text \<open>
  A watcher validates exactly if its ID is not empty, its cadence is positive, it has tasks, its
  done channel is open and every task is valid. Nothing is lost on the way: whatever error a task's
  validation reports is found in the watcher's error, and apart from the tasks the watcher is
  unchanged.
\<close>

theorem watcher_Validate_correct:
  "(fst (watcher_Validate env (Some w)) = None \<longleftrightarrow> watcher_ok w) \<and>
   (\<forall>t. err_Is (fst (watcher_Validate env (Some w))) t \<longleftrightarrow>
      (\<exists>e \<in> set (validate_errors env 0 (w_Tasks w)). err_Is e t)) \<and>
   (\<exists>ts. snd (watcher_Validate env (Some w)) = Some (w\<lparr>w_Tasks := ts\<rparr>) \<and> length ts = length (w_Tasks w))"
proof (intro conjI allI)
  show "fst (watcher_Validate env (Some w)) = None \<longleftrightarrow> watcher_ok w"
    by (rule watcher_Validate_None_iff)
  show "err_Is (fst (watcher_Validate env (Some w))) t \<longleftrightarrow>
      (\<exists>e \<in> set (validate_errors env 0 (w_Tasks w)). err_Is e t)" for t
    by (auto simp: watcher_Validate_def Let_def case_prod_beta validate_tasks_errors fold_join_into_Is
        err_Is_join_into new_error_def split: option.splits bool.splits)
  show "\<exists>ts. snd (watcher_Validate env (Some w)) = Some (w\<lparr>w_Tasks := ts\<rparr>) \<and> length ts = length (w_Tasks w)"
    by (auto simp: watcher_Validate_def Let_def case_prod_beta)
qed

text \<open>
  Starting and closing a watcher reach every task. The start initialises each task with the
  watcher's ID, the close closes each of the started tasks, and in both a task's error does not keep
  the loop from the tasks after it: the joined error is nil exactly if no task reported one (and, for
  the start, the response channel was there), and it holds every error a task reported. The close
  also closes the done channel, so that closing the watcher a second time panics.
\<close>

theorem watcher_visits_all_tasks:
  assumes start: "watcher_start envs chan w = Returns (serr, w1)"
    and close: "watcher_close envc w1 = Returns (cerr, w2)"
  shows "\<exists>es cs. length es = length (w_Tasks w) \<and> length cs = length (w_Tasks w) \<and>
    (\<forall>j < length (w_Tasks w).
       task_Initialize (envs j) (w_ID w) (w_Tasks w ! j) = Returns (es ! j, w_Tasks w1 ! j) \<and>
       task_Close (envc j) (w_Tasks w1 ! j) = Returns (cs ! j, w_Tasks w2 ! j)) \<and>
    (serr = None \<longleftrightarrow> chan \<and> (\<forall>e \<in> set es. e = None)) \<and>
    (cerr = None \<longleftrightarrow> (\<forall>e \<in> set cs. e = None)) \<and>
    (\<forall>t. err_Is serr t \<longleftrightarrow> (\<exists>e \<in> set es. err_Is e t)) \<and>
    (\<forall>t. err_Is cerr t \<longleftrightarrow> (\<exists>e \<in> set cs. err_Is e t)) \<and>
    w_ID w2 = w_ID w \<and> watcher_close envc w2 = Panics"
proof -
  define errs0 where "errs0 = (if \<not> chan then join_into None (new_error ''response channel is nil'') else None)"
  obtain ts1 where s: "each_task (\<lambda>te. task_Initialize te (w_ID w)) envs 0 errs0 (w_Tasks w) = Returns (serr, ts1)"
    and w1: "w_Tasks w1 = ts1" "w_ID w1 = w_ID w"
    using start by (cases "w_doneChan w") (auto simp: watcher_start_def Let_def run_iff errs0_def)
  obtain ts2 where c: "each_task task_Close envc 0 None (w_Tasks w1) = Returns (cerr, ts2)"
    and w2: "w_Tasks w2 = ts2" "w_ID w2 = w_ID w1" "w_doneChan w2 = Some True"
    using close by (auto simp: watcher_close_def run_iff split: if_splits)
  have errs0: "errs0 = None \<longleftrightarrow> chan" "\<not> err_Is errs0 t" for t
    by (auto simp: errs0_def new_error_def err_Is_join_into)
  obtain es where es: "length es = length (w_Tasks w)" "serr = foldl join_into errs0 es"
    "\<forall>j < length (w_Tasks w). task_Initialize (envs j) (w_ID w) (w_Tasks w ! j) = Returns (es ! j, w_Tasks w1 ! j)"
    using each_task_Returns [OF s] w1 by auto
  obtain cs where cs: "length cs = length (w_Tasks w)" "cerr = foldl join_into None cs"
    "\<forall>j < length (w_Tasks w). task_Close (envc j) (w_Tasks w1 ! j) = Returns (cs ! j, w_Tasks w2 ! j)"
    using each_task_Returns [OF c] each_task_Returns [OF s] w1 w2 by auto
  have "watcher_close envc w2 = Panics"
    using w2(3) by (simp add: watcher_close_def)
  then show ?thesis
    using es cs w1(2) w2(2) errs0
    by (intro exI [of _ es] exI [of _ cs]) (simp add: fold_join_into_None fold_join_into_Is)
qed

theorem watcher_visits_all_tasks_witness:
  "\<exists>(es :: go_err list) (cs :: go_err list). length es = 2 \<and> length cs = 2 \<and> es ! 0 \<noteq> None \<and> cs ! 1 \<noteq> None"
proof -
  let ?e = "Sentinel NetErrClosed"
  let ?t1 = "CustomTask \<lparr>ct_Validate = None, ct_Initialize = Some ?e, ct_Close = None\<rparr> :: nat WatcherTask"
  let ?t2 = "CustomTask \<lparr>ct_Validate = None, ct_Initialize = None, ct_Close = Some ?e\<rparr> :: nat WatcherTask"
  let ?w = "\<lparr>w_ID = ''w'', w_Cadence = 1, w_Tasks = [?t1, ?t2], w_doneChan = None\<rparr>"
  let ?w1 = "?w\<lparr>w_doneChan := Some False\<rparr>" let ?w2 = "?w\<lparr>w_doneChan := Some True\<rparr>"
  fix env :: "nat \<Rightarrow> task_env"
  have "watcher_start env True ?w = Returns (Some (JoinError [?e]), ?w1)"
    "watcher_close env ?w1 = Returns (Some (JoinError [?e]), ?w2)"
    by (simp_all add: watcher_start_def watcher_close_def task_Initialize_def task_Close_def Let_def
        join_into_def errors_Join_def List.map_filter_simps)
  from watcher_visits_all_tasks [OF this] obtain es cs where
    l: "length es = 2" "length cs = 2" and
    j: "\<forall>j < 2. task_Initialize (env j) ''w'' ([?t1, ?t2] ! j) = Returns (es ! j, [?t1, ?t2] ! j) \<and>
       task_Close (env j) ([?t1, ?t2] ! j) = Returns (cs ! j, [?t1, ?t2] ! j)"
    by (auto simp: eval_nat_numeral)
  have "es ! 0 = Some ?e" "cs ! 1 = Some ?e"
    using spec [OF j, of 0] spec [OF j, of 1] by (simp_all add: task_Initialize_def task_Close_def)
  with l show ?thesis by (metis option.distinct(1))
qed

end
