(* ===== verification/Wadjit.thy ===== *)
theory Wadjit
  imports Watcher "HOL-Library.AList"
begin

text \<open>
  \<^verbatim>\<open>wadjit.go\<close>: the options, the Wadjit with its registry of watchers, its operations and the
  goroutine that forwards the watchers' responses.

  The task manager, the logger and the order in which \<^verbatim>\<open>sync.Map\<close> ranges over its keys are code
  outside the repository: records of functions, arguments of the definitions that call them.
\<close>

section \<open>The registry of watchers\<close>

text \<open>
  \<^verbatim>\<open>sync.Map\<close> is an association list; its \<^verbatim>\<open>Range\<close> visits the keys in an order of its own.
\<close>

type_synonym 'v sync_map = "(string \<times> 'v) list"

definition sm_Store :: "string \<Rightarrow> 'v \<Rightarrow> 'v sync_map \<Rightarrow> 'v sync_map" where
  "sm_Store k v m = AList.update k v m"

definition sm_LoadOrStore :: "string \<Rightarrow> 'v \<Rightarrow> 'v sync_map \<Rightarrow> bool \<times> 'v sync_map" where
  "sm_LoadOrStore k v m = (if map_of m k \<noteq> None then (True, m) else (False, sm_Store k v m))"

definition sm_LoadAndDelete :: "string \<Rightarrow> 'v sync_map \<Rightarrow> 'v option \<times> 'v sync_map" where
  "sm_LoadAndDelete k m = (map_of m k, AList.delete k m)"

definition sm_keys :: "(string list \<Rightarrow> string list) \<Rightarrow> 'v sync_map \<Rightarrow> string list" where
  "sm_keys ord m = ord (map fst m)"

section \<open>Parameters\<close>

record ('tm, 'opt, 'lg, 'mode) taskman_lib =
  tl_New :: "'opt list \<Rightarrow> 'tm"
  tl_WithLogger :: "'lg \<Rightarrow> 'opt"
  tl_WithMode :: "'mode \<Rightarrow> 'opt"
  tl_ScheduleJob :: "taskman_job \<Rightarrow> 'tm \<Rightarrow> go_err \<times> 'tm"
  tl_PauseJob :: "string \<Rightarrow> 'tm \<Rightarrow> go_err \<times> 'tm"
  tl_ResumeJob :: "string \<Rightarrow> 'tm \<Rightarrow> go_err \<times> 'tm"
  tl_RemoveJob :: "string \<Rightarrow> 'tm \<Rightarrow> go_err \<times> 'tm"
  tl_Stop :: "'tm \<Rightarrow> 'tm"

record 'lg logger_lib =
  lg_GetLevel :: "'lg \<Rightarrow> int"
  lg_Level :: "'lg \<Rightarrow> int \<Rightarrow> 'lg"
  lg_DebugLevel :: int
  lg_Nop :: 'lg

section \<open>Options\<close>

definition defaultResponseChanBufferSize :: int where
  "defaultResponseChanBufferSize = 512"

text \<open>The logger of a zero \<^verbatim>\<open>options\<close> is no value of the library's: it is an option.\<close>

record ('opt, 'lg) options =
  op_bufferSize :: int
  op_defaultDNSPolicy :: DNSPolicy
  op_hasDefaultDNSPolicy :: bool
  op_logger :: "'lg option"
  op_loggerSet :: bool
  op_taskmanOptions :: "'opt list"

type_synonym ('opt, 'lg) Option = "('opt, 'lg) options \<Rightarrow> ('opt, 'lg) options"

definition WithBufferSize :: "int \<Rightarrow> ('opt, 'lg) Option" where
  "WithBufferSize sz o' = (if sz < 0 then o' else o'\<lparr>op_bufferSize := sz\<rparr>)"

definition WithDefaultDNSPolicy :: "DNSPolicy \<Rightarrow> ('opt, 'lg) Option" where
  "WithDefaultDNSPolicy policy o' = o'\<lparr>op_defaultDNSPolicy := policy, op_hasDefaultDNSPolicy := True\<rparr>"

definition WithLogger ::
    "('tm, 'opt, 'lg, 'mode) taskman_lib \<Rightarrow> 'lg logger_lib \<Rightarrow> 'lg \<Rightarrow> ('opt, 'lg) Option" where
  "WithLogger L G logger o' =
     (let o1 = o'\<lparr>op_logger := Some logger, op_loggerSet := True\<rparr>;
          logLevel = max (lg_GetLevel G logger) (lg_DebugLevel G);
          log = lg_Level G logger logLevel
      in o1\<lparr>op_taskmanOptions := op_taskmanOptions o1 @ [tl_WithLogger L log]\<rparr>)"

text \<open>A task-manager option may be nil, and so may an option of \<^verbatim>\<open>New\<close>.\<close>

definition WithTaskmanOptions :: "'opt option list \<Rightarrow> ('opt, 'lg) Option" where
  "WithTaskmanOptions opts o' =
     (if opts = [] then o'
      else
        let filtered = List.map_filter id opts
        in if filtered = [] then o'
           else o'\<lparr>op_taskmanOptions := op_taskmanOptions o' @ ([] @ filtered)\<rparr>)"

definition WithTaskmanMode :: "('tm, 'opt, 'lg, 'mode) taskman_lib \<Rightarrow> 'mode \<Rightarrow> ('opt, 'lg) Option" where
  "WithTaskmanMode L mode = WithTaskmanOptions [Some (tl_WithMode L mode)]"

fun apply_each :: "('opt, 'lg) Option option list \<Rightarrow> ('opt, 'lg) options \<Rightarrow> ('opt, 'lg) options" where
  "apply_each [] cfg = cfg"
| "apply_each (None # opts) cfg = apply_each opts cfg"
| "apply_each (Some opt # opts) cfg = apply_each opts (opt cfg)"

definition applyOptions :: "'lg logger_lib \<Rightarrow> ('opt, 'lg) Option option list \<Rightarrow> ('opt, 'lg) options" where
  "applyOptions G opts =
     (let cfg0 = \<lparr>op_bufferSize = defaultResponseChanBufferSize, op_defaultDNSPolicy = zero_policy,
                  op_hasDefaultDNSPolicy = False, op_logger = None, op_loggerSet = False,
                  op_taskmanOptions = []\<rparr>;
          cfg1 = apply_each opts cfg0;
          cfg2 = (if op_bufferSize cfg1 < 0
                  then cfg1\<lparr>op_bufferSize := defaultResponseChanBufferSize\<rparr> else cfg1)
      in if \<not> op_loggerSet cfg2 then cfg2\<lparr>op_logger := Some (lg_Nop G)\<rparr> else cfg2)"

section \<open>The state\<close>

record 'r chan =
  ch_cap :: nat
  ch_buf :: "'r list"
  ch_closed :: bool

definition make_chan :: "int \<Rightarrow> 'r chan outcome" where
  "make_chan sz =
     (if sz < 0 then Panics else Returns \<lparr>ch_cap = nat sz, ch_buf = [], ch_closed = False\<rparr>)"

text \<open>
  The goroutine of \<^verbatim>\<open>listenForResponses\<close> stands at its \<^verbatim>\<open>select\<close>, at the send of a response to
  the export channel, or has returned. The \<^verbatim>\<open>sync.Once\<close> of \<^verbatim>\<open>Close\<close> has not run, is waiting for that
  goroutine, or is done; \<open>wj_close\<close> holds the errors collected. \<open>Closing\<close> is the time between the
  cancellation and the end of the removals.
\<close>

datatype listener = Listening | Handing WatcherResponse | Exited

datatype close_state = NotClosed | Closing | Waiting go_err | Closed go_err

record ('id, 'tm) Wadjit =
  wj_watchers :: "'id Watcher sync_map"
  wj_taskManager :: 'tm
  wj_respGatherChan :: "WatcherResponse chan"
  wj_respExportChan :: "WatcherResponse chan"
  wj_defaultDNSPolicy :: DNSPolicy
  wj_hasDefaultDNSPolicy :: bool
  wj_cancelled :: bool
  wj_listener :: listener
  wj_close :: close_state

text \<open>
  \<^verbatim>\<open>New\<close>. Both channels are made here and nowhere else, so they are never nil and the nil checks of
  \<^verbatim>\<open>Close\<close> always hold.
\<close>

definition New ::
    "('tm, 'opt, 'lg, 'mode) taskman_lib \<Rightarrow> 'lg logger_lib \<Rightarrow> ('opt, 'lg) Option option list
       \<Rightarrow> ('id, 'tm) Wadjit outcome" where
  "New L G opts =
     (let options = applyOptions G opts;
          tm = tl_New L (op_taskmanOptions options)
      in and_then (make_chan (op_bufferSize options)) (\<lambda>gather.
         and_then (make_chan (op_bufferSize options)) (\<lambda>export.
           Returns \<lparr>wj_watchers = [], wj_taskManager = tm, wj_respGatherChan = gather,
                    wj_respExportChan = export, wj_defaultDNSPolicy = op_defaultDNSPolicy options,
                    wj_hasDefaultDNSPolicy = op_hasDefaultDNSPolicy options, wj_cancelled = False,
                    wj_listener = Listening, wj_close = NotClosed\<rparr>)))"

section \<open>Watchers\<close>

definition default_policy_task :: "DNSPolicy \<Rightarrow> 'id WatcherTask \<Rightarrow> 'id WatcherTask" where
  "default_policy_task policy t =
     (case t of
        HTTPTask e \<Rightarrow>
          if ep_dnsPolicySet e then t else HTTPTask (e\<lparr>ep_dnsPolicy := policy, ep_dnsPolicySet := True\<rparr>)
      | _ \<Rightarrow> t)"

definition applyDefaultDNSPolicy :: "('id, 'tm) Wadjit \<Rightarrow> 'id Watcher option \<Rightarrow> 'id Watcher option" where
  "applyDefaultDNSPolicy w watcher =
     (if \<not> wj_hasDefaultDNSPolicy w then watcher
      else
        (case watcher of
           None \<Rightarrow> None
         | Some x \<Rightarrow> Some (x\<lparr>w_Tasks := map (default_policy_task (wj_defaultDNSPolicy w)) (w_Tasks x)\<rparr>)))"

text \<open>
  The outside of adding a watcher: the environments of its tasks' validation and initialisation, and
  the clock. The errors are formatted with \<^verbatim>\<open>%v\<close>: only their text is kept. The result holds the
  caller's watcher after the call, which after the store is the one in the registry.
\<close>

record add_env =
  ae_validate :: "nat \<Rightarrow> task_env"
  ae_start :: "nat \<Rightarrow> task_env"
  ae_now :: gotime

definition AddWatcher ::
    "('tm, 'opt, 'lg, 'mode) taskman_lib \<Rightarrow> add_env \<Rightarrow> 'id Watcher option \<Rightarrow> ('id, 'tm) Wadjit
       \<Rightarrow> (go_err \<times> 'id Watcher option \<times> ('id, 'tm) Wadjit) outcome" where
  "AddWatcher L env watcher0 w =
     (case watcher_Validate (ae_validate env) (applyDefaultDNSPolicy w watcher0) of
        (Some err, watcher) \<Rightarrow>
          Returns (new_error (''error validating watcher: '' @ error_text err), watcher, w)
      | (None, None) \<Rightarrow> Panics
      | (None, Some watcher) \<Rightarrow>
          (case sm_LoadOrStore (w_ID watcher) watcher (wj_watchers w) of
             (True, _) \<Rightarrow>
               Returns (new_error (''watcher with ID '' @ quoted (w_ID watcher) @ '' already exists''),
                        Some watcher, w)
           | (False, _) \<Rightarrow>
               and_then (watcher_start (ae_start env) True watcher) (\<lambda>(err, watcher1).
                 let w1 = w\<lparr>wj_watchers := sm_Store (w_ID watcher1) watcher1 (wj_watchers w)\<rparr>
                 in case err of
                      Some err \<Rightarrow>
                        Returns (new_error (''error starting watcher: '' @ error_text err), Some watcher1, w1)
                    | None \<Rightarrow>
                        (case tl_ScheduleJob L (watcher_job (ae_now env) watcher1) (wj_taskManager w1) of
                           (Some err, tm) \<Rightarrow>
                             Returns (new_error (''error scheduling job: '' @ error_text err),
                                      Some watcher1, w1\<lparr>wj_taskManager := tm\<rparr>)
                         | (None, tm) \<Rightarrow>
                             Returns (None, Some watcher1,
                               w1\<lparr>wj_taskManager := tm,
                                  wj_watchers := sm_Store (w_ID watcher1) watcher1 (wj_watchers w1)\<rparr>)))))"

fun AddWatchers ::
    "('tm, 'opt, 'lg, 'mode) taskman_lib \<Rightarrow> (nat \<Rightarrow> add_env) \<Rightarrow> nat \<Rightarrow> go_err \<Rightarrow> 'id Watcher option list
       \<Rightarrow> ('id, 'tm) Wadjit \<Rightarrow> (go_err \<times> ('id, 'tm) Wadjit) outcome" where
  "AddWatchers L env i errs [] w = Returns (errs, w)"
| "AddWatchers L env i errs (x # xs) w =
     and_then (AddWatcher L (env i) x w) (\<lambda>(err, _, w1).
       AddWatchers L env (Suc i) (join_into errs err) xs w1)"

definition PauseWatcher ::
    "('tm, 'opt, 'lg, 'mode) taskman_lib \<Rightarrow> string \<Rightarrow> ('id, 'tm) Wadjit \<Rightarrow> go_err \<times> ('id, 'tm) Wadjit" where
  "PauseWatcher L i w =
     (let (err, tm) = tl_PauseJob L i (wj_taskManager w) in (err, w\<lparr>wj_taskManager := tm\<rparr>))"

definition ResumeWatcher ::
    "('tm, 'opt, 'lg, 'mode) taskman_lib \<Rightarrow> string \<Rightarrow> ('id, 'tm) Wadjit \<Rightarrow> go_err \<times> ('id, 'tm) Wadjit" where
  "ResumeWatcher L i w =
     (let (err, tm) = tl_ResumeJob L i (wj_taskManager w) in (err, w\<lparr>wj_taskManager := tm\<rparr>))"

text \<open>\<open>cenv i j\<close> is the environment of closing task \<open>j\<close> of the watcher with ID \<open>i\<close>.\<close>

definition RemoveWatcher ::
    "('tm, 'opt, 'lg, 'mode) taskman_lib \<Rightarrow> (string \<Rightarrow> nat \<Rightarrow> task_env) \<Rightarrow> string \<Rightarrow> ('id, 'tm) Wadjit
       \<Rightarrow> (go_err \<times> ('id, 'tm) Wadjit) outcome" where
  "RemoveWatcher L cenv i w =
     (let (watcher, m) = sm_LoadAndDelete i (wj_watchers w);
          w1 = w\<lparr>wj_watchers := m\<rparr>
      in case watcher of
           None \<Rightarrow> Returns (new_error (''watcher with ID '' @ i @ '' not found''), w1)
         | Some x \<Rightarrow>
             and_then (watcher_close (cenv i) x) (\<lambda>(err, _).
               case err of
                 Some e \<Rightarrow> Returns (Some e, w1)
               | None \<Rightarrow>
                   (case tl_RemoveJob L i (wj_taskManager w1) of
                      (Some e, tm) \<Rightarrow>
                        Returns (Some (Errorf ''error removing watcher: '' e), w1\<lparr>wj_taskManager := tm\<rparr>)
                    | (None, tm) \<Rightarrow> Returns (None, w1\<lparr>wj_taskManager := tm\<rparr>))))"

definition WatcherIDs :: "(string list \<Rightarrow> string list) \<Rightarrow> ('id, 'tm) Wadjit \<Rightarrow> string list" where
  "WatcherIDs ord w = sm_keys ord (wj_watchers w)"

text \<open>What the task manager reports is a parameter.\<close>

definition Metrics :: "('tm \<Rightarrow> 'metrics) \<Rightarrow> ('id, 'tm) Wadjit \<Rightarrow> 'metrics" where
  "Metrics tm_Metrics w = tm_Metrics (wj_taskManager w)"

text \<open>The loops of \<^verbatim>\<open>Clear\<close> and \<^verbatim>\<open>Close\<close>; \<open>label\<close> is what \<^verbatim>\<open>Clear\<close> puts before an error.\<close>

fun remove_each ::
    "('tm, 'opt, 'lg, 'mode) taskman_lib \<Rightarrow> (string \<Rightarrow> nat \<Rightarrow> task_env) \<Rightarrow> (string \<Rightarrow> go_error \<Rightarrow> go_error)
       \<Rightarrow> go_err \<Rightarrow> string list \<Rightarrow> ('id, 'tm) Wadjit \<Rightarrow> (go_err \<times> ('id, 'tm) Wadjit) outcome" where
  "remove_each L cenv label errs [] w = Returns (errs, w)"
| "remove_each L cenv label errs (i # ids) w =
     and_then (RemoveWatcher L cenv i w) (\<lambda>(err, w1).
       remove_each L cenv label (join_into errs (map_option (label i) err)) ids w1)"

definition Clear ::
    "('tm, 'opt, 'lg, 'mode) taskman_lib \<Rightarrow> (string \<Rightarrow> nat \<Rightarrow> task_env) \<Rightarrow> (string list \<Rightarrow> string list)
       \<Rightarrow> ('id, 'tm) Wadjit \<Rightarrow> (go_err \<times> ('id, 'tm) Wadjit) outcome" where
  "Clear L cenv ord w =
     remove_each L cenv (\<lambda>i. Errorf (''error removing watcher '' @ quoted i @ '': '')) None (WatcherIDs ord w) w"

section \<open>Closing\<close>

definition close_chan :: "'r chan \<Rightarrow> 'r chan outcome" where
  "close_chan c = (if ch_closed c then Panics else Returns (c\<lparr>ch_closed := True\<rparr>))"

text \<open>
  The body of \<^verbatim>\<open>closeOnce.Do\<close> in three steps, between which the forwarding goroutine runs: the
  cancellation; the removals, \<^verbatim>\<open>Stop\<close> and the closing of the gather channel; what follows
  \<^verbatim>\<open>closeWG.Wait()\<close>.
\<close>

definition close_cancel :: "('id, 'tm) Wadjit \<Rightarrow> ('id, 'tm) Wadjit outcome" where
  "close_cancel w =
     (if wj_close w = NotClosed then Returns (w\<lparr>wj_cancelled := True, wj_close := Closing\<rparr>) else Blocks)"

definition close_begin ::
    "('tm, 'opt, 'lg, 'mode) taskman_lib \<Rightarrow> (string \<Rightarrow> nat \<Rightarrow> task_env) \<Rightarrow> (string list \<Rightarrow> string list)
       \<Rightarrow> ('id, 'tm) Wadjit \<Rightarrow> ('id, 'tm) Wadjit outcome" where
  "close_begin L cenv ord w =
     (if wj_close w \<noteq> Closing then Blocks
      else and_then (remove_each L cenv (\<lambda>i e. e) None (WatcherIDs ord w) w) (\<lambda>(errs, w1).
         let w2 = w1\<lparr>wj_taskManager := tl_Stop L (wj_taskManager w1)\<rparr>
         in and_then (close_chan (wj_respGatherChan w2)) (\<lambda>gather.
            Returns (w2\<lparr>wj_respGatherChan := gather, wj_close := Waiting errs\<rparr>))))"

definition close_finish :: "('id, 'tm) Wadjit \<Rightarrow> ('id, 'tm) Wadjit outcome" where
  "close_finish w =
     (case wj_close w of
        Waiting errs \<Rightarrow>
          if wj_listener w = Exited
          then and_then (close_chan (wj_respExportChan w)) (\<lambda>export.
                 Returns (w\<lparr>wj_respExportChan := export, wj_close := Closed errs\<rparr>))
          else Blocks
      | _ \<Rightarrow> Blocks)"

text \<open>A further call of \<^verbatim>\<open>Close\<close> waits for the first one and returns its errors.\<close>

definition close_again :: "('id, 'tm) Wadjit \<Rightarrow> go_err outcome" where
  "close_again w = (case wj_close w of Closed errs \<Rightarrow> Returns errs | _ \<Rightarrow> Blocks)"

section \<open>Forwarding responses\<close>

text \<open>A task's send to the gather channel, buffered.\<close>

definition task_send :: "WatcherResponse \<Rightarrow> ('id, 'tm) Wadjit \<Rightarrow> ('id, 'tm) Wadjit outcome" where
  "task_send r w =
     (let c = wj_respGatherChan w
      in if ch_closed c then Panics
         else if length (ch_buf c) < ch_cap c
         then Returns (w\<lparr>wj_respGatherChan := c\<lparr>ch_buf := ch_buf c @ [r]\<rparr>\<rparr>)
         else Blocks)"

text \<open>
  The branches of the loop of \<^verbatim>\<open>listenForResponses\<close>: a response received from the gather channel
  (\<open>listen_got\<close> is what follows a receive), the channel found closed and empty, and the cancelled
  context. When several are ready, Go picks any.
\<close>

definition listen_got :: "WatcherResponse \<Rightarrow> ('id, 'tm) Wadjit \<Rightarrow> ('id, 'tm) Wadjit" where
  "listen_got r w = w\<lparr>wj_listener := (if wj_cancelled w then Exited else Handing r)\<rparr>"

definition listen_receive :: "('id, 'tm) Wadjit \<Rightarrow> ('id, 'tm) Wadjit outcome" where
  "listen_receive w =
     (let c = wj_respGatherChan w
      in if wj_listener w \<noteq> Listening then Blocks
         else
           (case ch_buf c of
              r # rs \<Rightarrow> Returns (listen_got r (w\<lparr>wj_respGatherChan := c\<lparr>ch_buf := rs\<rparr>\<rparr>))
            | [] \<Rightarrow> if ch_closed c then Returns (w\<lparr>wj_listener := Exited\<rparr>) else Blocks))"

definition listen_done :: "('id, 'tm) Wadjit \<Rightarrow> ('id, 'tm) Wadjit outcome" where
  "listen_done w =
     (if wj_listener w = Listening \<and> wj_cancelled w then Returns (w\<lparr>wj_listener := Exited\<rparr>) else Blocks)"

text \<open>The send to the export channel, buffered.\<close>

definition listen_forward :: "('id, 'tm) Wadjit \<Rightarrow> ('id, 'tm) Wadjit outcome" where
  "listen_forward w =
     (case wj_listener w of
        Handing r \<Rightarrow>
          let c = wj_respExportChan w
          in if ch_closed c then Panics
             else if length (ch_buf c) < ch_cap c
             then Returns (w\<lparr>wj_respExportChan := c\<lparr>ch_buf := ch_buf c @ [r]\<rparr>, wj_listener := Listening\<rparr>)
             else Blocks
      | _ \<Rightarrow> Blocks)"

text \<open>A send meeting a waiting receiver, which is the only way through an unbuffered channel.\<close>

definition meet_gather :: "WatcherResponse \<Rightarrow> ('id, 'tm) Wadjit \<Rightarrow> ('id, 'tm) Wadjit outcome" where
  "meet_gather r w =
     (if ch_closed (wj_respGatherChan w) then Panics
      else if wj_listener w = Listening \<and> ch_buf (wj_respGatherChan w) = [] then Returns (listen_got r w)
      else Blocks)"

definition meet_export :: "('id, 'tm) Wadjit \<Rightarrow> (WatcherResponse \<times> ('id, 'tm) Wadjit) outcome" where
  "meet_export w =
     (case wj_listener w of
        Handing r \<Rightarrow>
          if ch_closed (wj_respExportChan w) then Panics
          else if ch_buf (wj_respExportChan w) = [] then Returns (r, w\<lparr>wj_listener := Listening\<rparr>)
          else Blocks
      | _ \<Rightarrow> Blocks)"

text \<open>A receive from the channel of \<^verbatim>\<open>Responses()\<close>, which is the export channel.\<close>

definition Responses :: "('id, 'tm) Wadjit \<Rightarrow> WatcherResponse chan" where
  "Responses w = wj_respExportChan w"

definition consumer_receive :: "('id, 'tm) Wadjit \<Rightarrow> (WatcherResponse option \<times> ('id, 'tm) Wadjit) outcome" where
  "consumer_receive w =
     (let c = Responses w
      in case ch_buf c of
           r # rs \<Rightarrow> Returns (Some r, w\<lparr>wj_respExportChan := c\<lparr>ch_buf := rs\<rparr>\<rparr>)
         | [] \<Rightarrow> if ch_closed c then Returns (None, w) else Blocks)"

end
