(* ===== verification/Wadjit_Registry.thy ===== *)
theory Wadjit_Registry
  imports Wadjit
begin

text \<open>
  The registry of watchers of \<^verbatim>\<open>wadjit.go\<close>: the interface of \<^verbatim>\<open>sync.Map\<close> and its interpretation, the
  ways through \<^verbatim>\<open>AddWatcher\<close> and \<^verbatim>\<open>RemoveWatcher\<close>, and the invariant that both keep.
\<close>

section \<open>The interface of the registry\<close>

text \<open>What \<^verbatim>\<open>sync.Map\<close> promises, and that removing the keys one by one empties it.\<close>

locale registry =
  fixes load :: "'m \<Rightarrow> string \<Rightarrow> 'v option"
    and store :: "string \<Rightarrow> 'v \<Rightarrow> 'm \<Rightarrow> 'm"
    and delete :: "string \<Rightarrow> 'm \<Rightarrow> 'm"
    and ids :: "'m \<Rightarrow> string list"
  assumes load_store: "load (store k v m) k' = (if k' = k then Some v else load m k')"
    and load_delete: "load (delete k m) k' = (if k' = k then None else load m k')"
    and ids_load: "k \<in> set (ids m) \<longleftrightarrow> load m k \<noteq> None"
begin

lemma store_ids: "set (ids (store k v m)) = insert k (set (ids m))"
  by (auto simp: ids_load load_store split: if_splits)

lemma delete_ids: "set (ids (delete k m)) = set (ids m) - {k}"
  by (auto simp: ids_load load_delete split: if_splits)

lemma delete_each: "load (fold delete ks m) k = (if k \<in> set ks then None else load m k)"
  by (induction ks arbitrary: m) (auto simp: load_delete)

lemma delete_all:
  assumes "set (ids m) \<subseteq> set ks"
  shows "ids (fold delete ks m) = []"
proof -
  have "load (fold delete ks m) k = None" for k
    using assms ids_load by (auto simp: delete_each)
  then show ?thesis by (metis ids_load list.set_intros(1) neq_Nil_conv)
qed

lemma store_store: "load (store k v (store k v m)) = load (store k v m)"
  by (rule ext) (simp add: load_store)

end

interpretation reg: registry map_of sm_Store AList.delete "map fst"
proof
  show "map_of (sm_Store k v m) k' = (if k' = k then Some v else map_of m k')" for k v m k'
    by (auto simp: sm_Store_def update_conv')
  show "map_of (AList.delete k m) k' = (if k' = k then None else map_of m k')" for k m k'
    by (auto simp: delete_conv')
  show "k \<in> set (map fst m) \<longleftrightarrow> map_of m k \<noteq> None" for k m
    by (simp add: map_of_eq_None_iff)
qed

section \<open>Options\<close>

lemma applyOptions_bufferSize [simp]: "0 \<le> op_bufferSize (applyOptions G opts)"
  by (auto simp: applyOptions_def Let_def defaultResponseChanBufferSize_def)

lemma apply_each_append: "apply_each (xs @ ys) cfg = apply_each ys (apply_each xs cfg)"
  by (induction xs arbitrary: cfg) (auto split: option.splits, metis apply_each.simps(2,3) not_None_eq)

section \<open>Operations on the registry\<close>

text \<open>The invariant: distinct IDs, and under each ID a watcher of that ID that can be run and closed.\<close>

definition registered_ok :: "string \<Rightarrow> 'id Watcher \<Rightarrow> bool" where
  "registered_ok i x \<longleftrightarrow> w_ID x = i \<and> i \<noteq> [] \<and> 0 < w_Cadence x \<and> w_Tasks x \<noteq> [] \<and> w_doneChan x = Some False"

definition registry_ok :: "('id, 'tm) Wadjit \<Rightarrow> bool" where
  "registry_ok w \<longleftrightarrow>
     distinct (map fst (wj_watchers w)) \<and> (\<forall>(i, x) \<in> set (wj_watchers w). registered_ok i x)"

lemma watcher_Validate_keeps:
  assumes "watcher_Validate env (Some x) = (err, Some y)"
  shows "w_ID y = w_ID x" "w_Cadence y = w_Cadence x" "w_doneChan y = w_doneChan x"
    "length (w_Tasks y) = length (w_Tasks x)"
  using assms by (auto simp: watcher_Validate_def Let_def case_prod_beta)

lemma validated_registered_ok:
  assumes "watcher_Validate env x = (None, Some y)"
  shows "registered_ok (w_ID y) y"
proof (cases x)
  case None
  then show ?thesis using assms by (simp add: watcher_Validate_def new_error_def)
next
  case (Some z)
  then have ok: "watcher_ok z" using assms watcher_Validate_None_iff [of env z] by simp
  have v: "watcher_Validate env (Some z) = (None, Some y)" using assms Some by simp
  show ?thesis
    using ok watcher_Validate_keeps [OF v] by (auto simp: registered_ok_def watcher_ok_def)
qed

lemma start_keeps:
  assumes "watcher_start env c x = Returns (err, y)" "w_doneChan x = Some False"
  shows "w_ID y = w_ID x" "w_Cadence y = w_Cadence x" "w_doneChan y = Some False"
    "length (w_Tasks y) = length (w_Tasks x)"
  using assms each_task_Returns by (fastforce simp: watcher_start_def Let_def run_iff)+

text \<open>The ways through \<^verbatim>\<open>AddWatcher\<close>.\<close>

lemma AddWatcher_cases:
  assumes "AddWatcher L env x0 w = Returns (err, x', w')"
  obtains (rejected) "err \<noteq> None" "w' = w"
      "fst (watcher_Validate (ae_validate env) (applyDefaultDNSPolicy w x0)) \<noteq> None \<or>
       (\<exists>x. watcher_Validate (ae_validate env) (applyDefaultDNSPolicy w x0) = (None, Some x) \<and>
            map_of (wj_watchers w) (w_ID x) \<noteq> None)"
  | (unstarted) x x1 e where
      "watcher_Validate (ae_validate env) (applyDefaultDNSPolicy w x0) = (None, Some x)"
      "map_of (wj_watchers w) (w_ID x) = None" "watcher_start (ae_start env) True x = Returns (Some e, x1)"
      "err = new_error (''error starting watcher: '' @ error_text e)" "x' = Some x1"
      "w' = w\<lparr>wj_watchers := sm_Store (w_ID x) x1 (wj_watchers w)\<rparr>" "w_ID x1 = w_ID x" "registered_ok (w_ID x) x1"
  | (unscheduled) x x1 e tm where
      "watcher_Validate (ae_validate env) (applyDefaultDNSPolicy w x0) = (None, Some x)"
      "map_of (wj_watchers w) (w_ID x) = None" "watcher_start (ae_start env) True x = Returns (None, x1)"
      "tl_ScheduleJob L (watcher_job (ae_now env) x1) (wj_taskManager w) = (Some e, tm)"
      "err = new_error (''error scheduling job: '' @ error_text e)" "x' = Some x1"
      "w' = w\<lparr>wj_watchers := sm_Store (w_ID x) x1 (wj_watchers w), wj_taskManager := tm\<rparr>"
      "w_ID x1 = w_ID x" "registered_ok (w_ID x) x1"
  | (added) x x1 tm where
      "watcher_Validate (ae_validate env) (applyDefaultDNSPolicy w x0) = (None, Some x)"
      "map_of (wj_watchers w) (w_ID x) = None" "watcher_start (ae_start env) True x = Returns (None, x1)"
      "tl_ScheduleJob L (watcher_job (ae_now env) x1) (wj_taskManager w) = (None, tm)"
      "err = None" "x' = Some x1"
      "w' = w\<lparr>wj_watchers := sm_Store (w_ID x) x1 (sm_Store (w_ID x) x1 (wj_watchers w)), wj_taskManager := tm\<rparr>"
      "w_ID x1 = w_ID x" "registered_ok (w_ID x) x1"
proof -
  obtain verr vx where v: "watcher_Validate (ae_validate env) (applyDefaultDNSPolicy w x0) = (verr, vx)"
    by (metis prod.exhaust)
  show thesis
  proof (cases verr)
    case (Some e)
    then show thesis using assms v by (intro rejected) (auto simp: AddWatcher_def new_error_def)
  next
    case None
    then obtain x where x: "vx = Some x" using assms v by (cases vx) (auto simp: AddWatcher_def)
    note ok = validated_registered_ok [OF v [unfolded None x]]
    show thesis
    proof (cases "map_of (wj_watchers w) (w_ID x)")
      case (Some y)
      then show thesis
        using assms v None x by (intro rejected) (auto simp: AddWatcher_def new_error_def sm_LoadOrStore_def)
    next
      case fresh: None
      note add = assms [unfolded AddWatcher_def v None x, simplified, unfolded sm_LoadOrStore_def fresh, simplified]
      obtain serr x1 where s: "watcher_start (ae_start env) True x = Returns (serr, x1)"
        using add by (auto simp: run_iff)
      have x1: "w_ID x1 = w_ID x" "registered_ok (w_ID x) x1"
        using start_keeps [OF s] ok by (auto simp: registered_ok_def)
      obtain terr tm where t: "tl_ScheduleJob L (watcher_job (ae_now env) x1) (wj_taskManager w) = (terr, tm)"
        by (metis prod.exhaust)
      show thesis
        using add s t x1 v None x fresh
        by (cases serr; cases terr) (auto simp: Let_def intro: unstarted unscheduled added)
    qed
  qed
qed

lemma AddWatcher_frame:
  assumes "AddWatcher L env x0 w = Returns (err, x', w')"
  shows "\<exists>m tm. w' = w\<lparr>wj_watchers := m, wj_taskManager := tm\<rparr>"
  using assms
proof (cases rule: AddWatcher_cases)
  case rejected
  then show ?thesis by (intro exI [of _ "wj_watchers w"] exI [of _ "wj_taskManager w"]) simp
next
  case (unstarted x x1 e)
  then show ?thesis by (intro exI [of _ "wj_watchers w'"] exI [of _ "wj_taskManager w"]) simp
qed (blast | simp)+

text \<open>The ways through \<^verbatim>\<open>RemoveWatcher\<close>.\<close>

lemma RemoveWatcher_cases:
  assumes "RemoveWatcher L cenv i w = Returns (err, w')"
  obtains (absent) "map_of (wj_watchers w) i = None" "err \<noteq> None"
      "w' = w\<lparr>wj_watchers := AList.delete i (wj_watchers w)\<rparr>"
  | (unclosed) x e y where "map_of (wj_watchers w) i = Some x" "watcher_close (cenv i) x = Returns (Some e, y)"
      "err = Some e" "w' = w\<lparr>wj_watchers := AList.delete i (wj_watchers w)\<rparr>"
  | (unremoved) x y e tm where "map_of (wj_watchers w) i = Some x" "watcher_close (cenv i) x = Returns (None, y)"
      "tl_RemoveJob L i (wj_taskManager w) = (Some e, tm)" "err = Some (Errorf ''error removing watcher: '' e)"
      "w' = w\<lparr>wj_watchers := AList.delete i (wj_watchers w), wj_taskManager := tm\<rparr>"
  | (removed) x y tm where "map_of (wj_watchers w) i = Some x" "watcher_close (cenv i) x = Returns (None, y)"
      "tl_RemoveJob L i (wj_taskManager w) = (None, tm)" "err = None"
      "w' = w\<lparr>wj_watchers := AList.delete i (wj_watchers w), wj_taskManager := tm\<rparr>"
proof (cases "map_of (wj_watchers w) i")
  case None
  then show thesis
    using assms by (intro absent) (auto simp: RemoveWatcher_def sm_LoadAndDelete_def Let_def new_error_def)
next
  case (Some x)
  note rem = assms [unfolded RemoveWatcher_def sm_LoadAndDelete_def Some Let_def, simplified]
  obtain cerr y where c: "watcher_close (cenv i) x = Returns (cerr, y)"
    using rem by (auto simp: run_iff)
  obtain terr tm where t: "tl_RemoveJob L i (wj_taskManager w) = (terr, tm)"
    by (metis prod.exhaust)
  show thesis
    using rem c t Some by (cases cerr; cases terr) (auto intro: unclosed unremoved removed)
qed

lemma RemoveWatcher_frame:
  assumes "RemoveWatcher L cenv i w = Returns (err, w')"
  shows "\<exists>tm. w' = w\<lparr>wj_watchers := AList.delete i (wj_watchers w), wj_taskManager := tm\<rparr>"
  using assms
proof (cases rule: RemoveWatcher_cases)
  case absent
  then show ?thesis by (intro exI [of _ "wj_taskManager w"]) simp
next
  case (unclosed x e y)
  then show ?thesis by (intro exI [of _ "wj_taskManager w"]) simp
qed blast+

lemma remove_each_frame:
  assumes "remove_each L cenv label errs ids w = Returns (errs', w')"
  shows "\<exists>tm. w' = w\<lparr>wj_watchers := fold AList.delete ids (wj_watchers w), wj_taskManager := tm\<rparr>"
  using assms
proof (induction ids arbitrary: errs w)
  case Nil
  then show ?case by (intro exI [of _ "wj_taskManager w"]) simp
next
  case (Cons i ids)
  then obtain err w1 where r: "RemoveWatcher L cenv i w = Returns (err, w1)"
    and rest: "remove_each L cenv label (join_into errs (map_option (label i) err)) ids w1 = Returns (errs', w')"
    by (auto simp: run_iff)
  from RemoveWatcher_frame [OF r] Cons.IH [OF rest] show ?case by auto
qed

section \<open>The invariant of the registry\<close>

lemma registry_ok_iff:
  "registry_ok w \<longleftrightarrow> distinct (map fst (wj_watchers w)) \<and>
     (\<forall>i x. map_of (wj_watchers w) i = Some x \<longrightarrow> registered_ok i x)"
proof -
  have "(i, x) \<in> set m \<longleftrightarrow> map_of m i = Some x" if "distinct (map fst m)" for i x and m :: "'c Watcher sync_map"
    using that by (simp add: map_of_eq_Some_iff)
  then show ?thesis by (auto simp: registry_ok_def)
qed

lemma registry_ok_Store:
  assumes "registry_ok w" "registered_ok i x"
  shows "registry_ok (w\<lparr>wj_watchers := sm_Store i x (wj_watchers w)\<rparr>)"
  using assms by (auto simp: registry_ok_iff reg.load_store) (simp add: sm_Store_def distinct_update)

lemma registry_ok_delete:
  assumes "registry_ok w"
  shows "registry_ok (w\<lparr>wj_watchers := AList.delete i (wj_watchers w)\<rparr>)"
  using assms by (auto simp: registry_ok_iff reg.load_delete distinct_delete split: if_splits)

lemma registry_ok_tm [simp]: "registry_ok (w\<lparr>wj_taskManager := tm\<rparr>) = registry_ok w"
  by (simp add: registry_ok_def)

lemma registry_ok_delete_each:
  assumes "registry_ok w"
  shows "registry_ok (w\<lparr>wj_watchers := fold AList.delete ids (wj_watchers w)\<rparr>)"
  using assms
proof (induction ids arbitrary: w)
  case (Cons i ids)
  from Cons.IH [OF registry_ok_delete [OF Cons.prems, of i]] show ?case by simp
qed simp

lemma AddWatcher_registry_ok:
  assumes "AddWatcher L env x0 w = Returns (err, x', w')" "registry_ok w"
  shows "registry_ok w'"
  using assms(1)
proof (cases rule: AddWatcher_cases)
  case (unstarted x x1 e)
  then show ?thesis using registry_ok_Store [OF assms(2)] by simp
next
  case (unscheduled x x1 e tm)
  then show ?thesis
    using registry_ok_Store [OF assms(2), of "w_ID x" x1] by (simp add: registry_ok_def)
next
  case (added x x1 tm)
  then show ?thesis
    using registry_ok_Store [OF registry_ok_Store [OF assms(2)], of "w_ID x" x1 "w_ID x" x1]
    by (simp add: registry_ok_def)
qed (use assms in simp)

lemma RemoveWatcher_registry_ok:
  assumes "RemoveWatcher L cenv i w = Returns (err, w')" "registry_ok w"
  shows "registry_ok w'"
  using RemoveWatcher_frame [OF assms(1)] registry_ok_delete [OF assms(2), of i]
  by (auto simp: registry_ok_def)

lemma remove_each_registry_ok:
  assumes "remove_each L cenv label errs ids w = Returns (errs', w')" "registry_ok w"
  shows "registry_ok w'"
  using remove_each_frame [OF assms(1)] registry_ok_delete_each [OF assms(2), of ids]
  by (auto simp: registry_ok_def)

end
