(* ===== verification/Wadjit_Runs.thy ===== *)
theory Wadjit_Runs
  imports Wadjit_Registry "HOL-Library.Multiset"
begin

text \<open>
  The runs of a Wadjit: the user's calls, the tasks that send responses, the forwarding goroutine,
  the consumer and \<^verbatim>\<open>Close\<close> interleave as steps. The order of the responses, the end of \<^verbatim>\<open>Close\<close>
  and the registry are invariants of all runs.
\<close>

section \<open>Runs\<close>

datatype event = Sent WatcherResponse | Delivered WatcherResponse | Dropped WatcherResponse

fun sents :: "event list \<Rightarrow> WatcherResponse list" where
  "sents [] = []"
| "sents (Sent r # es) = r # sents es"
| "sents (Delivered r # es) = sents es"
| "sents (Dropped r # es) = sents es"

fun delivereds :: "event list \<Rightarrow> WatcherResponse list" where
  "delivereds [] = []"
| "delivereds (Sent r # es) = delivereds es"
| "delivereds (Delivered r # es) = r # delivereds es"
| "delivereds (Dropped r # es) = delivereds es"

fun droppeds :: "event list \<Rightarrow> WatcherResponse list" where
  "droppeds [] = []"
| "droppeds (Sent r # es) = droppeds es"
| "droppeds (Delivered r # es) = droppeds es"
| "droppeds (Dropped r # es) = r # droppeds es"

lemma events_append [simp]:
  "sents (es @ fs) = sents es @ sents fs"
  "delivereds (es @ fs) = delivereds es @ delivereds fs"
  "droppeds (es @ fs) = droppeds es @ droppeds fs"
  by (induction es rule: sents.induct) auto

definition dropped_by :: "('id, 'tm) Wadjit \<Rightarrow> WatcherResponse list \<Rightarrow> event list" where
  "dropped_by w rs = (if wj_cancelled w \<and> rs \<noteq> [] then [Dropped (hd rs)] else [])"

text \<open>
  One step of the whole: a task sends, the forwarding goroutine moves on, the consumer receives, or
  one of the user's calls happens.
\<close>

inductive wadjit_step ::
    "('tm, 'opt, 'lg, 'mode) taskman_lib \<Rightarrow> ('id, 'tm) Wadjit \<Rightarrow> event list \<Rightarrow> ('id, 'tm) Wadjit \<Rightarrow> bool"
  for L where
  step_send: "task_send r w = Returns w' \<Longrightarrow> wadjit_step L w [Sent r] w'"
| step_meet_gather: "meet_gather r w = Returns w' \<Longrightarrow> wadjit_step L w (Sent r # dropped_by w [r]) w'"
| step_receive:
    "listen_receive w = Returns w' \<Longrightarrow> wadjit_step L w (dropped_by w (ch_buf (wj_respGatherChan w))) w'"
| step_done: "listen_done w = Returns w' \<Longrightarrow> wadjit_step L w [] w'"
| step_forward: "listen_forward w = Returns w' \<Longrightarrow> wadjit_step L w [] w'"
| step_meet_export: "meet_export w = Returns (r, w') \<Longrightarrow> wadjit_step L w [Delivered r] w'"
| step_consume: "consumer_receive w = Returns (Some r, w') \<Longrightarrow> wadjit_step L w [Delivered r] w'"
| step_add: "AddWatcher L env x w = Returns (err, x', w') \<Longrightarrow> wadjit_step L w [] w'"
| step_pause: "PauseWatcher L i w = (err, w') \<Longrightarrow> wadjit_step L w [] w'"
| step_resume: "ResumeWatcher L i w = (err, w') \<Longrightarrow> wadjit_step L w [] w'"
| step_remove: "RemoveWatcher L cenv i w = Returns (err, w') \<Longrightarrow> wadjit_step L w [] w'"
| step_clear: "Clear L cenv ord w = Returns (err, w') \<Longrightarrow> wadjit_step L w [] w'"
| step_close_cancel: "close_cancel w = Returns w' \<Longrightarrow> wadjit_step L w [] w'"
| step_close_begin: "close_begin L cenv ord w = Returns w' \<Longrightarrow> wadjit_step L w [] w'"
| step_close_finish: "close_finish w = Returns w' \<Longrightarrow> wadjit_step L w [] w'"

abbreviation wadjit_run ::
    "('tm, 'opt, 'lg, 'mode) taskman_lib \<Rightarrow> ('id, 'tm) Wadjit \<Rightarrow> event list \<Rightarrow> ('id, 'tm) Wadjit \<Rightarrow> bool" where
  "wadjit_run L \<equiv> runs (wadjit_step L)"

lemmas run_refl = runs_refl [where step = "wadjit_step L"] for L
lemmas run_one = runs_one [where step = "wadjit_step L"] for L
lemmas run_step = runs_step [where step = "wadjit_step L"] for L

inductive_cases wadjit_stepE: "wadjit_step L w es w'"

text \<open>The calls that only touch the registry and the task manager.\<close>

definition same_channels :: "('id, 'tm) Wadjit \<Rightarrow> ('id, 'tm) Wadjit \<Rightarrow> bool" where
  "same_channels w w' \<longleftrightarrow> wj_respGatherChan w' = wj_respGatherChan w \<and>
     wj_respExportChan w' = wj_respExportChan w \<and> wj_cancelled w' = wj_cancelled w \<and>
     wj_listener w' = wj_listener w \<and> wj_close w' = wj_close w"

lemma call_same_channels:
  "AddWatcher L env x w = Returns (err, x', w') \<Longrightarrow> same_channels w w'"
  "PauseWatcher L i w = (err, w') \<Longrightarrow> same_channels w w'"
  "ResumeWatcher L i w = (err, w') \<Longrightarrow> same_channels w w'"
  "RemoveWatcher L cenv i w = Returns (err, w') \<Longrightarrow> same_channels w w'"
  "remove_each L cenv label errs ids w = Returns (errs', w') \<Longrightarrow> same_channels w w'"
  "Clear L cenv ord w = Returns (err, w') \<Longrightarrow> same_channels w w'"
  using AddWatcher_frame [of L env x w err x' w'] RemoveWatcher_frame [of L cenv i w err w']
    remove_each_frame [of L cenv label errs ids w errs' w']
  by (auto simp: same_channels_def PauseWatcher_def ResumeWatcher_def Clear_def split: prod.splits
      dest: remove_each_frame)

section \<open>The invariant of the runs\<close>

fun hand :: "listener \<Rightarrow> WatcherResponse list" where
  "hand (Handing r) = [r]"
| "hand l = []"

lemma hand_Nil_iff: "hand l = [] \<longleftrightarrow> (\<forall>r. l \<noteq> Handing r)"
  by (cases l) auto

fun is_Closed :: "close_state \<Rightarrow> bool" where
  "is_Closed (Closed errs) = True"
| "is_Closed c = False"

fun is_Waiting :: "close_state \<Rightarrow> bool" where
  "is_Waiting (Waiting errs) = True"
| "is_Waiting c = False"

definition channels_ok :: "('id, 'tm) Wadjit \<Rightarrow> bool" where
  "channels_ok w \<longleftrightarrow>
     (wj_cancelled w \<longleftrightarrow> wj_close w \<noteq> NotClosed) \<and>
     (ch_closed (wj_respGatherChan w) \<longleftrightarrow> is_Waiting (wj_close w) \<or> is_Closed (wj_close w)) \<and>
     (ch_closed (wj_respExportChan w) \<longleftrightarrow> is_Closed (wj_close w)) \<and>
     (is_Closed (wj_close w) \<longrightarrow> wj_listener w = Exited) \<and>
     (wj_listener w = Exited \<longrightarrow> wj_cancelled w) \<and>
     length (ch_buf (wj_respGatherChan w)) \<le> ch_cap (wj_respGatherChan w) \<and>
     length (ch_buf (wj_respExportChan w)) \<le> ch_cap (wj_respExportChan w)"

definition fifo :: "event list \<Rightarrow> ('id, 'tm) Wadjit \<Rightarrow> bool" where
  "fifo es w \<longleftrightarrow>
     sents es = delivereds es @ ch_buf (wj_respExportChan w) @ hand (wj_listener w) @ droppeds es @
       ch_buf (wj_respGatherChan w) \<and>
     (droppeds es \<noteq> [] \<longrightarrow> wj_listener w = Exited) \<and> length (droppeds es) \<le> 1"

lemma same_channels_ok:
  assumes "same_channels w w'"
  shows "channels_ok w' = channels_ok w" "fifo es w' = fifo es w"
  using assms by (auto simp: same_channels_def channels_ok_def fifo_def)

lemma close_cancel_cases:
  assumes "close_cancel w = Returns w'"
  shows "wj_close w = NotClosed" "w' = w\<lparr>wj_cancelled := True, wj_close := Closing\<rparr>"
  using assms by (auto simp: close_cancel_def split: if_splits)

lemma close_begin_cases:
  assumes "close_begin L cenv ord w = Returns w'"
  obtains errs w1 where "wj_close w = Closing"
    "remove_each L cenv (\<lambda>i e. e) None (WatcherIDs ord w) w = Returns (errs, w1)"
    "\<not> ch_closed (wj_respGatherChan w1)" "same_channels w w1"
    "w' = w1\<lparr>wj_taskManager := tl_Stop L (wj_taskManager w1),
             wj_respGatherChan := (wj_respGatherChan w1)\<lparr>ch_closed := True\<rparr>, wj_close := Waiting errs\<rparr>"
  using assms call_same_channels(5)
  by (fastforce simp: close_begin_def close_chan_def run_iff Let_def split: if_splits)

lemma close_finish_cases:
  assumes "close_finish w = Returns w'"
  obtains errs where "wj_close w = Waiting errs" "wj_listener w = Exited"
    "\<not> ch_closed (wj_respExportChan w)"
    "w' = w\<lparr>wj_respExportChan := (wj_respExportChan w)\<lparr>ch_closed := True\<rparr>, wj_close := Closed errs\<rparr>"
  using assms by (auto simp: close_finish_def close_chan_def run_iff split: close_state.splits if_splits)

text \<open>The steps, the calls that leave the channels alone as one case.\<close>

lemma wadjit_step_split:
  assumes "wadjit_step L w es w'"
  obtains (call) "es = []" "same_channels w w'"
  | (send) r where "es = [Sent r]" "task_send r w = Returns w'"
  | (meet_gather) r where "es = Sent r # dropped_by w [r]" "meet_gather r w = Returns w'"
  | (receive) "es = dropped_by w (ch_buf (wj_respGatherChan w))" "listen_receive w = Returns w'"
  | (ctx_done) "es = []" "listen_done w = Returns w'"
  | (forward) "es = []" "listen_forward w = Returns w'"
  | (meet_export) r where "es = [Delivered r]" "meet_export w = Returns (r, w')"
  | (consume) r where "es = [Delivered r]" "consumer_receive w = Returns (Some r, w')"
  | (close_cancel) "es = []" "close_cancel w = Returns w'"
  | (close_begin) cenv ord where "es = []" "close_begin L cenv ord w = Returns w'"
  | (close_finish) "es = []" "close_finish w = Returns w'"
  using assms
proof (cases rule: wadjit_step.cases)
  case (step_add env x err x')
  show thesis by (rule call [OF step_add(1) call_same_channels(1) [OF step_add(2)]])
next
  case (step_pause i err)
  show thesis by (rule call [OF step_pause(1) call_same_channels(2) [OF step_pause(2)]])
next
  case (step_resume i err)
  show thesis by (rule call [OF step_resume(1) call_same_channels(3) [OF step_resume(2)]])
next
  case (step_remove cenv i err)
  show thesis by (rule call [OF step_remove(1) call_same_channels(4) [OF step_remove(2)]])
next
  case (step_clear cenv ord err)
  show thesis by (rule call [OF step_clear(1) call_same_channels(6) [OF step_clear(2)]])
qed (erule that, assumption)+

lemma step_channels_ok:
  assumes "wadjit_step L w es w'" "channels_ok w"
  shows "channels_ok w'"
  using assms(1)
proof (cases rule: wadjit_step_split)
  case call
  then show ?thesis using assms(2) same_channels_ok(1) [OF call(2)] by simp
next
  case close_cancel
  then show ?thesis using assms(2) close_cancel_cases [of w w'] by (auto simp: channels_ok_def)
next
  case (close_begin cenv ord)
  from close_begin_cases [OF close_begin(2)] obtain errs w1 where
    c: "wj_close w = Closing" "same_channels w w1"
    "w' = w1\<lparr>wj_taskManager := tl_Stop L (wj_taskManager w1),
             wj_respGatherChan := (wj_respGatherChan w1)\<lparr>ch_closed := True\<rparr>, wj_close := Waiting errs\<rparr>"
    by metis
  have "channels_ok w1" using same_channels_ok(1) [OF c(2)] assms(2) by simp
  then show ?thesis using c by (auto simp: channels_ok_def same_channels_def)
next
  case close_finish
  then show ?thesis using assms(2) by (auto simp: channels_ok_def elim!: close_finish_cases)
next
  case receive
  then show ?thesis using assms(2)
    by (auto simp: listen_receive_def listen_got_def channels_ok_def Let_def split: if_splits list.splits)
next
  case forward
  then show ?thesis using assms(2)
    by (auto simp: listen_forward_def channels_ok_def Let_def split: if_splits listener.splits)
next
  case (consume r)
  then show ?thesis using assms(2)
    by (auto simp: consumer_receive_def Responses_def channels_ok_def Let_def split: if_splits list.splits)
next
  case (meet_export r)
  then show ?thesis using assms(2)
    by (auto simp: meet_export_def channels_ok_def Let_def split: if_splits listener.splits)
qed (use assms(2) in \<open>auto simp: task_send_def meet_gather_def listen_got_def listen_done_def channels_ok_def
      Let_def split: if_splits\<close>)

lemma step_fifo:
  assumes "wadjit_step L w es w'" "channels_ok w" "fifo fs w"
  shows "fifo (fs @ es) w'"
  using assms(1)
proof (cases rule: wadjit_step_split)
  case call
  then show ?thesis using assms(3) same_channels_ok(2) [OF call(2)] by simp
next
  case close_cancel
  then show ?thesis using assms(3) close_cancel_cases [of w w'] by (auto simp: fifo_def)
next
  case (close_begin cenv ord)
  from close_begin_cases [OF close_begin(2)] obtain errs w1 where
    c: "same_channels w w1"
    "w' = w1\<lparr>wj_taskManager := tl_Stop L (wj_taskManager w1),
             wj_respGatherChan := (wj_respGatherChan w1)\<lparr>ch_closed := True\<rparr>, wj_close := Waiting errs\<rparr>"
    by metis
  have "fifo fs w1" using same_channels_ok(2) [OF c(1)] assms(3) by simp
  then show ?thesis using c close_begin by (auto simp: fifo_def)
next
  case close_finish
  then show ?thesis using assms(3) by (auto simp: fifo_def elim!: close_finish_cases)
next
  case receive
  then show ?thesis using assms(3)
    by (auto simp: listen_receive_def listen_got_def fifo_def Let_def dropped_by_def split: if_splits list.splits)
next
  case forward
  then show ?thesis using assms(3)
    by (auto simp: listen_forward_def fifo_def Let_def split: if_splits listener.splits)
next
  case (consume r)
  then show ?thesis using assms(3)
    by (auto simp: consumer_receive_def Responses_def fifo_def Let_def split: if_splits list.splits)
next
  case (meet_export r)
  then show ?thesis using assms(3)
    by (auto simp: meet_export_def fifo_def Let_def split: if_splits listener.splits)
next
  case (meet_gather r)
  then show ?thesis using assms(3)
    by (auto simp: meet_gather_def listen_got_def fifo_def dropped_by_def split: if_splits)
qed (use assms(3) in \<open>auto simp: task_send_def listen_done_def fifo_def Let_def split: if_splits\<close>)

lemma New_cases:
  assumes "New L G opts = Returns w0"
  shows "wj_watchers w0 = []" "channels_ok w0" "fifo [] w0" "wj_listener w0 = Listening" "wj_close w0 = NotClosed"
  using assms by (auto simp: New_def make_chan_def run_iff Let_def channels_ok_def fifo_def split: if_splits)

interpretation channels: run_invariant "wadjit_step L" "\<lambda>es w. channels_ok w \<and> fifo es w" for L
  by unfold_locales (blast intro: step_channels_ok step_fifo)

lemma run_ok:
  assumes "wadjit_run L w0 es w" "New L G opts = Returns w0"
  shows "channels_ok w \<and> fifo es w"
  using channels.always [OF assms(1)] New_cases [OF assms(2)] by blast

section \<open>Properties of the forwarding\<close>

text \<open>An instance of the task manager and the logger for the examples: the IDs of the scheduled jobs.\<close>

definition example_taskman :: "(string list, nat, int, nat) taskman_lib" where
  "example_taskman =
     \<lparr>tl_New = (\<lambda>opts. []), tl_WithLogger = (\<lambda>l. nat l), tl_WithMode = (\<lambda>m. m),
      tl_ScheduleJob = (\<lambda>j tm. if jb_ID j \<in> set tm then (new_error ''job exists'', tm) else (None, jb_ID j # tm)),
      tl_PauseJob = (\<lambda>i tm. if i \<in> set tm then (None, tm) else (new_error ''no such job'', tm)),
      tl_ResumeJob = (\<lambda>i tm. if i \<in> set tm then (None, tm) else (new_error ''no such job'', tm)),
      tl_RemoveJob = (\<lambda>i tm. if i \<in> set tm then (None, filter (\<lambda>k. k \<noteq> i) tm) else (new_error ''no such job'', tm)),
      tl_Stop = (\<lambda>tm. [])\<rparr>"

definition example_logger :: "int logger_lib" where
  "example_logger = \<lparr>lg_GetLevel = (\<lambda>l. l), lg_Level = (\<lambda>l n. n), lg_DebugLevel = 0, lg_Nop = 7\<rparr>"

definition example_wadjit :: "nat \<Rightarrow> (nat, string list) Wadjit" where
  "example_wadjit n =
     \<lparr>wj_watchers = [], wj_taskManager = [], wj_respGatherChan = \<lparr>ch_cap = n, ch_buf = [], ch_closed = False\<rparr>,
      wj_respExportChan = \<lparr>ch_cap = n, ch_buf = [], ch_closed = False\<rparr>, wj_defaultDNSPolicy = zero_policy,
      wj_hasDefaultDNSPolicy = False, wj_cancelled = False, wj_listener = Listening, wj_close = NotClosed\<rparr>"

lemma example_New:
  "New example_taskman example_logger [Some (WithBufferSize (int n))] = Returns (example_wadjit n)"
  by (simp add: New_def applyOptions_def make_chan_def example_taskman_def example_wadjit_def
      WithBufferSize_def Let_def)

definition example_resp :: WatcherResponse where
  "example_resp = errorResponse (Sentinel IoEOF) ''task'' ''watcher'' None"

text \<open>
  C2. Responses reach the consumer in the order in which the tasks sent them, none twice. In every
  run of a Wadjit made by \<^verbatim>\<open>New\<close>, the responses sent are those received by the consumer followed by
  those in the export channel, the one in the hand of the forwarding goroutine, and those in the
  gather channel; only after the cancellation, as its last act, that goroutine may drop one
  response. The buffers keep their capacity and no send on or close of the export channel panics.
\<close>

theorem responses_fifo:
  assumes "New L G opts = Returns w0" and "wadjit_run L w0 es w"
  shows "sents es = delivereds es @ ch_buf (Responses w) @ hand (wj_listener w) @ droppeds es @
      ch_buf (wj_respGatherChan w) \<and>
    (\<not> wj_cancelled w \<longrightarrow> droppeds es = []) \<and>
    (droppeds es \<noteq> [] \<longrightarrow> wj_listener w = Exited \<and> length (droppeds es) = 1) \<and>
    length (ch_buf (Responses w)) \<le> ch_cap (Responses w) \<and>
    length (ch_buf (wj_respGatherChan w)) \<le> ch_cap (wj_respGatherChan w) \<and>
    listen_forward w \<noteq> Panics \<and> meet_export w \<noteq> Panics \<and> close_finish w \<noteq> Panics"
proof -
  have ok: "channels_ok w" "fifo es w" using run_ok [OF assms(2,1)] by auto
  have len: "droppeds es \<noteq> [] \<Longrightarrow> length (droppeds es) = 1"
    using ok(2) by (cases "droppeds es") (auto simp: fifo_def)
  have exp: "\<not> ch_closed (wj_respExportChan w)" if "wj_listener w \<noteq> Exited \<or> is_Waiting (wj_close w)"
    using that ok(1) by (cases "wj_close w") (auto simp: channels_ok_def)
  have "listen_forward w \<noteq> Panics" "meet_export w \<noteq> Panics"
    using exp by (auto simp: listen_forward_def meet_export_def Let_def split: listener.splits)
  moreover have "close_finish w \<noteq> Panics"
    using exp by (auto simp: close_finish_def close_chan_def split: close_state.splits)
  ultimately show ?thesis
    using ok len by (auto simp: channels_ok_def fifo_def Responses_def)
qed

theorem responses_fifo_witness:
  "\<exists>es w. wadjit_run example_taskman (example_wadjit 1) es w \<and> sents es = [example_resp] \<and>
     delivereds es = [] \<and> ch_buf (Responses w) = [example_resp]"
proof -
  let ?w1 = "(example_wadjit 1)\<lparr>wj_respGatherChan := \<lparr>ch_cap = 1, ch_buf = [example_resp], ch_closed = False\<rparr>\<rparr>"
  let ?w2 = "(example_wadjit 1)\<lparr>wj_listener := Handing example_resp\<rparr>"
  let ?w3 = "(example_wadjit 1)\<lparr>wj_respExportChan := \<lparr>ch_cap = 1, ch_buf = [example_resp], ch_closed = False\<rparr>\<rparr>"
  have s: "task_send example_resp (example_wadjit 1) = Returns ?w1" "listen_receive ?w1 = Returns ?w2"
    "listen_forward ?w2 = Returns ?w3"
    by (simp_all add: task_send_def listen_receive_def listen_got_def listen_forward_def example_wadjit_def Let_def)
  have "wadjit_run example_taskman (example_wadjit 1) ((([] @ [Sent example_resp]) @ dropped_by ?w1 (ch_buf (wj_respGatherChan ?w1))) @ []) ?w3"
    by (rule run_step [OF run_step [OF run_step [OF run_refl
        step_send [OF s(1)]] step_receive [OF s(2)]] step_forward [OF s(3)]])
  then have r: "wadjit_run example_taskman (example_wadjit 1) [Sent example_resp] ?w3"
    by (simp add: dropped_by_def example_wadjit_def)
  have "sents [Sent example_resp] = delivereds [Sent example_resp] @ ch_buf (Responses ?w3) @ []"
    using responses_fifo [OF example_New [of 1] r] by (simp add: example_wadjit_def)
  with r show ?thesis by (intro exI [of _ "[Sent example_resp]"] exI [of _ ?w3]) simp
qed

text \<open>How far the forwarding goroutine is from its end, once \<^verbatim>\<open>Close\<close> waits for it.\<close>

fun listener_rank :: "listener \<Rightarrow> nat" where
  "listener_rank Exited = 0"
| "listener_rank Listening = 1"
| "listener_rank (Handing r) = 2"

definition listener_moves :: "('id, 'tm) Wadjit \<Rightarrow> ('id, 'tm) Wadjit \<Rightarrow> bool" where
  "listener_moves w w' \<longleftrightarrow>
     listen_receive w = Returns w' \<or> listen_done w = Returns w' \<or> listen_forward w = Returns w'"

text \<open>
  C11. \<^verbatim>\<open>Close\<close> finishes. When it waits for the forwarding goroutine, in any run of a Wadjit made
  by \<^verbatim>\<open>New\<close>, every move of that goroutine brings it nearer to its end and it can move until it ends,
  unless it holds a response for which the export channel has no room. Once it has ended, \<^verbatim>\<open>Close\<close>
  closes the export channel, with what is buffered in it still to be received, and returns the
  errors of the removals.
\<close>

theorem close_completes:
  assumes "New L G opts = Returns w0" and "wadjit_run L w0 es w" and "wj_close w = Waiting errs"
  shows "(\<forall>w'. listener_moves w w' \<longrightarrow>
            listener_rank (wj_listener w') < listener_rank (wj_listener w) \<and> wj_close w' = Waiting errs) \<and>
    (wj_listener w \<noteq> Exited \<and>
       (hand (wj_listener w) = [] \<or> length (ch_buf (Responses w)) < ch_cap (Responses w)) \<longrightarrow>
     (\<exists>w'. listener_moves w w')) \<and>
    (wj_listener w = Exited \<longrightarrow>
     (\<exists>w'. close_finish w = Returns w' \<and> close_again w' = Returns errs \<and> ch_closed (Responses w') \<and>
        ch_buf (Responses w') = ch_buf (Responses w)))"
proof (intro conjI impI allI)
  have ok: "wj_cancelled w" "ch_closed (wj_respGatherChan w)" "\<not> ch_closed (wj_respExportChan w)"
    using run_ok [OF assms(2,1)] assms(3) by (auto simp: channels_ok_def)
  show "listener_rank (wj_listener w') < listener_rank (wj_listener w)" "wj_close w' = Waiting errs"
    if "listener_moves w w'" for w'
    using that ok(1) assms(3)
    by (auto simp: listener_moves_def listen_receive_def listen_got_def listen_done_def listen_forward_def Let_def
        split: if_splits list.splits listener.splits)
  show "\<exists>w'. listener_moves w w'"
    if "wj_listener w \<noteq> Exited \<and>
       (hand (wj_listener w) = [] \<or> length (ch_buf (Responses w)) < ch_cap (Responses w))"
    using that ok
    by (cases "wj_listener w")
      (auto simp: listener_moves_def listen_done_def listen_forward_def Responses_def Let_def)
  show "\<exists>w'. close_finish w = Returns w' \<and> close_again w' = Returns errs \<and> ch_closed (Responses w') \<and>
      ch_buf (Responses w') = ch_buf (Responses w)" if "wj_listener w = Exited"
    using that ok(3) assms(3) by (simp add: close_finish_def close_chan_def close_again_def Responses_def)
qed

text \<open>A run for the examples: \<^verbatim>\<open>Close\<close> waits while the goroutine holds a response.\<close>

definition example_closing :: "nat \<Rightarrow> (nat, string list) Wadjit" where
  "example_closing n =
     (example_wadjit n)\<lparr>wj_respGatherChan := \<lparr>ch_cap = n, ch_buf = [], ch_closed = True\<rparr>,
       wj_cancelled := True, wj_listener := Handing example_resp, wj_close := Waiting None\<rparr>"

lemma example_closing_run:
  "wadjit_run example_taskman (example_wadjit n) [Sent example_resp] (example_closing n)"
proof -
  let ?w1 = "(example_wadjit n)\<lparr>wj_listener := Handing example_resp\<rparr>"
  let ?w2 = "?w1\<lparr>wj_cancelled := True, wj_close := Closing\<rparr>"
  have s: "meet_gather example_resp (example_wadjit n) = Returns ?w1" "close_cancel ?w1 = Returns ?w2"
    "close_begin example_taskman cenv (\<lambda>ids. ids) ?w2 = Returns (example_closing n)" for cenv
    by (simp_all add: meet_gather_def listen_got_def close_cancel_def close_begin_def WatcherIDs_def sm_keys_def
        close_chan_def example_wadjit_def example_closing_def example_taskman_def Let_def)
  have "wadjit_run example_taskman (example_wadjit n)
      ((([] @ Sent example_resp # dropped_by (example_wadjit n) [example_resp]) @ []) @ []) (example_closing n)"
    by (rule run_step [OF run_step [OF run_step [OF run_refl
        step_meet_gather [OF s(1)]] step_close_cancel [OF s(2)]] step_close_begin [OF s(3)]])
  then show ?thesis by (simp add: dropped_by_def example_wadjit_def)
qed

theorem close_completes_witness:
  "\<exists>w'. listener_moves (example_closing 1) w' \<and> wj_listener w' = Listening"
proof -
  have w: "wj_close (example_closing 1) = Waiting None" by (simp add: example_closing_def)
  obtain w' where m: "listener_moves (example_closing 1) w'"
    using close_completes [OF example_New [of 1] example_closing_run [of 1] w]
    by (auto simp: example_closing_def Responses_def example_wadjit_def)
  then have "wj_listener w' = Listening"
    by (auto simp: listener_moves_def listen_receive_def listen_done_def listen_forward_def example_closing_def
        example_wadjit_def Let_def)
  with m show ?thesis by blast
qed

text \<open>The state in which only the consumer can let \<^verbatim>\<open>Close\<close> go on.\<close>

definition stuck :: "go_err \<Rightarrow> WatcherResponse \<Rightarrow> ('id, 'tm) Wadjit \<Rightarrow> bool" where
  "stuck errs r w \<longleftrightarrow> wj_close w = Waiting errs \<and> wj_listener w = Handing r \<and>
     ch_cap (Responses w) \<le> length (ch_buf (Responses w)) \<and> ch_closed (wj_respGatherChan w)"

lemma stuck_step:
  assumes "wadjit_step L w es w'" "delivereds es = []" "stuck errs r w"
  shows "stuck errs r w'"
  using assms(1)
proof (cases rule: wadjit_step_split)
  case call
  then show ?thesis using assms(3) by (simp add: stuck_def same_channels_def Responses_def)
next
  case close_cancel
  then show ?thesis using assms(3) close_cancel_cases [of w w'] by (simp add: stuck_def)
next
  case (close_begin cenv ord)
  then show ?thesis using assms(3) by (simp add: stuck_def close_begin_def)
next
  case close_finish
  then show ?thesis using assms(3) by (simp add: stuck_def close_finish_def)
next
  case forward
  then show ?thesis using assms(3) by (auto simp: stuck_def listen_forward_def Responses_def Let_def split: if_splits)
qed (use assms(2,3) in \<open>auto simp: stuck_def task_send_def meet_gather_def listen_receive_def listen_done_def Let_def
      split: if_splits\<close>)

interpretation waiting: run_invariant "wadjit_step L" "\<lambda>es w. delivereds es = [] \<longrightarrow> stuck errs r w" for L errs r
  by unfold_locales (auto dest: stuck_step)

text \<open>
  \<^verbatim>\<open>Close\<close> needs a consumer: while it waits, with the forwarding goroutine holding a response and
  the export channel full, nothing but a receive from \<^verbatim>\<open>Responses()\<close> lets it go on. Whatever else
  happens, it stays waiting.
\<close>

theorem close_waits_for_consumer:
  assumes "wadjit_run L w es w'" and "delivereds es = []" and "wj_close w = Waiting errs"
    and "wj_listener w = Handing r" and "ch_cap (Responses w) \<le> length (ch_buf (Responses w))"
    and "ch_closed (wj_respGatherChan w)"
  shows "wj_close w' = Waiting errs \<and> close_finish w' = Blocks \<and> close_again w' = Blocks \<and>
    wj_listener w' = Handing r"
proof -
  have "stuck errs r w'"
    using waiting.always [OF assms(1), of errs r] assms(2-) by (simp add: stuck_def)
  then show ?thesis by (simp add: stuck_def close_finish_def close_again_def)
qed

theorem close_waits_for_consumer_witness:
  "wj_close (example_closing 0) = Waiting None \<and> close_finish (example_closing 0) = Blocks"
  using close_waits_for_consumer [of example_taskman "example_closing 0" "[]" "example_closing 0" None example_resp]
  by (simp add: run_refl example_closing_def Responses_def example_wadjit_def)

text \<open>Closed with \<open>errs\<close>, and what was left in the export channel is what has been received since and what is in it.\<close>

definition shut :: "go_err \<Rightarrow> WatcherResponse list \<Rightarrow> event list \<Rightarrow> ('id, 'tm) Wadjit \<Rightarrow> bool" where
  "shut errs left es w \<longleftrightarrow> channels_ok w \<and> wj_close w = Closed errs \<and> left = delivereds es @ ch_buf (Responses w)"

lemma step_shut:
  assumes "wadjit_step L w fs w'" "shut errs left es w"
  shows "shut errs left (es @ fs) w'"
proof -
  have ih: "channels_ok w" "wj_close w = Closed errs" "left = delivereds es @ ch_buf (Responses w)"
    using assms(2) by (auto simp: shut_def)
  have "wj_close w' = Closed errs \<and> ch_buf (Responses w) = delivereds fs @ ch_buf (Responses w')"
    using assms(1)
  proof (cases rule: wadjit_step_split)
    case (close_begin cenv ord)
    then show ?thesis using ih by (simp add: close_begin_def)
  next
    case (consume r)
    then show ?thesis using ih
      by (auto simp: consumer_receive_def Responses_def Let_def split: list.splits if_splits)
  qed (use ih in \<open>auto simp: same_channels_def Responses_def task_send_def meet_gather_def listen_receive_def
    listen_done_def listen_forward_def meet_export_def close_cancel_def close_finish_def channels_ok_def
    Let_def split: if_splits listener.splits\<close>)
  with ih step_channels_ok [OF assms(1) ih(1)] show ?thesis by (simp add: shut_def)
qed

interpretation closed: run_invariant "wadjit_step L" "shut errs left" for L errs left
  by unfold_locales (rule step_shut)

text \<open>
  C25. A closed Wadjit stays closed: in any run, \<^verbatim>\<open>Close\<close> ran once, each further call returns the errors
  of the first, the export channel gives what was left in it and then reports that it is closed, and
  a task that still sends panics on the closed gather channel.
\<close>

theorem closed_is_final:
  assumes "New L G opts = Returns w0" and "wadjit_run L w0 es w" and "wj_close w = Closed errs"
    and "wadjit_run L w fs w'"
  shows "wj_close w' = Closed errs \<and> close_again w' = Returns errs \<and> close_cancel w' = Blocks \<and>
    task_send r w' = Panics \<and> meet_gather r w' = Panics \<and>
    ch_buf (Responses w) = delivereds fs @ ch_buf (Responses w') \<and>
    (ch_buf (Responses w') = [] \<longrightarrow> consumer_receive w' = Returns (None, w'))"
proof -
  have "shut errs (ch_buf (Responses w)) [] w"
    using assms(3) conjunct1 [OF run_ok [OF assms(2,1)]] by (simp add: shut_def)
  from closed.always [OF assms(4) this]
  have "channels_ok w' \<and> wj_close w' = Closed errs \<and> ch_buf (Responses w) = delivereds fs @ ch_buf (Responses w')"
    by (simp add: shut_def)
  then show ?thesis
    by (auto simp: close_again_def close_cancel_def task_send_def meet_gather_def consumer_receive_def channels_ok_def
        Responses_def Let_def)
qed

definition example_closed :: "(nat, string list) Wadjit" where
  "example_closed =
     (example_closing 1)\<lparr>wj_respExportChan := \<lparr>ch_cap = 1, ch_buf = [example_resp], ch_closed = True\<rparr>,
       wj_listener := Exited, wj_close := Closed None\<rparr>"

lemma example_closed_run:
  "wadjit_run example_taskman (example_wadjit 1) [Sent example_resp] example_closed"
proof -
  let ?w1 = "(example_closing 1)\<lparr>wj_respExportChan := \<lparr>ch_cap = 1, ch_buf = [example_resp], ch_closed = False\<rparr>,
    wj_listener := Listening\<rparr>"
  let ?w2 = "?w1\<lparr>wj_listener := Exited\<rparr>"
  have s: "listen_forward (example_closing 1) = Returns ?w1" "listen_done ?w1 = Returns ?w2"
    "close_finish ?w2 = Returns example_closed"
    by (simp_all add: listen_forward_def listen_done_def close_finish_def close_chan_def example_closing_def
        example_closed_def example_wadjit_def Let_def)
  have "wadjit_run example_taskman (example_wadjit 1) ((([Sent example_resp] @ []) @ []) @ []) example_closed"
    by (rule run_step [OF run_step [OF run_step [OF example_closing_run
        step_forward [OF s(1)]] step_done [OF s(2)]] step_close_finish [OF s(3)]])
  then show ?thesis by simp
qed

theorem closed_is_final_witness:
  "close_again example_closed = Returns None \<and> task_send example_resp example_closed = Panics \<and>
   ch_buf (Responses example_closed) = [example_resp]"
  using closed_is_final [OF example_New [of 1] example_closed_run _ run_refl, of None example_resp]
  by (simp add: example_closed_def Responses_def)

section \<open>Properties of the registry\<close>

text \<open>What a step does to the registry: nothing, an addition, or removals.\<close>

lemma step_registry:
  assumes "wadjit_step L w es w'"
  obtains (same) "wj_watchers w' = wj_watchers w"
  | (added) env x err x' where "AddWatcher L env x w = Returns (err, x', w')"
  | (deleted) ids where "wj_watchers w' = fold AList.delete ids (wj_watchers w)"
  using assms
proof (cases rule: wadjit_step.cases)
  case (step_add env x err x')
  show thesis by (rule added [OF step_add(2)])
next
  case (step_remove cenv i err)
  show thesis using RemoveWatcher_frame [OF step_remove(2)] by (auto intro: deleted [of "[i]"])
next
  case (step_clear cenv ord err)
  show thesis using remove_each_frame [OF step_clear(2) [unfolded Clear_def]] by (auto intro: deleted)
next
  case (step_close_begin cenv ord)
  from close_begin_cases [OF step_close_begin(2)] obtain errs w1 where
    c: "remove_each L cenv (\<lambda>i e. e) None (WatcherIDs ord w) w = Returns (errs, w1)"
    "w' = w1\<lparr>wj_taskManager := tl_Stop L (wj_taskManager w1),
             wj_respGatherChan := (wj_respGatherChan w1)\<lparr>ch_closed := True\<rparr>, wj_close := Waiting errs\<rparr>"
    by metis
  show thesis using remove_each_frame [OF c(1)] by (auto simp: c(2) intro: deleted)
next
  case step_close_finish
  then show thesis by (intro same) (auto elim!: close_finish_cases)
next
  case step_close_cancel
  then show thesis using close_cancel_cases [of w w'] by (intro same) auto
qed (auto simp: listen_receive_def listen_got_def listen_forward_def consumer_receive_def meet_export_def
    task_send_def meet_gather_def listen_done_def PauseWatcher_def ResumeWatcher_def Let_def intro!: same
    split: if_splits list.splits listener.splits prod.splits)

lemma step_registry_ok:
  assumes "wadjit_step L w es w'" "registry_ok w"
  shows "registry_ok w'"
  using assms(1)
proof (cases rule: step_registry)
  case same
  then show ?thesis using assms(2) by (simp add: registry_ok_def)
next
  case (added env x err x')
  show ?thesis by (rule AddWatcher_registry_ok [OF added assms(2)])
next
  case (deleted ids)
  then show ?thesis using registry_ok_delete_each [OF assms(2), of ids] by (simp add: registry_ok_def)
qed

interpretation registered: run_invariant "wadjit_step L" "\<lambda>es w. registry_ok w" for L
  by unfold_locales (rule step_registry_ok)

text \<open>A watcher of one task of the user's, added.\<close>

definition example_task :: "go_err \<Rightarrow> go_err \<Rightarrow> nat WatcherTask" where
  "example_task ierr cerr = CustomTask \<lparr>ct_Validate = None, ct_Initialize = ierr, ct_Close = cerr\<rparr>"

definition example_watcher :: "go_err \<Rightarrow> go_err \<Rightarrow> nat Watcher" where
  "example_watcher ierr cerr =
     \<lparr>w_ID = ''w'', w_Cadence = 5, w_Tasks = [example_task ierr cerr], w_doneChan = Some False\<rparr>"

definition example_added :: "go_err \<Rightarrow> (nat, string list) Wadjit" where
  "example_added cerr =
     (example_wadjit 1)\<lparr>wj_watchers := [(''w'', example_watcher None cerr)], wj_taskManager := [''w'']\<rparr>"

lemma example_Validate:
  "watcher_Validate env (Some (example_watcher ierr cerr)) = (None, Some (example_watcher ierr cerr))"
  by (simp add: watcher_Validate_def example_watcher_def task_Validate_def example_task_def Let_def join_into_def)

lemma example_default:
  "applyDefaultDNSPolicy (example_wadjit n) x = x" "applyDefaultDNSPolicy (example_added cerr) x = x"
  by (simp_all add: applyDefaultDNSPolicy_def example_wadjit_def example_added_def)

lemma example_start:
  "watcher_start env True (example_watcher ierr cerr) =
     Returns (join_into None ierr, example_watcher ierr cerr)"
  by (simp add: watcher_start_def example_watcher_def task_Initialize_def example_task_def Let_def)

lemma example_close:
  "watcher_close env (example_watcher ierr cerr) =
     Returns (join_into None cerr, example_watcher ierr cerr\<lparr>w_doneChan := Some True\<rparr>)"
  by (simp add: watcher_close_def example_watcher_def task_Close_def example_task_def)

lemma example_AddWatcher:
  "AddWatcher example_taskman env (Some (example_watcher None cerr)) (example_wadjit 1) =
     Returns (None, Some (example_watcher None cerr), example_added cerr)"
proof -
  let ?x = "example_watcher None cerr"
  have s: "watcher_start e True ?x = Returns (None, ?x)" for e
    by (simp add: example_start join_into_def)
  have w: "wj_watchers (example_wadjit n) = []" "wj_taskManager (example_wadjit n) = []" "w_ID ?x = ''w''" for n
    by (simp_all add: example_wadjit_def example_watcher_def)
  have t: "tl_ScheduleJob example_taskman (watcher_job now ?x) [] = (None, [''w''])" for now
    by (simp add: example_taskman_def watcher_job_def w)
  show ?thesis
    by (simp add: AddWatcher_def example_default example_Validate sm_LoadOrStore_def sm_Store_def w s t Let_def)
      (simp add: example_wadjit_def example_added_def)
qed

end
