(* ===== verification/Wadjit_Properties.thy ===== *)
theory Wadjit_Properties
  imports Wadjit_Runs
begin

text \<open>
  The properties of the single calls of \<^verbatim>\<open>wadjit.go\<close>: what adding, removing and clearing do to the
  registry and the task manager, what their failures leave behind, and what \<^verbatim>\<open>New\<close> makes.
\<close>

section \<open>What adding and removing do\<close>

definition effective_policy :: "('id, 'tm) Wadjit \<Rightarrow> HTTPEndpoint \<Rightarrow> DNSPolicy" where
  "effective_policy w e =
     (if wj_hasDefaultDNSPolicy w \<and> \<not> ep_dnsPolicySet e then wj_defaultDNSPolicy w else ep_dnsPolicy e)"

lemma applyDefaultDNSPolicy_keeps:
  assumes "applyDefaultDNSPolicy w (Some x) = Some y"
  shows "w_ID y = w_ID x \<and> w_Cadence y = w_Cadence x \<and> length (w_Tasks y) = length (w_Tasks x)"
  using assms by (auto simp: applyDefaultDNSPolicy_def split: if_splits)

lemma applyDefaultDNSPolicy_task:
  assumes "applyDefaultDNSPolicy w (Some x) = Some y" "j < length (w_Tasks x)" "w_Tasks x ! j = HTTPTask e"
  shows "\<exists>e1. w_Tasks y ! j = HTTPTask e1 \<and> ep_dnsPolicy e1 = effective_policy w e \<and>
    ep_dnsDecisionHook e1 = ep_dnsDecisionHook e"
  using assms by (auto simp: applyDefaultDNSPolicy_def default_policy_task_def effective_policy_def split: if_splits)

lemma validate_tasks_nth:
  "j < length ts \<Longrightarrow> snd (validate_tasks env i errs ts) ! j = snd (task_Validate (env (i + j)) (ts ! j))"
proof (induction ts arbitrary: i j errs)
  case (Cons t ts)
  then show ?case by (cases j) (simp_all add: Let_def case_prod_beta)
qed simp

lemma validated_task:
  assumes "watcher_Validate env (Some x) = (err, Some y)" "j < length (w_Tasks x)" "w_Tasks x ! j = HTTPTask e"
  shows "\<exists>e1. w_Tasks y ! j = HTTPTask e1 \<and> ep_dnsPolicy e1 = ep_dnsPolicy e \<and>
    ep_dnsDecisionHook e1 = ep_dnsDecisionHook e"
proof -
  have "w_Tasks y ! j = snd (task_Validate (env j) (HTTPTask e))"
    using assms validate_tasks_nth [of j "w_Tasks x" env 0]
    by (auto simp: watcher_Validate_def Let_def case_prod_beta)
  then show ?thesis by (auto simp: task_Validate_def http_Validate_def Let_def)
qed

lemma started_task:
  assumes "watcher_start env True x = Returns (None, y)" "w_doneChan x = Some False" "j < length (w_Tasks x)"
    "w_Tasks x ! j = HTTPTask e"
  shows "\<exists>e1 c. w_Tasks y ! j = HTTPTask e1 \<and> ep_client e1 = Some c \<and> ep_watcherID e1 = w_ID x \<and>
    hc_transport c = new_transport (ep_dnsPolicy e) (ep_dnsDecisionHook e)"
proof -
  obtain ts where s: "each_task (\<lambda>te. task_Initialize te (w_ID x)) env 0 None (w_Tasks x) = Returns (None, ts)"
    and y: "w_Tasks y = ts"
    using assms(1,2) by (auto simp: watcher_start_def Let_def run_iff)
  obtain es where es: "length es = length (w_Tasks x)" "None = foldl join_into None es"
    "\<forall>j < length (w_Tasks x). task_Initialize (env j) (w_ID x) (w_Tasks x ! j) = Returns (es ! j, ts ! j)"
    using each_task_Returns [OF s] by auto
  have "es ! j = None"
    using fold_join_into_None [of None es] es(1,2) assms(3) nth_mem [of j es] by metis
  then have "task_Initialize (env j) (w_ID x) (HTTPTask e) = Returns (None, ts ! j)"
    using es(3) assms(3,4) by metis
  then show ?thesis
    unfolding y
    by (auto simp: task_Initialize_def http_Initialize_def run_iff Let_def dest!: sym [where t = "ts ! j"]
        split: option.splits if_splits)
qed

text \<open>
  C19. A successful \<^verbatim>\<open>AddWatcher\<close>: the watcher was not registered before and is now, under its ID and
  with its cadence, next to the watchers there were; its job has been given to the task manager; and
  each of its HTTP endpoints has a fresh transport whose DNS manager follows the endpoint's own
  policy if one was set explicitly, and the default policy of the Wadjit, if it has one, otherwise.
\<close>

theorem add_watcher_registers:
  assumes "AddWatcher L env (Some x) w = Returns (None, x', w')"
  shows "\<exists>y. x' = Some y \<and> w_ID y = w_ID x \<and> w_Cadence y = w_Cadence x \<and>
    map_of (wj_watchers w) (w_ID x) = None \<and>
    map_of (wj_watchers w') = (map_of (wj_watchers w))(w_ID x \<mapsto> y) \<and>
    tl_ScheduleJob L (watcher_job (ae_now env) y) (wj_taskManager w) = (None, wj_taskManager w') \<and>
    (\<forall>j e. j < length (w_Tasks x) \<longrightarrow> w_Tasks x ! j = HTTPTask e \<longrightarrow>
       (\<exists>e1 c. w_Tasks y ! j = HTTPTask e1 \<and> ep_client e1 = Some c \<and> ep_watcherID e1 = w_ID x \<and>
          hc_transport c = new_transport (effective_policy w e) (ep_dnsDecisionHook e)))"
  using assms
proof (cases rule: AddWatcher_cases)
  case (added z y tm)
  obtain d where d: "applyDefaultDNSPolicy w (Some x) = Some d"
    by (cases "wj_hasDefaultDNSPolicy w") (auto simp: applyDefaultDNSPolicy_def)
  note v = added(1) [unfolded d]
  note keeps = applyDefaultDNSPolicy_keeps [OF d] watcher_Validate_keeps [OF v]
  have dn: "w_doneChan z = Some False" using validated_registered_ok [OF v] by (simp add: registered_ok_def)
  have http: "\<exists>e1 c. w_Tasks y ! j = HTTPTask e1 \<and> ep_client e1 = Some c \<and> ep_watcherID e1 = w_ID x \<and>
      hc_transport c = new_transport (effective_policy w e) (ep_dnsDecisionHook e)"
    if j: "j < length (w_Tasks x)" "w_Tasks x ! j = HTTPTask e" for j e
  proof -
    obtain e1 where e1: "w_Tasks d ! j = HTTPTask e1" "ep_dnsPolicy e1 = effective_policy w e"
      "ep_dnsDecisionHook e1 = ep_dnsDecisionHook e"
      using applyDefaultDNSPolicy_task [OF d j] by blast
    obtain e2 where e2: "w_Tasks z ! j = HTTPTask e2" "ep_dnsPolicy e2 = ep_dnsPolicy e1"
      "ep_dnsDecisionHook e2 = ep_dnsDecisionHook e1"
      using validated_task [OF v _ e1(1)] j keeps by auto
    show ?thesis
      using started_task [OF added(3) dn _ e2(1)] j keeps e1 e2 by auto
  qed
  have "w_Cadence y = w_Cadence x" using start_keeps [OF added(3) dn] keeps by simp
  moreover have "map_of (wj_watchers w') = (map_of (wj_watchers w))(w_ID x \<mapsto> y)"
    using keeps by (auto simp: added(7) fun_eq_iff reg.load_store)
  ultimately show ?thesis
    using added keeps http by auto
qed (simp_all add: new_error_def)

theorem add_watcher_registers_witness:
  "map_of (wj_watchers (example_added None)) = (map_of (wj_watchers (example_wadjit 1)))(''w'' \<mapsto> example_watcher None None)"
proof -
  fix env
  show ?thesis
    using add_watcher_registers [OF example_AddWatcher [of env None]] by (auto simp: example_watcher_def)
qed

lemma applied_Some: "\<exists>d. applyDefaultDNSPolicy w (Some x) = Some d \<and> w_ID d = w_ID x"
  by (auto simp: applyDefaultDNSPolicy_def)

lemma validated_ID:
  assumes "watcher_Validate env (applyDefaultDNSPolicy w (Some x)) = (None, Some y)"
  shows "w_ID y = w_ID x"
  using applied_Some [of w x] assms watcher_Validate_keeps(1) by metis

lemma valid_Some:
  assumes "fst (watcher_Validate env (Some d)) = None"
  shows "\<exists>y. watcher_Validate env (Some d) = (None, Some y)"
  using assms by (auto simp: watcher_Validate_def Let_def case_prod_beta)

text \<open>A valid watcher whose ID is taken is rejected, and nothing changes.\<close>

lemma AddWatcher_duplicate:
  assumes "fst (watcher_Validate (ae_validate env) (applyDefaultDNSPolicy w (Some x))) = None"
    and "map_of (wj_watchers w) (w_ID x) \<noteq> None"
  shows "\<exists>x'. AddWatcher L env (Some x) w =
    Returns (new_error (''watcher with ID '' @ quoted (w_ID x) @ '' already exists''), x', w)"
proof -
  obtain y where y: "watcher_Validate (ae_validate env) (applyDefaultDNSPolicy w (Some x)) = (None, Some y)"
    using applied_Some [of w x] assms(1) valid_Some by metis
  with validated_ID [OF y] assms(2) show ?thesis by (auto simp: AddWatcher_def sm_LoadOrStore_def)
qed

text \<open>
  When closing a watcher's tasks fails, \<^verbatim>\<open>RemoveWatcher\<close> returns that error after it has taken the
  watcher out of the registry and before it removes the job: the task manager is as it was, so the
  job goes on running, and a second \<^verbatim>\<open>RemoveWatcher\<close> reports that there is no such watcher.
\<close>

theorem close_error_keeps_job:
  assumes "map_of (wj_watchers w) i = Some x" and "watcher_close (cenv i) x = Returns (Some e, y)"
  shows "\<exists>w'. RemoveWatcher L cenv i w = Returns (Some e, w') \<and> wj_taskManager w' = wj_taskManager w \<and>
    map_of (wj_watchers w') i = None \<and>
    RemoveWatcher L cenv i w' = Returns (new_error (''watcher with ID '' @ i @ '' not found''), w')"
proof -
  let ?w = "w\<lparr>wj_watchers := AList.delete i (wj_watchers w)\<rparr>"
  have "RemoveWatcher L cenv i w = Returns (Some e, ?w)"
    using assms by (simp add: RemoveWatcher_def sm_LoadAndDelete_def Let_def)
  moreover have gone: "map_of (wj_watchers ?w) i = None" by (simp add: reg.load_delete)
  moreover have "AList.delete i (AList.delete i (wj_watchers w)) = AList.delete i (wj_watchers w)"
    by (simp add: delete_idem)
  ultimately show ?thesis
    by (intro exI [of _ ?w]) (simp add: RemoveWatcher_def sm_LoadAndDelete_def Let_def)
qed

theorem close_error_keeps_job_witness:
  "\<exists>w'. wj_taskManager w' = [''w''] \<and> map_of (wj_watchers (w' :: (nat, string list) Wadjit)) ''w'' = None"
proof -
  fix cenv
  let ?e = "Sentinel NetErrClosed"
  have m: "map_of (wj_watchers (example_added (Some ?e))) ''w'' = Some (example_watcher None (Some ?e))"
    "wj_taskManager (example_added (Some ?e)) = [''w'']"
    by (simp_all add: example_added_def)
  have c: "watcher_close (cenv ''w'') (example_watcher None (Some ?e)) =
      Returns (Some (JoinError [?e]), example_watcher None (Some ?e)\<lparr>w_doneChan := Some True\<rparr>)"
    by (simp add: example_close join_into_def errors_Join_def List.map_filter_simps)
  show ?thesis
    using close_error_keeps_job [where cenv = cenv and L = example_taskman, OF m(1) c] m(2) by auto
qed

section \<open>The registry and the task manager\<close>

text \<open>
  What is relied on of the task manager, \<open>jobs\<close> being the IDs of its jobs: scheduling adds the job
  and removing takes it out when they report no error, and change nothing otherwise; pausing and
  resuming keep the jobs.
\<close>

definition taskman_contract :: "('tm, 'opt, 'lg, 'mode) taskman_lib \<Rightarrow> ('tm \<Rightarrow> string set) \<Rightarrow> bool" where
  "taskman_contract L jobs \<longleftrightarrow>
     (\<forall>j tm. jobs (snd (tl_ScheduleJob L j tm)) =
        (if fst (tl_ScheduleJob L j tm) = None then insert (jb_ID j) (jobs tm) else jobs tm)) \<and>
     (\<forall>i tm. jobs (snd (tl_RemoveJob L i tm)) =
        (if fst (tl_RemoveJob L i tm) = None then jobs tm - {i} else jobs tm)) \<and>
     (\<forall>i tm. jobs (snd (tl_PauseJob L i tm)) = jobs tm \<and> jobs (snd (tl_ResumeJob L i tm)) = jobs tm)"

lemma taskman_contractD:
  assumes "taskman_contract L jobs"
  shows "tl_ScheduleJob L j tm = (None, tm') \<Longrightarrow> jobs tm' = insert (jb_ID j) (jobs tm)"
    and "tl_ScheduleJob L j tm = (Some e, tm') \<Longrightarrow> jobs tm' = jobs tm"
    and "tl_RemoveJob L i tm = (None, tm') \<Longrightarrow> jobs tm' = jobs tm - {i}"
    and "tl_RemoveJob L i tm = (Some e, tm') \<Longrightarrow> jobs tm' = jobs tm"
    and "tl_PauseJob L i tm = (err, tm') \<Longrightarrow> jobs tm' = jobs tm"
    and "tl_ResumeJob L i tm = (err, tm') \<Longrightarrow> jobs tm' = jobs tm"
  using assms unfolding taskman_contract_def by (metis fst_conv snd_conv option.distinct(1))+

lemma example_contract: "taskman_contract example_taskman set"
  by (auto simp: taskman_contract_def example_taskman_def new_error_def)

text \<open>
  C35. A watcher that is valid and new but whose start or whose scheduling fails: \<^verbatim>\<open>AddWatcher\<close> returns
  an error that names the failed step and its cause, and the watcher stays registered all the same,
  without a job: no job was added, and after a failed start the task manager was not even called. Its
  ID is taken from then on: adding a valid watcher of this ID again, the same one for instance, is
  rejected as a duplicate until it is removed.
\<close>

theorem unstarted_watcher_stays:
  assumes "taskman_contract L jobs"
    and "AddWatcher L env (Some x) w = Returns (err, x', w')"
    and "watcher_Validate (ae_validate env) (applyDefaultDNSPolicy w (Some x)) = (None, Some y)"
    and "map_of (wj_watchers w) (w_ID x) = None"
    and "watcher_start (ae_start env) True y = Returns (serr, y1)"
    and "serr \<noteq> None \<or> fst (tl_ScheduleJob L (watcher_job (ae_now env) y1) (wj_taskManager w)) \<noteq> None"
  shows "(case serr of
       Some e \<Rightarrow> err = new_error (''error starting watcher: '' @ error_text e) \<and> wj_taskManager w' = wj_taskManager w
     | None \<Rightarrow> \<exists>e. tl_ScheduleJob L (watcher_job (ae_now env) y1) (wj_taskManager w) = (Some e, wj_taskManager w') \<and>
         err = new_error (''error scheduling job: '' @ error_text e)) \<and>
    err \<noteq> None \<and> map_of (wj_watchers w') = (map_of (wj_watchers w))(w_ID x \<mapsto> y1) \<and>
    jobs (wj_taskManager w') = jobs (wj_taskManager w) \<and>
    (\<forall>env' z. w_ID z = w_ID x \<and>
       fst (watcher_Validate (ae_validate env') (applyDefaultDNSPolicy w' (Some z))) = None \<longrightarrow>
       (\<exists>z'. AddWatcher L env' (Some z) w' =
          Returns (new_error (''watcher with ID '' @ quoted (w_ID x) @ '' already exists''), z', w')))"
proof -
  have y: "w_ID y = w_ID x" by (rule validated_ID [OF assms(3)])
  have "(case serr of
       Some e \<Rightarrow> err = new_error (''error starting watcher: '' @ error_text e) \<and> wj_taskManager w' = wj_taskManager w
     | None \<Rightarrow> \<exists>e. tl_ScheduleJob L (watcher_job (ae_now env) y1) (wj_taskManager w) = (Some e, wj_taskManager w') \<and>
         err = new_error (''error scheduling job: '' @ error_text e)) \<and>
    map_of (wj_watchers w') = (map_of (wj_watchers w))(w_ID x \<mapsto> y1) \<and>
    jobs (wj_taskManager w') = jobs (wj_taskManager w)"
    using assms(2)
  proof (cases rule: AddWatcher_cases)
    case rejected
    then show ?thesis using assms(3,4) y by auto
  next
    case (unstarted z z1 e)
    then show ?thesis using assms(3,5) y by (auto simp: fun_eq_iff reg.load_store)
  next
    case (unscheduled z z1 e tm)
    then show ?thesis
      using assms(3,5) y taskman_contractD(2) [OF assms(1)] by (auto simp: fun_eq_iff reg.load_store)
  next
    case (added z z1 tm)
    then show ?thesis using assms(3,5,6) by auto
  qed
  note r = this
  have "\<exists>z'. AddWatcher L env' (Some z) w' =
      Returns (new_error (''watcher with ID '' @ quoted (w_ID x) @ '' already exists''), z', w')"
    if z: "w_ID z = w_ID x \<and> fst (watcher_Validate (ae_validate env') (applyDefaultDNSPolicy w' (Some z))) = None"
    for env' z
    using AddWatcher_duplicate [of env' w' z L] r z by simp
  then show ?thesis using r by (auto simp: new_error_def split: option.splits)
qed

theorem unstarted_watcher_stays_witness:
  "\<exists>w' y. map_of (wj_watchers w') ''w'' = Some y \<and> set (wj_taskManager w') = ({} :: string set) \<and>
     wj_listener (w' :: (nat, string list) Wadjit) = Listening"
proof -
  fix env
  let ?x = "example_watcher (Some (Sentinel NetErrClosed)) None"
  let ?e = "JoinError [Sentinel NetErrClosed]"
  have s: "watcher_start e True ?x = Returns (Some ?e, ?x)" for e
    by (simp add: example_start join_into_def errors_Join_def List.map_filter_simps)
  have w: "wj_watchers (example_wadjit n) = []" "wj_taskManager (example_wadjit n) = []"
    "wj_listener (example_wadjit n) = Listening" "w_ID ?x = ''w''" for n
    by (simp_all add: example_wadjit_def example_watcher_def)
  let ?w = "(example_wadjit 1)\<lparr>wj_watchers := [(''w'', ?x)]\<rparr>"
  have a: "AddWatcher example_taskman env (Some ?x) (example_wadjit 1) =
      Returns (new_error (''error starting watcher: use of closed network connection''), Some ?x, ?w)"
    by (simp add: AddWatcher_def example_default example_Validate sm_LoadOrStore_def sm_Store_def w s)
  have v: "watcher_Validate (ae_validate env) (applyDefaultDNSPolicy (example_wadjit 1) (Some ?x)) = (None, Some ?x)"
    "map_of (wj_watchers (example_wadjit 1)) (w_ID ?x) = None"
    by (simp_all add: example_default example_Validate w)
  have "map_of (wj_watchers ?w) = (map_of (wj_watchers (example_wadjit 1)))(w_ID ?x \<mapsto> ?x) \<and>
      set (wj_taskManager ?w) = set (wj_taskManager (example_wadjit 1))"
    using unstarted_watcher_stays [OF example_contract a v s [of "ae_start env"]] by simp
  then show ?thesis using w by (intro exI [of _ ?w] exI [of _ ?x]) simp
qed

definition registered :: "('id, 'tm) Wadjit \<Rightarrow> string set" where
  "registered w = set (map fst (wj_watchers w))"

lemma store_keys: "fst ` set (sm_Store i x m) = insert i (fst ` set m)"
  using reg.store_ids [of i x m] by simp

lemma registered_tm [simp]: "registered (w\<lparr>wj_taskManager := tm\<rparr>) = registered w"
  by (simp add: registered_def)

lemma WatcherIDs_set:
  assumes "\<And>xs. mset (ord xs) = mset xs"
  shows "set (WatcherIDs ord w) = registered w"
  unfolding WatcherIDs_def sm_keys_def registered_def by (rule mset_eq_setD [OF assms])

text \<open>A removal that reports no error takes the watcher and its job out.\<close>

lemma RemoveWatcher_removes:
  assumes "taskman_contract L jobs" "RemoveWatcher L cenv i w = Returns (None, w')"
  shows "registered w' = registered w - {i} \<and> jobs (wj_taskManager w') = jobs (wj_taskManager w) - {i}"
  using assms(2)
proof (cases rule: RemoveWatcher_cases)
  case (removed x y tm)
  then show ?thesis
    using taskman_contractD(3) [OF assms(1) removed(3)] reg.delete_ids [of i "wj_watchers w"]
    by (simp add: registered_def)
qed auto

lemma remove_each_removes:
  assumes "taskman_contract L jobs" "remove_each L cenv label errs ids w = Returns (None, w')"
  shows "errs = None \<and> registered w' = registered w - set ids \<and>
    jobs (wj_taskManager w') = jobs (wj_taskManager w) - set ids"
  using assms(2)
proof (induction ids arbitrary: errs w)
  case (Cons i ids)
  then obtain err w1 where r: "RemoveWatcher L cenv i w = Returns (err, w1)"
    and rest: "remove_each L cenv label (join_into errs (map_option (label i) err)) ids w1 = Returns (None, w')"
    by (auto simp: run_iff)
  from Cons.IH [OF rest] have ih: "errs = None" "err = None" "registered w' = registered w1 - set ids"
    "jobs (wj_taskManager w') = jobs (wj_taskManager w1) - set ids"
    by auto
  from RemoveWatcher_removes [OF assms(1) r [unfolded ih(2)]] ih show ?case by auto
qed simp

text \<open>
  C13. With a task manager that keeps its contract, the registered watchers and the jobs stay the same
  set of IDs as long as the calls report no error: after adding, after removing, after pausing and
  resuming, and after \<^verbatim>\<open>Clear\<close>, which then leaves neither watchers nor jobs. They stay the same also
  through the calls that only report a wrong argument: an \<^verbatim>\<open>AddWatcher\<close> of a watcher that is invalid
  or whose ID is taken returns an error and changes nothing, neither the registry nor the task
  manager; and so does a \<^verbatim>\<open>RemoveWatcher\<close> of an ID that is not registered, but for the deletion of a
  key that is not there.
\<close>

theorem registry_matches_jobs:
  assumes "taskman_contract L jobs" and "jobs (wj_taskManager w) = registered w"
  shows "(\<forall>env x x' w'. AddWatcher L env x w = Returns (None, x', w') \<longrightarrow>
       jobs (wj_taskManager w') = registered w' \<and> registered w \<subset> registered w') \<and>
    (\<forall>cenv i w'. RemoveWatcher L cenv i w = Returns (None, w') \<longrightarrow>
       jobs (wj_taskManager w') = registered w' \<and> registered w' = registered w - {i}) \<and>
    (\<forall>i. jobs (wj_taskManager (snd (PauseWatcher L i w))) = registered (snd (PauseWatcher L i w)) \<and>
       jobs (wj_taskManager (snd (ResumeWatcher L i w))) = registered (snd (ResumeWatcher L i w))) \<and>
    (\<forall>cenv ord w'. (\<forall>xs. mset (ord xs) = mset xs) \<and> Clear L cenv ord w = Returns (None, w') \<longrightarrow>
       wj_watchers w' = [] \<and> jobs (wj_taskManager w') = {}) \<and>
    (\<forall>env x err x' w'. AddWatcher L env (Some x) w = Returns (err, x', w') \<and>
       (fst (watcher_Validate (ae_validate env) (applyDefaultDNSPolicy w (Some x))) \<noteq> None \<or> w_ID x \<in> registered w) \<longrightarrow>
       err \<noteq> None \<and> w' = w) \<and>
    (\<forall>cenv i err w'. RemoveWatcher L cenv i w = Returns (err, w') \<and> i \<notin> registered w \<longrightarrow>
       err \<noteq> None \<and> wj_taskManager w' = wj_taskManager w \<and> registered w' = registered w)"
proof (intro conjI allI impI)
  fix env x x' w' assume "AddWatcher L env x w = Returns (None, x', w')"
  then have "jobs (wj_taskManager w') = registered w' \<and> registered w \<subset> registered w'"
  proof (cases rule: AddWatcher_cases)
    case (added y z tm)
    have "w_ID y \<notin> registered w"
      using added(2) by (simp add: registered_def map_of_eq_None_iff)
    moreover have "registered w' = insert (w_ID y) (registered w)"
      by (simp add: added(7) registered_def store_keys)
    moreover have "jobs (wj_taskManager w') = insert (w_ID y) (jobs (wj_taskManager w))"
      using taskman_contractD(1) [OF assms(1) added(4)] added(7,8) by (simp add: watcher_job_def)
    ultimately show ?thesis using assms(2) by auto
  qed (simp_all add: new_error_def)
  then show "jobs (wj_taskManager w') = registered w'" "registered w \<subset> registered w'" by auto
next
  fix cenv i w' assume "RemoveWatcher L cenv i w = Returns (None, w')"
  from RemoveWatcher_removes [OF assms(1) this] assms(2)
  show "jobs (wj_taskManager w') = registered w'" "registered w' = registered w - {i}" by auto
next
  fix i
  show "jobs (wj_taskManager (snd (PauseWatcher L i w))) = registered (snd (PauseWatcher L i w))"
    "jobs (wj_taskManager (snd (ResumeWatcher L i w))) = registered (snd (ResumeWatcher L i w))"
    using assms taskman_contractD(5,6) [OF assms(1)]
    by (auto simp: PauseWatcher_def ResumeWatcher_def split: prod.splits)
next
  fix cenv ord w'
  assume c: "(\<forall>xs. mset (ord xs) = mset xs) \<and> Clear L cenv ord w = Returns (None, w')"
  have "set (WatcherIDs ord w) = registered w"
    by (rule WatcherIDs_set) (use c in blast)
  with remove_each_removes [OF assms(1) conjunct2 [OF c, unfolded Clear_def]] assms(2)
  show "wj_watchers w' = []" "jobs (wj_taskManager w') = {}" by (auto simp: registered_def)
next
  fix env x err x' w'
  assume a: "AddWatcher L env (Some x) w = Returns (err, x', w') \<and>
    (fst (watcher_Validate (ae_validate env) (applyDefaultDNSPolicy w (Some x))) \<noteq> None \<or> w_ID x \<in> registered w)"
  have new: "w_ID x \<notin> registered w" if "map_of (wj_watchers w) (w_ID x) = None"
    using that by (simp add: registered_def map_of_eq_None_iff)
  from conjunct1 [OF a] show "err \<noteq> None" "w' = w"
    by (cases rule: AddWatcher_cases; use conjunct2 [OF a] validated_ID new in fastforce)+
next
  fix cenv i err w'
  assume a: "RemoveWatcher L cenv i w = Returns (err, w') \<and> i \<notin> registered w"
  then have n: "map_of (wj_watchers w) i = None" by (simp add: registered_def map_of_eq_None_iff)
  from conjunct1 [OF a] show "err \<noteq> None" "wj_taskManager w' = wj_taskManager w" "registered w' = registered w"
    by (cases rule: RemoveWatcher_cases; use n a reg.delete_ids [of i "wj_watchers w"] in \<open>simp add: registered_def\<close>)+
qed

theorem registry_matches_jobs_witness:
  "set (wj_taskManager (example_added None)) = registered (example_added None) \<and>
   registered (example_wadjit 1) \<subset> registered (example_added None)"
proof -
  fix env
  have j: "set (wj_taskManager (example_wadjit 1)) = registered (example_wadjit 1)"
    by (simp add: example_wadjit_def registered_def)
  show ?thesis
    by (rule conjunct1 [OF registry_matches_jobs [OF example_contract j], rule_format,
          OF example_AddWatcher [of env None]])
qed

text \<open>
  \<^verbatim>\<open>Clear\<close> goes through all watchers whatever the removals report: when it returns, no watcher is
  registered, even if some could not be closed, and the channels, the forwarding goroutine and the
  state of \<^verbatim>\<open>Close\<close> are untouched.
\<close>

theorem clear_empties:
  assumes "Clear L cenv ord w = Returns (errs, w')" and "\<And>xs. mset (ord xs) = mset xs"
  shows "wj_watchers w' = [] \<and> same_channels w w'"
proof -
  obtain tm where w': "w' = w\<lparr>wj_watchers := fold AList.delete (WatcherIDs ord w) (wj_watchers w), wj_taskManager := tm\<rparr>"
    using remove_each_frame [OF assms(1) [unfolded Clear_def]] by auto
  have "set (map fst (wj_watchers w)) \<subseteq> set (WatcherIDs ord w)"
    using WatcherIDs_set [OF assms(2), of w] by (simp add: registered_def)
  from reg.delete_all [OF this] w' show ?thesis by (simp add: same_channels_def)
qed

theorem clear_empties_witness:
  "\<exists>errs w'. Clear example_taskman (\<lambda>i j. undefined) (\<lambda>ids. ids) (example_added (Some (Sentinel IoEOF))) = Returns (errs, w') \<and>
     wj_watchers w' = []"
proof -
  let ?w = "example_added (Some (Sentinel IoEOF))" and ?cenv = "\<lambda>(i :: string) (j :: nat). undefined :: task_env"
  have w: "wj_watchers ?w = [(''w'', example_watcher None (Some (Sentinel IoEOF)))]"
    by (simp add: example_added_def)
  obtain errs w' where c: "Clear example_taskman ?cenv (\<lambda>ids. ids) ?w = Returns (errs, w')"
    by (simp add: Clear_def WatcherIDs_def sm_keys_def w RemoveWatcher_def sm_LoadAndDelete_def example_close
        join_into_def errors_Join_def List.map_filter_simps)
  from clear_empties [OF c] c show ?thesis by blast
qed

section \<open>Making a Wadjit\<close>

lemma apply_each_filter: "apply_each (filter (\<lambda>opt. opt \<noteq> None) opts) cfg = apply_each opts cfg"
  by (induction opts cfg rule: apply_each.induct) auto

lemma applyOptions_WithBufferSize:
  "applyOptions G (opts @ [Some (WithBufferSize n)]) =
     (if n < 0 then applyOptions G opts else (applyOptions G opts)\<lparr>op_bufferSize := n\<rparr>)"
  by (auto simp: applyOptions_def apply_each_append WithBufferSize_def Let_def defaultResponseChanBufferSize_def)

text \<open>
  \<^verbatim>\<open>New\<close> returns for all options, whatever functions they are: the size of the buffers is never
  negative when the channels are made, so making them does not panic. Nil options make no
  difference, a final \<^verbatim>\<open>WithBufferSize\<close> decides about both buffers unless it is negative, in which
  case it is ignored, and without options the buffers hold 512 responses.
\<close>

theorem New_ready:
  "\<exists>w. New L G opts = Returns w \<and>
     int (ch_cap (wj_respGatherChan w)) = op_bufferSize (applyOptions G opts) \<and>
     int (ch_cap (Responses w)) = op_bufferSize (applyOptions G opts) \<and>
     New L G (filter (\<lambda>opt. opt \<noteq> None) opts) = New L G opts \<and>
     New L G (opts @ [Some (WithBufferSize n)]) =
       Returns (if n < 0 then w
                else w\<lparr>wj_respGatherChan := (wj_respGatherChan w)\<lparr>ch_cap := nat n\<rparr>,
                       wj_respExportChan := (wj_respExportChan w)\<lparr>ch_cap := nat n\<rparr>\<rparr>) \<and>
     op_bufferSize (applyOptions G []) = 512"
proof -
  have n: "\<not> op_bufferSize (applyOptions G opts) < 0" using applyOptions_bufferSize [of G opts] by linarith
  have f: "applyOptions G (filter (\<lambda>opt. opt \<noteq> None) opts) = applyOptions G opts"
    unfolding applyOptions_def apply_each_filter ..
  have d: "op_bufferSize (applyOptions G []) = 512"
    by (simp add: applyOptions_def Let_def defaultResponseChanBufferSize_def)
  show ?thesis
    using n by (auto simp: New_def make_chan_def applyOptions_WithBufferSize f d Responses_def Let_def
        simp del: not_None_eq)
qed

section \<open>An endpoint that keeps its mutex\<close>

lemma locked_task_never_closes: "we_locked e \<Longrightarrow> task_Close env (WSTask e) = Blocks"
  by (simp add: task_Close_def ws_Close_def)

lemma locked_watcher_never_closes:
  assumes "WSTask e \<in> set (w_Tasks x)" "we_locked e"
  shows "watcher_close env x \<noteq> Returns r"
proof
  assume c: "watcher_close env x = Returns r"
  obtain errs ts where t: "each_task task_Close env 0 None (w_Tasks x) = Returns (errs, ts)"
    using c by (auto simp: watcher_close_def run_iff split: if_splits)
  obtain j where j: "j < length (w_Tasks x)" "w_Tasks x ! j = WSTask e"
    using assms(1) by (auto simp: in_set_conv_nth)
  from each_task_Returns [OF t] j obtain err t1 where "task_Close (env j) (WSTask e) = Returns (err, t1)" by auto
  then show False using locked_task_never_closes [OF assms(2)] by simp
qed

text \<open>A watcher that cannot be closed is never removed, and stops the removal of all.\<close>

lemma unclosable_never_removed:
  assumes "map_of (wj_watchers w) i = Some x" "\<And>r. watcher_close (cenv i) x \<noteq> Returns r"
  shows "RemoveWatcher L cenv i w \<noteq> Returns (err, w')"
proof
  assume "RemoveWatcher L cenv i w = Returns (err, w')"
  then show False using assms by (cases rule: RemoveWatcher_cases) auto
qed

lemma unclosable_never_all_removed:
  assumes "map_of (wj_watchers w) i = Some x" "\<And>r. watcher_close (cenv i) x \<noteq> Returns r" "i \<in> set ids"
  shows "remove_each L cenv label errs ids w \<noteq> Returns (errs', w')"
  using assms(1,3)
proof (induction ids arbitrary: errs w)
  case (Cons k ids)
  show ?case
  proof
    assume "remove_each L cenv label errs (k # ids) w = Returns (errs', w')"
    then obtain err w1 where r: "RemoveWatcher L cenv k w = Returns (err, w1)"
      and rest: "remove_each L cenv label (join_into errs (map_option (label k) err)) ids w1 = Returns (errs', w')"
      by (auto simp: run_iff)
    have k: "k \<noteq> i" using unclosable_never_removed [where cenv = cenv, OF Cons.prems(1) assms(2)] r by metis
    then have "map_of (wj_watchers w1) i = Some x"
      using RemoveWatcher_frame [OF r] Cons.prems(1) by (auto simp: reg.load_delete)
    with Cons.IH [of w1] Cons.prems(2) k rest show False by auto
  qed
qed simp

lemma unclosable_blocks:
  assumes "map_of (wj_watchers w) i = Some x" "\<And>r. watcher_close (cenv i) x \<noteq> Returns r"
    and "\<And>xs. mset (ord xs) = mset xs"
  shows "(\<nexists>err w'. RemoveWatcher L cenv i w = Returns (err, w')) \<and>
    (\<nexists>err w'. Clear L cenv ord w = Returns (err, w')) \<and> (\<nexists>w'. close_begin L cenv ord w = Returns w')"
proof -
  have "i \<in> set (WatcherIDs ord w)"
    using WatcherIDs_set [OF assms(3), of w] assms(1) reg.ids_load [of i "wj_watchers w"] by (simp add: registered_def)
  note stuck = unclosable_never_all_removed [where cenv = cenv and L = L, OF assms(1,2) this]
  show ?thesis
    using unclosable_never_removed [where cenv = cenv and L = L, OF assms(1,2)] stuck by (auto simp: Clear_def close_begin_def run_iff)
qed

text \<open>
  C31. One WebSocket endpoint whose mutex is never freed, as after a failed write on a persistent
  connection, stops the whole Wadjit: neither \<^verbatim>\<open>RemoveWatcher\<close> for its watcher nor \<^verbatim>\<open>Clear\<close> returns,
  and \<^verbatim>\<open>Close\<close> never gets to the point of closing the channels.
\<close>

theorem locked_endpoint_blocks_close:
  assumes "map_of (wj_watchers w) i = Some x" and "WSTask e \<in> set (w_Tasks x)" and "we_locked e"
    and "\<And>xs. mset (ord xs) = mset xs"
  shows "(\<nexists>err w'. RemoveWatcher L cenv i w = Returns (err, w')) \<and>
    (\<nexists>err w'. Clear L cenv ord w = Returns (err, w')) \<and>
    (\<nexists>w'. close_begin L cenv ord w = Returns w')"
  by (rule unclosable_blocks [where cenv = cenv, OF assms(1) locked_watcher_never_closes [OF assms(2,3)] assms(4)])

theorem locked_endpoint_blocks_close_witness:
  "\<exists>w. wj_close (w :: (string, string list) Wadjit) = Closing \<and>
     (\<nexists>w'. close_begin example_taskman (\<lambda>i j. undefined) (\<lambda>ids. ids) w = Returns w')"
proof -
  let ?e = "example_persistent\<lparr>we_locked := True\<rparr>"
  let ?x = "\<lparr>w_ID = ''w'', w_Cadence = 5, w_Tasks = [WSTask ?e], w_doneChan = Some False\<rparr>"
  let ?w = "\<lparr>wj_watchers = [(''w'', ?x)], wj_taskManager = [''w''],
      wj_respGatherChan = \<lparr>ch_cap = 1, ch_buf = [], ch_closed = False\<rparr>,
      wj_respExportChan = \<lparr>ch_cap = 1, ch_buf = [], ch_closed = False\<rparr>, wj_defaultDNSPolicy = zero_policy,
      wj_hasDefaultDNSPolicy = False, wj_cancelled = True, wj_listener = Listening, wj_close = Closing\<rparr>"
  have "\<nexists>w'. close_begin example_taskman (\<lambda>i j. undefined) (\<lambda>ids. ids) ?w = Returns w'"
    using locked_endpoint_blocks_close [of ?w "''w''" ?x ?e "\<lambda>ids. ids" example_taskman "\<lambda>i j. undefined"] by simp
  then show ?thesis by (intro exI [of _ ?w]) simp
qed

end
