(* ===== verification/Wadjit_Concurrent.thy ===== *)
theory Wadjit_Concurrent
  imports Wadjit_Properties
begin

text \<open>
  Calls of \<^verbatim>\<open>AddWatcher\<close> and \<^verbatim>\<open>RemoveWatcher\<close> from several goroutines. Nothing locks the two functions:
  they are atomic only in the operations of \<^verbatim>\<open>sync.Map\<close>, of the task manager and of one task. A call
  stands at one of these operations and the calls take turns. The registry holds pointers to
  watchers, so the watchers are in a heap here.
\<close>

section \<open>Calls and the state they share\<close>

record ('id, 'tm) shared =
  sh_watchers :: "nat sync_map"
  sh_heap :: "nat \<Rightarrow> 'id Watcher"
  sh_taskManager :: 'tm

text \<open>
  Where a call stands. \<^verbatim>\<open>AddWatcher\<close> of the watcher at \<open>r\<close>: before the validation, the \<^verbatim>\<open>LoadOrStore\<close>,
  the beginning of \<^verbatim>\<open>start\<close>, the start of task \<open>j\<close> with the errors so far, \<^verbatim>\<open>ScheduleJob\<close>, the final
  \<^verbatim>\<open>Store\<close>. \<^verbatim>\<open>RemoveWatcher\<close>: before the \<^verbatim>\<open>LoadAndDelete\<close>, the beginning of \<^verbatim>\<open>close\<close>, the closing of
  task \<open>j\<close>, \<^verbatim>\<open>RemoveJob\<close>. Both: returned.
\<close>

datatype call =
    Adding nat | Storing nat | Opening nat | Starting nat nat go_err | Scheduling nat | Keeping nat
  | Removing string | Ending string nat | Stopping string nat nat go_err | Dropping string
  | Returned go_err

text \<open>The outside of a step: of adding, and of closing a task.\<close>

record call_env =
  ce_add :: add_env
  ce_close :: "nat \<Rightarrow> task_env"

definition set_watcher :: "nat \<Rightarrow> 'id Watcher \<Rightarrow> ('id, 'tm) shared \<Rightarrow> ('id, 'tm) shared" where
  "set_watcher r x s = s\<lparr>sh_heap := (sh_heap s)(r := x)\<rparr>"

section \<open>The steps of \<open>AddWatcher\<close>\<close>

text \<open>\<open>w\<close> gives the default policy, which no call changes.\<close>

definition add_validate ::
    "('id, 'tm) Wadjit \<Rightarrow> call_env \<Rightarrow> nat \<Rightarrow> ('id, 'tm) shared \<Rightarrow> call \<times> ('id, 'tm) shared" where
  "add_validate w env r s =
     (let (err, x) = watcher_Validate (ae_validate (ce_add env)) (applyDefaultDNSPolicy w (Some (sh_heap s r)));
          s1 = (case x of Some x \<Rightarrow> set_watcher r x s | None \<Rightarrow> s)
      in case err of
           Some e \<Rightarrow> (Returned (new_error (''error validating watcher: '' @ error_text e)), s1)
         | None \<Rightarrow> (Storing r, s1))"

definition add_store :: "nat \<Rightarrow> ('id, 'tm) shared \<Rightarrow> call \<times> ('id, 'tm) shared" where
  "add_store r s =
     (let i = w_ID (sh_heap s r)
      in case sm_LoadOrStore i r (sh_watchers s) of
           (True, m) \<Rightarrow>
             (Returned (new_error (''watcher with ID '' @ quoted i @ '' already exists'')), s\<lparr>sh_watchers := m\<rparr>)
         | (False, m) \<Rightarrow> (Opening r, s\<lparr>sh_watchers := m\<rparr>))"

text \<open>The response channel that \<^verbatim>\<open>AddWatcher\<close> passes is never nil.\<close>

definition start_open :: "nat \<Rightarrow> ('id, 'tm) shared \<Rightarrow> call \<times> ('id, 'tm) shared" where
  "start_open r s =
     (let x = sh_heap s r
      in (Starting r 0 None,
          if w_doneChan x = None then set_watcher r (x\<lparr>w_doneChan := Some False\<rparr>) s else s))"

definition start_task ::
    "call_env \<Rightarrow> nat \<Rightarrow> nat \<Rightarrow> go_err \<Rightarrow> ('id, 'tm) shared \<Rightarrow> (call \<times> ('id, 'tm) shared) outcome" where
  "start_task env r j errs s =
     (let x = sh_heap s r
      in if j < length (w_Tasks x)
         then and_then (task_Initialize (ae_start (ce_add env) j) (w_ID x) (w_Tasks x ! j)) (\<lambda>(err, t).
                Returns (Starting r (Suc j) (join_into errs err),
                         set_watcher r (x\<lparr>w_Tasks := (w_Tasks x)[j := t]\<rparr>) s))
         else Returns
                (case errs of
                   Some e \<Rightarrow> (Returned (new_error (''error starting watcher: '' @ error_text e)), s)
                 | None \<Rightarrow> (Scheduling r, s)))"

definition add_schedule ::
    "('tm, 'opt, 'lg, 'mode) taskman_lib \<Rightarrow> call_env \<Rightarrow> nat \<Rightarrow> ('id, 'tm) shared \<Rightarrow> call \<times> ('id, 'tm) shared" where
  "add_schedule L env r s =
     (case tl_ScheduleJob L (watcher_job (ae_now (ce_add env)) (sh_heap s r)) (sh_taskManager s) of
        (Some e, tm) \<Rightarrow>
          (Returned (new_error (''error scheduling job: '' @ error_text e)), s\<lparr>sh_taskManager := tm\<rparr>)
      | (None, tm) \<Rightarrow> (Keeping r, s\<lparr>sh_taskManager := tm\<rparr>))"

definition add_keep :: "nat \<Rightarrow> ('id, 'tm) shared \<Rightarrow> call \<times> ('id, 'tm) shared" where
  "add_keep r s =
     (Returned None, s\<lparr>sh_watchers := sm_Store (w_ID (sh_heap s r)) r (sh_watchers s)\<rparr>)"

section \<open>The steps of \<open>RemoveWatcher\<close>\<close>

definition remove_take :: "string \<Rightarrow> ('id, 'tm) shared \<Rightarrow> call \<times> ('id, 'tm) shared" where
  "remove_take i s =
     (case sm_LoadAndDelete i (sh_watchers s) of
        (None, m) \<Rightarrow> (Returned (new_error (''watcher with ID '' @ i @ '' not found'')), s\<lparr>sh_watchers := m\<rparr>)
      | (Some r, m) \<Rightarrow> (Ending i r, s\<lparr>sh_watchers := m\<rparr>))"

definition close_open :: "string \<Rightarrow> nat \<Rightarrow> ('id, 'tm) shared \<Rightarrow> (call \<times> ('id, 'tm) shared) outcome" where
  "close_open i r s =
     (let x = sh_heap s r
      in if w_doneChan x \<noteq> Some False then Panics
         else Returns (Stopping i r 0 None, set_watcher r (x\<lparr>w_doneChan := Some True\<rparr>) s))"

definition close_task ::
    "call_env \<Rightarrow> string \<Rightarrow> nat \<Rightarrow> nat \<Rightarrow> go_err \<Rightarrow> ('id, 'tm) shared \<Rightarrow> (call \<times> ('id, 'tm) shared) outcome" where
  "close_task env i r j errs s =
     (let x = sh_heap s r
      in if j < length (w_Tasks x)
         then and_then (task_Close (ce_close env j) (w_Tasks x ! j)) (\<lambda>(err, t).
                Returns (Stopping i r (Suc j) (join_into errs err),
                         set_watcher r (x\<lparr>w_Tasks := (w_Tasks x)[j := t]\<rparr>) s))
         else Returns (case errs of Some e \<Rightarrow> (Returned (Some e), s) | None \<Rightarrow> (Dropping i, s)))"

definition remove_job ::
    "('tm, 'opt, 'lg, 'mode) taskman_lib \<Rightarrow> string \<Rightarrow> ('id, 'tm) shared \<Rightarrow> call \<times> ('id, 'tm) shared" where
  "remove_job L i s =
     (case tl_RemoveJob L i (sh_taskManager s) of
        (Some e, tm) \<Rightarrow> (Returned (Some (Errorf ''error removing watcher: '' e)), s\<lparr>sh_taskManager := tm\<rparr>)
      | (None, tm) \<Rightarrow> (Returned None, s\<lparr>sh_taskManager := tm\<rparr>))"

section \<open>Taking turns\<close>

fun call_next ::
    "('tm, 'opt, 'lg, 'mode) taskman_lib \<Rightarrow> ('id, 'tm) Wadjit \<Rightarrow> call_env \<Rightarrow> call \<Rightarrow> ('id, 'tm) shared
       \<Rightarrow> (call \<times> ('id, 'tm) shared) outcome" where
  "call_next L w env (Adding r) s = Returns (add_validate w env r s)"
| "call_next L w env (Storing r) s = Returns (add_store r s)"
| "call_next L w env (Opening r) s = Returns (start_open r s)"
| "call_next L w env (Starting r j errs) s = start_task env r j errs s"
| "call_next L w env (Scheduling r) s = Returns (add_schedule L env r s)"
| "call_next L w env (Keeping r) s = Returns (add_keep r s)"
| "call_next L w env (Removing i) s = Returns (remove_take i s)"
| "call_next L w env (Ending i r) s = close_open i r s"
| "call_next L w env (Stopping i r j errs) s = close_task env i r j errs s"
| "call_next L w env (Dropping i) s = Returns (remove_job L i s)"
| "call_next L w env (Returned err) s = Blocks"

text \<open>A call whose steps come one after the other, and the calls of a list in any interleaving.\<close>

inductive call_run ::
    "('tm, 'opt, 'lg, 'mode) taskman_lib \<Rightarrow> ('id, 'tm) Wadjit \<Rightarrow> call_env \<Rightarrow> call \<Rightarrow> ('id, 'tm) shared
       \<Rightarrow> call \<Rightarrow> ('id, 'tm) shared \<Rightarrow> bool"
  for L w env where
  call_refl: "call_run L w env c s c s"
| call_step: "call_next L w env c s = Returns (c1, s1) \<Longrightarrow> call_run L w env c1 s1 c2 s2 \<Longrightarrow>
    call_run L w env c s c2 s2"

abbreviation calls_run ::
    "('tm, 'opt, 'lg, 'mode) taskman_lib \<Rightarrow> ('id, 'tm) Wadjit \<Rightarrow> call list \<Rightarrow> ('id, 'tm) shared
       \<Rightarrow> call list \<Rightarrow> ('id, 'tm) shared \<Rightarrow> bool" where
  "calls_run L w \<equiv> turns (call_next L w)"

text \<open>The Wadjit that the state stands for.\<close>

definition deref :: "('id, 'tm) Wadjit \<Rightarrow> ('id, 'tm) shared \<Rightarrow> ('id, 'tm) Wadjit" where
  "deref w s =
     w\<lparr>wj_watchers := map (\<lambda>(i, r). (i, sh_heap s r)) (sh_watchers s), wj_taskManager := sh_taskManager s\<rparr>"

section \<open>The registry under any calls\<close>

text \<open>What no call changes of a watcher: its ID, its cadence and the number of its tasks.\<close>

definition fixed_part :: "'id Watcher \<Rightarrow> string \<times> duration \<times> nat" where
  "fixed_part x = (w_ID x, w_Cadence x, length (w_Tasks x))"

definition runnable :: "'id Watcher \<Rightarrow> bool" where
  "runnable x \<longleftrightarrow> w_ID x \<noteq> [] \<and> 0 < w_Cadence x \<and> w_Tasks x \<noteq> []"

lemma runnable_fixed: "fixed_part x = fixed_part y \<Longrightarrow> runnable x = runnable y"
  by (auto simp: runnable_def fixed_part_def)

text \<open>A call that is past the validation has a watcher that can be run.\<close>

fun call_ok :: "('id, 'tm) shared \<Rightarrow> call \<Rightarrow> bool" where
  "call_ok s (Storing r) = runnable (sh_heap s r)"
| "call_ok s (Opening r) = runnable (sh_heap s r)"
| "call_ok s (Starting r j errs) = runnable (sh_heap s r)"
| "call_ok s (Scheduling r) = runnable (sh_heap s r)"
| "call_ok s (Keeping r) = runnable (sh_heap s r)"
| "call_ok s c = True"

definition registry_wf :: "('id, 'tm) shared \<Rightarrow> bool" where
  "registry_wf s \<longleftrightarrow> distinct (map fst (sh_watchers s)) \<and>
     (\<forall>i r. map_of (sh_watchers s) i = Some r \<longrightarrow> w_ID (sh_heap s r) = i \<and> runnable (sh_heap s r))"

definition same_fixed :: "('id, 'tm) shared \<Rightarrow> ('id, 'tm) shared \<Rightarrow> bool" where
  "same_fixed s s' \<longleftrightarrow> (\<forall>r. fixed_part (sh_heap s' r) = fixed_part (sh_heap s r))"

lemma same_fixed_runnable: "same_fixed s s' \<Longrightarrow> runnable (sh_heap s' r) = runnable (sh_heap s r)"
  by (rule runnable_fixed) (simp add: same_fixed_def)

lemma same_fixed_call_ok: "same_fixed s s' \<Longrightarrow> call_ok s' c = call_ok s c"
  by (cases c) (simp_all add: same_fixed_runnable)

lemma same_fixed_ID: "same_fixed s s' \<Longrightarrow> w_ID (sh_heap s' r) = w_ID (sh_heap s r)"
  by (simp add: same_fixed_def fixed_part_def)

lemma registry_wf_heap:
  "registry_wf s \<Longrightarrow> same_fixed s s' \<Longrightarrow> sh_watchers s' = sh_watchers s \<Longrightarrow> registry_wf s'"
  by (auto simp: registry_wf_def same_fixed_runnable same_fixed_ID)

lemma registry_wf_store:
  assumes "registry_wf s" "runnable (sh_heap s r)"
  shows "registry_wf (s\<lparr>sh_watchers := sm_Store (w_ID (sh_heap s r)) r (sh_watchers s)\<rparr>)"
  using assms by (auto simp: registry_wf_def reg.load_store) (simp add: sm_Store_def distinct_update)

lemma registry_wf_delete:
  "registry_wf s \<Longrightarrow> registry_wf (s\<lparr>sh_watchers := AList.delete i (sh_watchers s)\<rparr>)"
  by (auto simp: registry_wf_def reg.load_delete distinct_delete split: if_splits)

lemma same_fixed_refl [simp]: "same_fixed s s"
  by (simp add: same_fixed_def)

lemma same_fixed_set: "fixed_part x = fixed_part (sh_heap s r) \<Longrightarrow> same_fixed s (set_watcher r x s)"
  by (simp add: same_fixed_def set_watcher_def)

lemma same_fixed_trans: "same_fixed s s1 \<Longrightarrow> same_fixed s1 s2 \<Longrightarrow> same_fixed s s2"
  by (simp add: same_fixed_def)

text \<open>Validation leaves the fixed part and, when it succeeds, has found a watcher that can be run.\<close>

lemma add_validate_fixed:
  assumes "add_validate w env r s = (c, s')"
  shows "same_fixed s s' \<and> sh_watchers s' = sh_watchers s \<and> call_ok s' c"
proof -
  obtain d where d: "applyDefaultDNSPolicy w (Some (sh_heap s r)) = Some d" using applied_Some by blast
  obtain err x where v: "watcher_Validate (ae_validate (ce_add env)) (Some d) = (err, Some x)"
    by (simp add: watcher_Validate_def Let_def case_prod_beta)
  have f: "fixed_part x = fixed_part (sh_heap s r)"
    using applyDefaultDNSPolicy_keeps [OF d] watcher_Validate_keeps [OF v] by (simp add: fixed_part_def)
  have "runnable x" if "err = None"
    using validated_registered_ok [of _ "Some d" x] v that by (auto simp: registered_ok_def runnable_def)
  then show ?thesis
    using assms d v same_fixed_set [OF f]
    by (cases err) (auto simp: add_validate_def set_watcher_def Let_def)
qed

lemma call_next_registry:
  assumes "registry_wf s" "call_ok s c" "call_next L w env c s = Returns (c', s')"
  shows "registry_wf s' \<and> same_fixed s s' \<and> call_ok s' c'"
proof (cases c)
  case (Adding r)
  with assms add_validate_fixed [of w env r s c' s'] show ?thesis by (auto intro: registry_wf_heap)
next
  case (Storing r)
  with assms registry_wf_store [OF assms(1), of r] show ?thesis
    by (cases "map_of (sh_watchers s) (w_ID (sh_heap s r))")
      (auto simp: add_store_def sm_LoadOrStore_def Let_def same_fixed_def)
next
  case (Opening r)
  have "same_fixed s s' \<and> sh_watchers s' = sh_watchers s \<and> c' = Starting r 0 None"
    using assms(3) Opening same_fixed_set [of "sh_heap s r\<lparr>w_doneChan := Some False\<rparr>" s r]
    by (auto simp: start_open_def fixed_part_def set_watcher_def Let_def split: if_splits)
  with assms Opening show ?thesis by (auto intro: registry_wf_heap simp: same_fixed_runnable)
next
  case (Starting r j errs)
  have "same_fixed s s' \<and> sh_watchers s' = sh_watchers s \<and>
      ((\<exists>k e. c' = Starting r k e) \<or> (\<exists>e. c' = Returned e) \<or> c' = Scheduling r)"
    using assms(3) Starting
    by (auto simp: start_task_def run_iff Let_def same_fixed_def fixed_part_def set_watcher_def
        split: if_splits option.splits)
  with assms Starting show ?thesis by (auto intro: registry_wf_heap simp: same_fixed_runnable)
next
  case (Scheduling r)
  have "same_fixed s s' \<and> sh_watchers s' = sh_watchers s \<and> ((\<exists>e. c' = Returned e) \<or> c' = Keeping r)"
    using assms(3) Scheduling by (auto simp: add_schedule_def same_fixed_def split: prod.splits option.splits)
  with assms Scheduling show ?thesis by (auto intro: registry_wf_heap simp: same_fixed_runnable)
next
  case (Keeping r)
  with assms registry_wf_store [OF assms(1), of r] show ?thesis by (auto simp: add_keep_def same_fixed_def)
next
  case (Removing i)
  with assms(3) registry_wf_delete [OF assms(1), of i] show ?thesis
    by (auto simp: remove_take_def sm_LoadAndDelete_def same_fixed_def split: option.splits)
next
  case (Ending i r)
  have "same_fixed s s' \<and> sh_watchers s' = sh_watchers s \<and> c' = Stopping i r 0 None"
    using assms(3) Ending
    by (auto simp: close_open_def same_fixed_def fixed_part_def set_watcher_def Let_def split: if_splits)
  with assms(1) show ?thesis by (auto intro: registry_wf_heap)
next
  case (Stopping i r j errs)
  have "same_fixed s s' \<and> sh_watchers s' = sh_watchers s \<and>
      ((\<exists>k e. c' = Stopping i r k e) \<or> (\<exists>e. c' = Returned e) \<or> c' = Dropping i)"
    using assms(3) Stopping
    by (auto simp: close_task_def run_iff Let_def same_fixed_def fixed_part_def set_watcher_def
        split: if_splits option.splits)
  with assms(1) show ?thesis by (auto intro: registry_wf_heap)
next
  case (Dropping i)
  have "same_fixed s s' \<and> sh_watchers s' = sh_watchers s \<and> (\<exists>e. c' = Returned e)"
    using assms(3) Dropping by (auto simp: remove_job_def same_fixed_def split: prod.splits option.splits)
  with assms(1) show ?thesis by (auto intro: registry_wf_heap)
qed (use assms in simp)

interpretation any_calls: taking_turns
  "call_next L w" registry_wf "\<lambda>(g :: unit) s c. call_ok s c" "\<lambda>g c h d. True" for L w
  by unfold_locales (auto dest: call_next_registry simp: same_fixed_call_ok)

text \<open>
  C14. The registry is well-formed under all calls of \<^verbatim>\<open>AddWatcher\<close> and \<^verbatim>\<open>RemoveWatcher\<close>, whatever they
  return and however their steps interleave, also when several of them add the same watcher or the
  same ID, or add and remove one ID at the same time: at every moment no ID occurs twice, each
  watcher is stored under its own ID, and it has a positive cadence and at least one task, because
  only validated watchers are stored. \<^verbatim>\<open>WatcherIDs\<close> lists exactly the registered IDs, none of them
  empty.
\<close>

theorem registry_invariant:
  assumes "calls_run L w cs0 s0 cs s" and "registry_wf s0"
    and "\<forall>c \<in> set cs0. (\<exists>r. c = Adding r) \<or> (\<exists>i. c = Removing i)"
    and "\<And>xs. mset (ord xs) = mset xs"
  shows "distinct (WatcherIDs ord (deref w s)) \<and>
    (\<forall>i. i \<in> set (WatcherIDs ord (deref w s)) \<longleftrightarrow> map_of (sh_watchers s) i \<noteq> None) \<and>
    (\<forall>i r. map_of (sh_watchers s) i = Some r \<longrightarrow>
       w_ID (sh_heap s r) = i \<and> i \<noteq> [] \<and> 0 < w_Cadence (sh_heap s r) \<and> w_Tasks (sh_heap s r) \<noteq> [])"
proof -
  have start: "any_calls.together (replicate (length cs0) ()) cs0 s0"
    using assms(2,3) nth_mem by (fastforce simp: any_calls.together_def)
  have wf: "registry_wf s"
    using any_calls.together_glob [OF any_calls.together_turns [OF assms(1) start]] .
  have keys: "map fst (wj_watchers (deref w s)) = map fst (sh_watchers s)"
    by (simp add: deref_def comp_def case_prod_beta)
  have m: "mset (WatcherIDs ord (deref w s)) = mset (map fst (sh_watchers s))"
    using assms(4) by (simp add: WatcherIDs_def sm_keys_def keys)
  have "distinct (WatcherIDs ord (deref w s))"
    using wf mset_eq_imp_distinct_iff [OF m] by (simp add: registry_wf_def)
  moreover have "i \<in> set (WatcherIDs ord (deref w s)) \<longleftrightarrow> map_of (sh_watchers s) i \<noteq> None" for i
    using mset_eq_setD [OF m] by (simp add: map_of_eq_None_iff)
  moreover have "w_ID (sh_heap s r) = i \<and> i \<noteq> [] \<and> 0 < w_Cadence (sh_heap s r) \<and> w_Tasks (sh_heap s r) \<noteq> []"
    if "map_of (sh_watchers s) i = Some r" for i r
    using wf that unfolding registry_wf_def runnable_def by blast
  ultimately show ?thesis by blast
qed

section \<open>A batch of calls\<close>

text \<open>
  The calls of a batch: additions of different watchers, of whatever IDs, and removals. No ID is
  added and removed in the same batch.
\<close>

definition added_refs :: "call list \<Rightarrow> nat set" where
  "added_refs cs = {r. Adding r \<in> set cs}"

definition removed_ids :: "call list \<Rightarrow> string set" where
  "removed_ids cs = {i. Removing i \<in> set cs}"

definition reg_of :: "('id, 'tm) shared \<Rightarrow> string \<Rightarrow> nat option" where
  "reg_of s = map_of (sh_watchers s)"

definition id_of :: "('id, 'tm) shared \<Rightarrow> nat \<Rightarrow> string" where
  "id_of s r = w_ID (sh_heap s r)"

definition done_of :: "('id, 'tm) shared \<Rightarrow> nat \<Rightarrow> bool option" where
  "done_of s r = w_doneChan (sh_heap s r)"

definition pointers_ok :: "('id, 'tm) shared \<Rightarrow> bool" where
  "pointers_ok s \<longleftrightarrow> distinct (map fst (sh_watchers s)) \<and>
     (\<forall>i r. reg_of s i = Some r \<longrightarrow> id_of s r = i \<and> done_of s r = Some False)"

definition batch_ok :: "('id, 'tm) shared \<Rightarrow> call list \<Rightarrow> bool" where
  "batch_ok s cs \<longleftrightarrow> pointers_ok s \<and>
     (\<forall>c \<in> set cs. (\<exists>r. c = Adding r) \<or> (\<exists>i. c = Removing i)) \<and>
     (\<forall>k < length cs. \<forall>l < length cs. \<forall>r. cs ! k = Adding r \<and> cs ! l = Adding r \<longrightarrow> k = l) \<and>
     (\<forall>r \<in> added_refs cs. id_of s r \<notin> removed_ids cs)"

text \<open>Whether the watcher at \<open>r\<close> passes the validation of \<open>AddWatcher\<close>.\<close>

definition addable :: "('id, 'tm) Wadjit \<Rightarrow> ('id, 'tm) shared \<Rightarrow> nat \<Rightarrow> bool" where
  "addable w s r \<longleftrightarrow> (case applyDefaultDNSPolicy w (Some (sh_heap s r)) of Some x \<Rightarrow> watcher_ok x | None \<Rightarrow> False)"

section \<open>The invariant of a batch\<close>

definition batch_glob ::
    "('id, 'tm) Wadjit \<Rightarrow> ('id, 'tm) shared \<Rightarrow> call list \<Rightarrow> ('id, 'tm) shared \<Rightarrow> bool" where
  "batch_glob w s0 cs0 s \<longleftrightarrow> pointers_ok s \<and> id_of s = id_of s0 \<and>
     (\<forall>i r. i \<notin> removed_ids cs0 \<longrightarrow> reg_of s0 i = Some r \<longrightarrow> reg_of s i = Some r) \<and>
     (\<forall>i r. reg_of s i = Some r \<longrightarrow> reg_of s0 i = Some r \<or> r \<in> added_refs cs0 \<and> addable w s0 r)"

fun took :: "call \<Rightarrow> bool" where
  "took (Ending i r) = True"
| "took (Stopping i r j errs) = True"
| "took (Dropping i) = True"
| "took (Returned err) = (err = None)"
| "took c = False"

text \<open>What holds of an addition (of the watcher at \<open>r\<close>) and of a removal (of the ID \<open>i\<close>) wherever it stands.\<close>

fun add_loc ::
    "('tm \<Rightarrow> string set) \<Rightarrow> ('id, 'tm) Wadjit \<Rightarrow> ('id, 'tm) shared \<Rightarrow> nat \<Rightarrow> ('id, 'tm) shared \<Rightarrow> call \<Rightarrow> bool" where
  "add_loc jobs w s0 r s (Adding q) = (q = r \<and> sh_heap s r = sh_heap s0 r)"
| "add_loc jobs w s0 r s (Storing q) = (q = r \<and> addable w s0 r \<and> done_of s r = Some False)"
| "add_loc jobs w s0 r s (Opening q) = (q = r \<and> reg_of s (id_of s0 r) = Some r)"
| "add_loc jobs w s0 r s (Starting q j errs) = (q = r \<and> reg_of s (id_of s0 r) = Some r)"
| "add_loc jobs w s0 r s (Scheduling q) = (q = r \<and> reg_of s (id_of s0 r) = Some r)"
| "add_loc jobs w s0 r s (Keeping q) =
     (q = r \<and> reg_of s (id_of s0 r) = Some r \<and> id_of s0 r \<in> jobs (sh_taskManager s))"
| "add_loc jobs w s0 r s (Returned err) =
     ((addable w s0 r \<longrightarrow> reg_of s (id_of s0 r) \<noteq> None) \<and>
      (err = None \<longrightarrow> reg_of s (id_of s0 r) = Some r \<and> id_of s0 r \<in> jobs (sh_taskManager s)))"
| "add_loc jobs w s0 r s c = False"

fun remove_loc ::
    "('tm \<Rightarrow> string set) \<Rightarrow> ('id, 'tm) shared \<Rightarrow> string \<Rightarrow> ('id, 'tm) shared \<Rightarrow> call \<Rightarrow> bool" where
  "remove_loc jobs s0 i s (Removing k) = (k = i)"
| "remove_loc jobs s0 i s (Ending k r) = (k = i \<and> reg_of s i = None \<and> id_of s0 r = i \<and> done_of s r = Some False)"
| "remove_loc jobs s0 i s (Stopping k r j errs) = (k = i \<and> reg_of s i = None \<and> id_of s0 r = i)"
| "remove_loc jobs s0 i s (Dropping k) = (k = i \<and> reg_of s i = None)"
| "remove_loc jobs s0 i s (Returned err) =
     (reg_of s i = None \<and> (err = None \<longrightarrow> i \<notin> jobs (sh_taskManager s)))"
| "remove_loc jobs s0 i s c = False"

text \<open>The role of a call is the call it began as.\<close>

fun batch_loc ::
    "('tm \<Rightarrow> string set) \<Rightarrow> ('id, 'tm) Wadjit \<Rightarrow> ('id, 'tm) shared \<Rightarrow> call list \<Rightarrow> call
       \<Rightarrow> ('id, 'tm) shared \<Rightarrow> call \<Rightarrow> bool" where
  "batch_loc jobs w s0 cs0 (Adding r) s c =
     (r \<in> added_refs cs0 \<and> id_of s0 r \<notin> removed_ids cs0 \<and> add_loc jobs w s0 r s c)"
| "batch_loc jobs w s0 cs0 (Removing i) s c = (i \<in> removed_ids cs0 \<and> remove_loc jobs s0 i s c)"
| "batch_loc jobs w s0 cs0 g s c = False"

fun batch_apart :: "('id, 'tm) shared \<Rightarrow> call \<Rightarrow> call \<Rightarrow> call \<Rightarrow> call \<Rightarrow> bool" where
  "batch_apart s0 (Adding r) c (Adding q) d = (r \<noteq> q)"
| "batch_apart s0 (Adding r) c (Removing i) d = (id_of s0 r \<noteq> i)"
| "batch_apart s0 (Removing i) c (Adding r) d = (id_of s0 r \<noteq> i)"
| "batch_apart s0 (Removing i) c (Removing k) d = (i = k \<longrightarrow> \<not> (took c \<and> took d))"
| "batch_apart s0 g c h d = False"

text \<open>What a step of an addition, and of a removal, does at most.\<close>

definition adds_at_most :: "('tm \<Rightarrow> string set) \<Rightarrow> nat \<Rightarrow> ('id, 'tm) shared \<Rightarrow> ('id, 'tm) shared \<Rightarrow> bool" where
  "adds_at_most jobs r s s' \<longleftrightarrow> id_of s' = id_of s \<and> (\<forall>q. q \<noteq> r \<longrightarrow> sh_heap s' q = sh_heap s q) \<and>
     (\<forall>i. reg_of s' i = reg_of s i \<or> i = id_of s r \<and> reg_of s i = None \<and> reg_of s' i = Some r) \<and>
     (\<forall>i. (i \<in> jobs (sh_taskManager s')) = (i \<in> jobs (sh_taskManager s)) \<or>
       i = id_of s r \<and> i \<in> jobs (sh_taskManager s'))"

definition removes_at_most :: "('tm \<Rightarrow> string set) \<Rightarrow> string \<Rightarrow> ('id, 'tm) shared \<Rightarrow> ('id, 'tm) shared \<Rightarrow> bool" where
  "removes_at_most jobs i s s' \<longleftrightarrow> id_of s' = id_of s \<and>
     (\<forall>q. id_of s q \<noteq> i \<longrightarrow> sh_heap s' q = sh_heap s q) \<and>
     (\<forall>k. reg_of s' k = reg_of s k \<or> k = i \<and> reg_of s' k = None) \<and>
     (\<forall>k. (k \<in> jobs (sh_taskManager s')) = (k \<in> jobs (sh_taskManager s)) \<or>
       k = i \<and> k \<notin> jobs (sh_taskManager s'))"

subsection \<open>Single steps\<close>

lemma set_watcher_simps [simp]:
  "sh_watchers (set_watcher r x s) = sh_watchers s" "sh_taskManager (set_watcher r x s) = sh_taskManager s"
  "sh_heap (set_watcher r x s) = (sh_heap s)(r := x)"
  "reg_of (set_watcher r x s) = reg_of s"
  "id_of (set_watcher r x s) = (id_of s)(r := w_ID x)"
  "done_of (set_watcher r x s) = (done_of s)(r := w_doneChan x)"
  by (auto simp: set_watcher_def reg_of_def id_of_def done_of_def)

lemma shared_update_simps [simp]:
  "reg_of (s\<lparr>sh_taskManager := tm\<rparr>) = reg_of s" "id_of (s\<lparr>sh_taskManager := tm\<rparr>) = id_of s"
  "done_of (s\<lparr>sh_taskManager := tm\<rparr>) = done_of s" "id_of (s\<lparr>sh_watchers := m\<rparr>) = id_of s"
  "done_of (s\<lparr>sh_watchers := m\<rparr>) = done_of s" "reg_of (s\<lparr>sh_watchers := m\<rparr>) = map_of m"
  by (auto simp: reg_of_def id_of_def done_of_def)

text \<open>The validation of the watcher at \<open>r\<close> changes its tasks only, and succeeds if it is addable.\<close>

lemma validated_watcher:
  "\<exists>err ts d. watcher_Validate env (applyDefaultDNSPolicy w (Some (sh_heap s r))) = (err, Some (d\<lparr>w_Tasks := ts\<rparr>)) \<and>
     applyDefaultDNSPolicy w (Some (sh_heap s r)) = Some d \<and>
     w_ID d = id_of s r \<and> w_doneChan d = done_of s r \<and> (err = None \<longleftrightarrow> addable w s r)"
proof -
  obtain d where d: "applyDefaultDNSPolicy w (Some (sh_heap s r)) = Some d" "w_ID d = id_of s r"
    "w_doneChan d = done_of s r"
    by (cases "wj_hasDefaultDNSPolicy w") (auto simp: applyDefaultDNSPolicy_def id_of_def done_of_def)
  show ?thesis
    using d watcher_Validate_None_iff [of env d]
    by (auto simp: addable_def watcher_Validate_def Let_def case_prod_beta)
qed

lemma pointers_ok_set:
  assumes "pointers_ok s" "w_ID x = id_of s r" "w_doneChan x = done_of s r"
  shows "pointers_ok (set_watcher r x s)"
  using assms by (auto simp: pointers_ok_def)

lemma add_validate_step:
  assumes "add_validate w env r s = (c, s')"
  obtains (invalid) err x where "c = Returned err" "err \<noteq> None" "\<not> addable w s r" "s' = set_watcher r x s"
      "w_ID x = id_of s r" "w_doneChan x = done_of s r"
  | (valid) x where "c = Storing r" "addable w s r" "s' = set_watcher r x s"
      "w_ID x = id_of s r" "w_doneChan x = done_of s r"
  using validated_watcher [of "ae_validate (ce_add env)" w s r] assms
  by (auto simp: add_validate_def new_error_def split: option.splits)

lemma addable_ok:
  assumes "addable w s r"
  shows "done_of s r = Some False"
  using assms applied_Some [of w "sh_heap s r"]
  by (auto simp: addable_def watcher_ok_def applyDefaultDNSPolicy_def done_of_def split: if_splits)

lemma start_task_step:
  assumes "start_task env r j errs s = Returns (c, s')"
  obtains (task) x e where "c = Starting r (Suc j) e" "s' = set_watcher r x s" "w_ID x = id_of s r" "w_doneChan x = done_of s r"
  | (failed) e where "c = Returned e" "e \<noteq> None" "s' = s"
  | (started) "c = Scheduling r" "s' = s"
  using assms
  by (auto simp: start_task_def run_iff Let_def id_of_def done_of_def new_error_def split: if_splits option.splits)

lemma close_task_step:
  assumes "close_task env i r j errs s = Returns (c, s')"
  obtains (task) x e where "c = Stopping i r (Suc j) e" "s' = set_watcher r x s" "w_ID x = id_of s r" "w_doneChan x = done_of s r"
  | (failed) e where "c = Returned e" "e \<noteq> None" "s' = s"
  | (closed) "c = Dropping i" "s' = s"
  using assms
  by (auto simp: close_task_def run_iff Let_def id_of_def done_of_def split: if_splits option.splits)

lemma batch_glob_same:
  assumes "batch_glob w s0 cs0 s" "reg_of s' = reg_of s" "id_of s' = id_of s" "pointers_ok s'"
  shows "batch_glob w s0 cs0 s'"
  using assms by (simp add: batch_glob_def)

lemma batch_glob_set:
  assumes "batch_glob w s0 cs0 s" "w_ID x = id_of s r" "w_doneChan x = done_of s r"
  shows "batch_glob w s0 cs0 (set_watcher r x s)"
  using assms pointers_ok_set [of s x r] by (auto simp: batch_glob_def)

lemma adds_at_most_set:
  "w_ID x = id_of s r \<Longrightarrow> adds_at_most jobs r s (set_watcher r x s)"
  by (auto simp: adds_at_most_def)

lemma add_step_sound:
  assumes tc: "taskman_contract L jobs" and g: "batch_glob w s0 cs0 s"
    and l: "r \<in> added_refs cs0" "id_of s0 r \<notin> removed_ids cs0" "add_loc jobs w s0 r s c"
    and n: "call_next L w env c s = Returns (c', s')"
  shows "batch_glob w s0 cs0 s' \<and> add_loc jobs w s0 r s' c' \<and> adds_at_most jobs r s s'"
proof -
  have p: "pointers_ok s" and ids: "id_of s r = id_of s0 r" using g by (simp_all add: batch_glob_def)
  show ?thesis
  proof (cases c)
    case (Adding q)
    then have q: "q = r" "sh_heap s r = sh_heap s0 r" using l(3) by auto
    have a: "addable w s r = addable w s0 r" using q(2) by (simp add: addable_def)
    have v: "add_validate w env r s = (c', s')" using n Adding q by simp
    from v show ?thesis
    proof (cases rule: add_validate_step)
      case (invalid err x)
      then show ?thesis
        using batch_glob_set [OF g invalid(5,6)] adds_at_most_set [of x s r] a by auto
    next
      case (valid x)
      then show ?thesis
        using batch_glob_set [OF g valid(4,5)] adds_at_most_set [of x s r] a
          addable_ok [OF valid(2)] by auto
    qed
  next
    case (Storing q)
    then have q: "q = r" "addable w s0 r" "done_of s r = Some False" using l(3) by auto
    show ?thesis
    proof (cases "reg_of s (id_of s r)")
      case None
      then have s': "c' = Opening r" "s' = s\<lparr>sh_watchers := sm_Store (id_of s r) r (sh_watchers s)\<rparr>"
        using n Storing q by (auto simp: add_store_def sm_LoadOrStore_def reg_of_def id_of_def)
      have rg: "reg_of s' = (reg_of s)(id_of s r \<mapsto> r)"
        by (auto simp: s' fun_eq_iff reg.load_store) (simp_all add: reg_of_def)
      have "pointers_ok s'"
        using p q(3) rg by (auto simp: pointers_ok_def s' sm_Store_def distinct_update)
      then show ?thesis
        using g l(1,2) q None rg ids by (auto simp: batch_glob_def s' adds_at_most_def)
    next
      case (Some y)
      then have s': "c' = Returned (new_error (''watcher with ID '' @ quoted (id_of s r) @ '' already exists''))" "s' = s"
        using n Storing q by (auto simp: add_store_def sm_LoadOrStore_def reg_of_def id_of_def)
      then show ?thesis
        using g Some ids by (auto simp: adds_at_most_def new_error_def)
    qed
  next
    case (Opening q)
    then have q: "q = r" "reg_of s (id_of s0 r) = Some r" using l(3) by auto
    then have "done_of s r = Some False" using p by (simp add: pointers_ok_def)
    then have "c' = Starting r 0 None \<and> s' = s"
      using n Opening q by (simp add: start_open_def done_of_def Let_def)
    then show ?thesis using g q by (simp add: adds_at_most_def)
  next
    case (Starting q j errs)
    then have q: "q = r" "reg_of s (id_of s0 r) = Some r" using l(3) by auto
    have st: "start_task env r j errs s = Returns (c', s')" using n Starting q by simp
    from st show ?thesis
    proof (cases rule: start_task_step)
      case (task x e)
      then show ?thesis
        using batch_glob_set [OF g task(3,4)] adds_at_most_set [of x s r] q by auto
    qed (use g q in \<open>auto simp: adds_at_most_def\<close>)
  next
    case (Scheduling q)
    then have q: "q = r" "reg_of s (id_of s0 r) = Some r" using l(3) by auto
    obtain e tm where t: "tl_ScheduleJob L (watcher_job (ae_now (ce_add env)) (sh_heap s r)) (sh_taskManager s) = (e, tm)"
      by (metis prod.exhaust)
    have j: "jobs tm = (if e = None then insert (id_of s r) (jobs (sh_taskManager s)) else jobs (sh_taskManager s))"
      using taskman_contractD(1) [OF tc, of _ _ tm] taskman_contractD(2) [OF tc, of _ _ _ tm] t
      by (cases e) (simp_all add: watcher_job_def id_of_def)
    have s': "s' = s\<lparr>sh_taskManager := tm\<rparr>" "e = None \<and> c' = Keeping r \<or> (\<exists>e'. c' = Returned (new_error e'))"
      using n Scheduling q(1) t by (auto simp: add_schedule_def split: option.splits)
    have "batch_glob w s0 cs0 s'"
      by (rule batch_glob_same [OF g]) (use p s'(1) in \<open>auto simp: pointers_ok_def\<close>)
    moreover have "adds_at_most jobs r s s'"
      unfolding adds_at_most_def s'(1) using j by (cases e) auto
    moreover have "add_loc jobs w s0 r s' c'"
      using s' j q(2) ids by (auto simp: new_error_def)
    ultimately show ?thesis by blast
  next
    case (Keeping q)
    then have q: "q = r" "reg_of s (id_of s0 r) = Some r" "id_of s0 r \<in> jobs (sh_taskManager s)" using l(3) by auto
    have s': "c' = Returned None" "s' = s\<lparr>sh_watchers := sm_Store (id_of s r) r (sh_watchers s)\<rparr>"
      using n Keeping q by (simp_all add: add_keep_def id_of_def)
    have rg: "reg_of s' = reg_of s"
      using q(2) ids by (auto simp: s' fun_eq_iff reg.load_store) (simp_all add: reg_of_def)
    have "pointers_ok s'"
      using p rg by (auto simp: pointers_ok_def s' sm_Store_def distinct_update)
    then show ?thesis
      using batch_glob_same [OF g rg] q rg by (auto simp: s' adds_at_most_def)
  qed (use l(3) n in auto)
qed

lemma removes_at_most_set:
  "w_ID x = id_of s r \<Longrightarrow> id_of s r = i \<Longrightarrow> removes_at_most jobs i s (set_watcher r x s)"
  by (auto simp: removes_at_most_def)

lemma remove_step_sound:
  assumes tc: "taskman_contract L jobs" and g: "batch_glob w s0 cs0 s"
    and l: "i \<in> removed_ids cs0" "remove_loc jobs s0 i s c"
    and n: "call_next L w env c s = Returns (c', s')"
  shows "batch_glob w s0 cs0 s' \<and> remove_loc jobs s0 i s' c' \<and> removes_at_most jobs i s s' \<and>
    (sh_heap s' = sh_heap s \<or> took c) \<and> (took c' \<longrightarrow> took c \<or> (\<exists>r. reg_of s i = Some r))"
proof -
  have p: "pointers_ok s" and ids: "id_of s = id_of s0" using g by (simp_all add: batch_glob_def)
  show ?thesis
  proof (cases c)
    case (Removing k)
    then have k: "k = i" using l(2) by auto
    have s': "s' = s\<lparr>sh_watchers := AList.delete i (sh_watchers s)\<rparr>"
      "c' = (case reg_of s i of None \<Rightarrow> Returned (new_error (''watcher with ID '' @ i @ '' not found'')) | Some r \<Rightarrow> Ending i r)"
      using n Removing k by (auto simp: remove_take_def sm_LoadAndDelete_def reg_of_def split: option.splits)
    have rg: "reg_of s' = (reg_of s)(i := None)"
      by (auto simp: s' fun_eq_iff reg.load_delete) (simp_all add: reg_of_def)
    have "pointers_ok s'"
      using p rg by (auto simp: pointers_ok_def s' distinct_delete)
    then show ?thesis
      using g l(1) rg p by (auto simp: batch_glob_def s' removes_at_most_def new_error_def pointers_ok_def split: option.splits)
  next
    case (Ending k r)
    then have k: "k = i" "reg_of s i = None" "id_of s0 r = i" "done_of s r = Some False" using l(2) by auto
    obtain x where x: "c' = Stopping i r 0 None" "s' = set_watcher r x s" "w_ID x = id_of s r" "w_doneChan x = Some True"
      using n Ending k by (auto simp: close_open_def Let_def done_of_def id_of_def)
    have "pointers_ok s'" using p k ids x by (auto simp: pointers_ok_def)
    then show ?thesis
      using batch_glob_same [OF g, of s'] removes_at_most_set [OF x(3), of i] k ids Ending x by auto
  next
    case (Stopping k r j errs)
    then have k: "k = i" "reg_of s i = None" "id_of s0 r = i" using l(2) by auto
    have st: "close_task env i r j errs s = Returns (c', s')" using n Stopping k by simp
    from st show ?thesis
    proof (cases rule: close_task_step)
      case (task x e)
      then show ?thesis
        using batch_glob_set [OF g task(3,4)] removes_at_most_set [of x s r i] k ids Stopping by auto
    qed (use g k Stopping in \<open>auto simp: removes_at_most_def\<close>)
  next
    case (Dropping k)
    then have k: "k = i" "reg_of s i = None" using l(2) by auto
    obtain e tm where t: "tl_RemoveJob L i (sh_taskManager s) = (e, tm)" by (metis prod.exhaust)
    have j: "jobs tm = (if e = None then jobs (sh_taskManager s) - {i} else jobs (sh_taskManager s))"
      using taskman_contractD(3) [OF tc, of _ _ tm] taskman_contractD(4) [OF tc, of _ _ _ tm] t
      by (cases e) simp_all
    have s': "s' = s\<lparr>sh_taskManager := tm\<rparr>" "c' = Returned (map_option (Errorf ''error removing watcher: '') e)"
      using n Dropping k(1) t by (auto simp: remove_job_def split: option.splits)
    have "batch_glob w s0 cs0 s'"
      by (rule batch_glob_same [OF g]) (use p s'(1) in \<open>auto simp: pointers_ok_def\<close>)
    moreover have "removes_at_most jobs i s s'"
      unfolding removes_at_most_def s'(1) using j by (cases e) auto
    moreover have "remove_loc jobs s0 i s' c'"
      using s' j k(2) by auto
    ultimately show ?thesis using s'(1) Dropping by simp
  qed (use l(2) n in auto)
qed

text \<open>What a step of one call leaves of the claim of another.\<close>

lemma add_loc_stable_add:
  assumes "add_loc jobs w s0 q s d" "adds_at_most jobs r s s'" "q \<noteq> r"
  shows "add_loc jobs w s0 q s' d"
proof -
  have r: "reg_of s (id_of s0 q) = Some y \<Longrightarrow> reg_of s' (id_of s0 q) = Some y"
    and j: "id_of s0 q \<in> jobs (sh_taskManager s) \<Longrightarrow> id_of s0 q \<in> jobs (sh_taskManager s')"
    and h: "sh_heap s' q = sh_heap s q" "done_of s' q = done_of s q" for y
    using assms(2,3) unfolding adds_at_most_def done_of_def by (metis option.distinct(1))+
  show ?thesis using assms(1) r j h by (cases d) auto
qed

lemma add_loc_stable_remove:
  assumes "add_loc jobs w s0 q s d" "removes_at_most jobs i s s'" "id_of s q = id_of s0 q" "id_of s0 q \<noteq> i"
  shows "add_loc jobs w s0 q s' d"
proof -
  have r: "reg_of s' (id_of s0 q) = reg_of s (id_of s0 q)"
    and j: "(id_of s0 q \<in> jobs (sh_taskManager s')) = (id_of s0 q \<in> jobs (sh_taskManager s))"
    and h: "sh_heap s' q = sh_heap s q" "done_of s' q = done_of s q"
    using assms(2-4) unfolding removes_at_most_def done_of_def by metis+
  show ?thesis using assms(1) r j h by (cases d) auto
qed

lemma remove_loc_stable_add:
  assumes "remove_loc jobs s0 i s d" "adds_at_most jobs r s s'" "id_of s = id_of s0" "id_of s0 r \<noteq> i"
  shows "remove_loc jobs s0 i s' d"
proof -
  have r: "reg_of s' i = reg_of s i"
    and j: "(i \<in> jobs (sh_taskManager s')) = (i \<in> jobs (sh_taskManager s))"
    and h: "id_of s0 q = i \<Longrightarrow> done_of s' q = done_of s q" for q
    using assms(2-4) unfolding adds_at_most_def done_of_def by metis+
  show ?thesis using assms(1) r j h by (cases d) auto
qed

lemma remove_loc_stable_remove:
  assumes "remove_loc jobs s0 i s d" "removes_at_most jobs k s s'" "id_of s = id_of s0"
    and "i = k \<Longrightarrow> took d \<Longrightarrow> sh_heap s' = sh_heap s"
  shows "remove_loc jobs s0 i s' d"
proof -
  have r: "reg_of s i = None \<Longrightarrow> reg_of s' i = None"
    and j: "i \<notin> jobs (sh_taskManager s) \<Longrightarrow> i \<notin> jobs (sh_taskManager s')"
    using assms(2) unfolding removes_at_most_def by metis+
  have h: "took d \<Longrightarrow> id_of s0 q = i \<Longrightarrow> done_of s' q = done_of s q" for q
    using assms(2-4) unfolding removes_at_most_def done_of_def by metis
  show ?thesis using assms(1) r j h by (cases d) auto
qed

lemma took_gone: "remove_loc jobs s0 i s d \<Longrightarrow> took d \<Longrightarrow> reg_of s i = None"
  by (cases d) auto

lemma batch_own:
  assumes "taskman_contract L jobs" "batch_glob w s0 cs0 s" "batch_loc jobs w s0 cs0 g s c"
    and "call_next L w env c s = Returns (c', s')"
  shows "batch_glob w s0 cs0 s' \<and> batch_loc jobs w s0 cs0 g s' c'"
  using assms(3) add_step_sound [OF assms(1,2) _ _ _ assms(4)] remove_step_sound [OF assms(1,2) _ _ assms(4)]
  by (cases g) auto

lemma batch_others:
  assumes tc: "taskman_contract L jobs" and g: "batch_glob w s0 cs0 s" and l: "batch_loc jobs w s0 cs0 g s c"
    and o: "batch_loc jobs w s0 cs0 h s d" and a: "batch_apart s0 g c h d"
    and n: "call_next L w env c s = Returns (c', s')"
  shows "batch_loc jobs w s0 cs0 h s' d \<and> batch_apart s0 g c' h d"
proof -
  have ids: "id_of s = id_of s0" using g by (simp add: batch_glob_def)
  show ?thesis
  proof (cases g)
    case (Adding r)
    then have s: "adds_at_most jobs r s s'" using l add_step_sound [OF tc g _ _ _ n] by auto
    show ?thesis
      using o a Adding add_loc_stable_add [OF _ s] remove_loc_stable_add [OF _ s ids] by (cases h) auto
  next
    case (Removing i)
    then have s: "removes_at_most jobs i s s'" "sh_heap s' = sh_heap s \<or> took c"
      "took c' \<longrightarrow> took c \<or> (\<exists>r. reg_of s i = Some r)"
      using l remove_step_sound [OF tc g _ _ n] by auto
    show ?thesis
    proof (cases h)
      case (Adding q)
      then show ?thesis using o a Removing add_loc_stable_remove [OF _ s(1)] ids by auto
    next
      case h: (Removing k)
      then have d: "remove_loc jobs s0 k s d" "took d \<longrightarrow> reg_of s k = None"
        using o took_gone by auto
      have "remove_loc jobs s0 k s' d"
        by (rule remove_loc_stable_remove [OF d(1) s(1) ids]) (use a s(2) h Removing in auto)
      then show ?thesis using o a s(3) d h Removing by auto
    qed (use o in auto)
  qed (use l in auto)
qed

lemma batch_apart_sym: "batch_apart s0 g c h d \<Longrightarrow> batch_apart s0 h d g c"
  by (cases g; cases h) auto

interpretation batch: taking_turns
  "call_next L w" "\<lambda>s. taskman_contract L jobs \<and> batch_glob w s0 cs0 s" "batch_loc jobs w s0 cs0" "batch_apart s0"
  for L w jobs s0 cs0
  by unfold_locales (blast dest: batch_own, blast dest: batch_others, rule batch_apart_sym)

abbreviation batch_inv ::
    "('tm, 'opt, 'lg, 'mode) taskman_lib \<Rightarrow> ('tm \<Rightarrow> string set) \<Rightarrow> ('id, 'tm) Wadjit \<Rightarrow> ('id, 'tm) shared
       \<Rightarrow> call list \<Rightarrow> call list \<Rightarrow> ('id, 'tm) shared \<Rightarrow> bool" where
  "batch_inv L jobs w s0 cs0 \<equiv>
     taking_turns.together (\<lambda>s. taskman_contract L jobs \<and> batch_glob w s0 cs0 s) (batch_loc jobs w s0 cs0)
       (batch_apart s0) cs0"

lemma batch_start:
  assumes "taskman_contract L jobs" "batch_ok s cs"
  shows "batch_inv L jobs w s cs cs s"
proof -
  have c: "(\<exists>r. cs ! k = Adding r) \<or> (\<exists>i. cs ! k = Removing i)" if "k < length cs" for k
    using assms(2) that by (simp add: batch_ok_def)
  have mem: "cs ! k \<in> set cs" if "k < length cs" for k using that by simp
  have "batch_loc jobs w s cs (cs ! k) s (cs ! k)" if "k < length cs" for k
    using c [OF that] mem [OF that] assms(2) by (auto simp: batch_ok_def added_refs_def removed_ids_def)
  moreover have "batch_apart s (cs ! k) (cs ! k) (cs ! l) (cs ! l)"
    if "k < length cs" "l < length cs" "k \<noteq> l" for k l
  proof -
    have d: "r \<noteq> q" if "cs ! k = Adding r" "cs ! l = Adding q" for r q
      using assms(2) that \<open>k < length cs\<close> \<open>l < length cs\<close> \<open>k \<noteq> l\<close> unfolding batch_ok_def by blast
    have m: "id_of s r \<noteq> i" if "Adding r \<in> set cs" "Removing i \<in> set cs" for r i
      using assms(2) that by (auto simp: batch_ok_def added_refs_def removed_ids_def)
    show ?thesis
      using c [OF that(1)] c [OF that(2)] mem [OF that(1)] mem [OF that(2)] d m by auto
  qed
  moreover have "batch_glob w s cs s" using assms(2) by (simp add: batch_glob_def batch_ok_def)
  ultimately show ?thesis using assms(1) unfolding batch.together_def by blast
qed

lemma batch_run:
  assumes "calls_run L w cs s cs' s'" "taskman_contract L jobs" "batch_ok s cs"
  shows "batch_inv L jobs w s cs cs' s'"
  by (rule batch.together_turns [OF assms(1) batch_start [OF assms(2,3)]])

section \<open>Batches of calls\<close>

lemma batch_at_end:
  assumes "batch_inv L jobs w s cs cs' s'" "k < length cs" "cs' ! k = Returned err"
  shows "(\<forall>i. cs ! k = Removing i \<longrightarrow> reg_of s' i = None \<and> (err = None \<longrightarrow> i \<notin> jobs (sh_taskManager s'))) \<and>
    (\<forall>r. cs ! k = Adding r \<longrightarrow> (addable w s r \<longrightarrow> reg_of s' (id_of s r) \<noteq> None) \<and>
       (err = None \<longrightarrow> reg_of s' (id_of s r) = Some r \<and> id_of s r \<in> jobs (sh_taskManager s')))"
proof -
  have "batch_loc jobs w s cs (cs ! k) s' (Returned err)"
    using assms by (metis batch.together_def)
  then show ?thesis by (cases "cs ! k") auto
qed

text \<open>
  C12. Any number of concurrent calls that add and remove watchers, of which no two add the same watcher
  and no ID is both added and removed, is as good as a sequence of them. At every moment: of several
  additions with the same ID at most one has succeeded, and of several removals of the same ID at
  most one; the watcher of a successful addition is registered and has its job, the ID of a
  successful removal has neither. No step ever closes a closed done channel. When all calls have
  returned, the IDs to be removed are gone, the other watchers there were are still registered, and
  a new ID is registered exactly if a valid watcher of that ID was among the added ones, and then
  to one of those.
\<close>

theorem concurrent_batch_correct:
  assumes "calls_run L w cs s cs' s'" and "taskman_contract L jobs" and "batch_ok s cs"
  shows "(\<forall>k l. k < length cs \<and> l < length cs \<and> cs' ! k = Returned None \<and> cs' ! l = Returned None \<longrightarrow>
       (\<forall>r q. cs ! k = Adding r \<and> cs ! l = Adding q \<and> id_of s r = id_of s q \<longrightarrow> k = l) \<and>
       (\<forall>i. cs ! k = Removing i \<and> cs ! l = Removing i \<longrightarrow> k = l)) \<and>
    (\<forall>k < length cs. cs' ! k = Returned None \<longrightarrow>
       (\<forall>r. cs ! k = Adding r \<longrightarrow> reg_of s' (id_of s r) = Some r \<and> id_of s r \<in> jobs (sh_taskManager s')) \<and>
       (\<forall>i. cs ! k = Removing i \<longrightarrow> reg_of s' i = None \<and> i \<notin> jobs (sh_taskManager s'))) \<and>
    (\<forall>k < length cs. \<forall>i r. cs' ! k = Ending i r \<longrightarrow> close_open i r s' \<noteq> Panics) \<and>
    ((\<forall>c \<in> set cs'. \<exists>err. c = Returned err) \<longrightarrow>
       (\<forall>i \<in> removed_ids cs. reg_of s' i = None) \<and>
       (\<forall>i r. i \<notin> removed_ids cs \<and> reg_of s i = Some r \<longrightarrow> reg_of s' i = Some r) \<and>
       (\<forall>i. i \<notin> removed_ids cs \<and> reg_of s i = None \<longrightarrow>
          (\<forall>r. reg_of s' i = Some r \<longrightarrow> r \<in> added_refs cs \<and> id_of s r = i \<and> addable w s r) \<and>
          ((\<exists>r. reg_of s' i = Some r) \<longleftrightarrow> (\<exists>r \<in> added_refs cs. id_of s r = i \<and> addable w s r))))"
proof -
  note inv = batch_run [OF assms]
  have len: "length cs' = length cs" and g: "batch_glob w s cs s'"
    and loc: "\<And>k. k < length cs \<Longrightarrow> batch_loc jobs w s cs (cs ! k) s' (cs' ! k)"
    and apart: "\<And>k l. k < length cs \<Longrightarrow> l < length cs \<Longrightarrow> k \<noteq> l \<Longrightarrow>
      batch_apart s (cs ! k) (cs' ! k) (cs ! l) (cs' ! l)"
    using inv by (simp_all add: batch.together_def)
  note ends = batch_at_end [OF inv]
  have adds: "k = l" if "k < length cs" "l < length cs" "cs' ! k = Returned None" "cs' ! l = Returned None"
    "cs ! k = Adding r" "cs ! l = Adding q" "id_of s r = id_of s q" for k l r q
  proof (rule ccontr)
    assume "k \<noteq> l"
    from apart [OF that(1,2) this] that(5,6) have "r \<noteq> q" by simp
    moreover have "reg_of s' (id_of s r) = Some r" using ends [OF that(1,3)] that(5) by blast
    moreover have "reg_of s' (id_of s q) = Some q" using ends [OF that(2,4)] that(6) by blast
    ultimately show False using that(7) by simp
  qed
  have removes: "k = l" if "k < length cs" "l < length cs" "cs' ! k = Returned None" "cs' ! l = Returned None"
    "cs ! k = Removing i" "cs ! l = Removing i" for k l i
    using apart [OF that(1,2)] that by auto
  have closing: "close_open i r s' \<noteq> Panics" if "k < length cs" "cs' ! k = Ending i r" for k i r
    using loc [OF that(1)] that by (cases "cs ! k") (auto simp: close_open_def done_of_def Let_def)
  have ended: "\<exists>k err. k < length cs \<and> cs ! k = c \<and> cs' ! k = Returned err"
    if "\<forall>c \<in> set cs'. \<exists>err. c = Returned err" "c \<in> set cs" for c
    using that len by (metis in_set_conv_nth nth_mem)
  have removed: "reg_of s' i = None" if "\<forall>c \<in> set cs'. \<exists>err. c = Returned err" "i \<in> removed_ids cs" for i
    using ended [OF that(1), of "Removing i"] that(2) ends by (fastforce simp: removed_ids_def)
  have added: "reg_of s' (id_of s r) \<noteq> None"
    if "\<forall>c \<in> set cs'. \<exists>err. c = Returned err" "r \<in> added_refs cs" "addable w s r" for r
    using ended [OF that(1), of "Adding r"] that(2,3) ends by (fastforce simp: added_refs_def)
  have kept: "reg_of s' i = Some r" if "i \<notin> removed_ids cs" "reg_of s i = Some r" for i r
    using g that by (simp add: batch_glob_def)
  have new: "reg_of s i = Some r \<or> r \<in> added_refs cs \<and> addable w s r" "id_of s r = i"
    if "reg_of s' i = Some r" for i r
    using g that by (auto simp: batch_glob_def pointers_ok_def)
  have fresh: "r \<in> added_refs cs \<and> id_of s r = i \<and> addable w s r"
    if "reg_of s i = None" "reg_of s' i = Some r" for i r
    using new [OF that(2)] that(1) by simp
  have entered: "(\<exists>r. reg_of s' i = Some r) \<longleftrightarrow> (\<exists>r \<in> added_refs cs. id_of s r = i \<and> addable w s r)"
    if "\<forall>c \<in> set cs'. \<exists>err. c = Returned err" "reg_of s i = None" for i
    using fresh [OF that(2)] added [OF that(1)] by blast
  show ?thesis
    using adds removes ends closing
    by (intro conjI impI allI ballI) (blast dest: removed kept fresh entered)+
qed

section \<open>Calls without interleaving\<close>

text \<open>That the steps of a call, one after the other, return \<open>err\<close> in a state with \<open>P\<close>.\<close>

definition call_ends ::
    "('tm, 'opt, 'lg, 'mode) taskman_lib \<Rightarrow> ('id, 'tm) Wadjit \<Rightarrow> call_env \<Rightarrow> call \<Rightarrow> ('id, 'tm) shared
       \<Rightarrow> go_err \<Rightarrow> (('id, 'tm) shared \<Rightarrow> bool) \<Rightarrow> bool" where
  "call_ends L w env c s err P \<longleftrightarrow> (\<exists>s'. call_run L w env c s (Returned err) s' \<and> P s')"

inductive_cases Returned_runE: "call_run L w env (Returned e) s c' s'"

lemma call_ends_Returned [simp]: "call_ends L w env (Returned e) s err P \<longleftrightarrow> e = err \<and> P s"
  by (auto simp: call_ends_def elim: Returned_runE intro: call_refl)

lemma call_ends_next:
  assumes "\<And>e. c \<noteq> Returned e"
  shows "call_ends L w env c s err P \<longleftrightarrow>
    (\<exists>c1 s1. call_next L w env c s = Returns (c1, s1) \<and> call_ends L w env c1 s1 err P)"
proof
  assume "call_ends L w env c s err P"
  then obtain s' where "call_run L w env c s (Returned err) s'" "P s'" by (auto simp: call_ends_def)
  then show "\<exists>c1 s1. call_next L w env c s = Returns (c1, s1) \<and> call_ends L w env c1 s1 err P"
    using assms unfolding call_ends_def by (cases rule: call_run.cases) blast+
next
  assume "\<exists>c1 s1. call_next L w env c s = Returns (c1, s1) \<and> call_ends L w env c1 s1 err P"
  then show "call_ends L w env c s err P" unfolding call_ends_def by (blast intro: call_step)
qed

lemma call_ends_simps [simp]:
  "call_ends L w env (Adding r) s err P \<longleftrightarrow>
     call_ends L w env (fst (add_validate w env r s)) (snd (add_validate w env r s)) err P"
  "call_ends L w env (Storing r) s err P \<longleftrightarrow> call_ends L w env (fst (add_store r s)) (snd (add_store r s)) err P"
  "call_ends L w env (Opening r) s err P \<longleftrightarrow> call_ends L w env (fst (start_open r s)) (snd (start_open r s)) err P"
  "call_ends L w env (Scheduling r) s err P \<longleftrightarrow>
     call_ends L w env (fst (add_schedule L env r s)) (snd (add_schedule L env r s)) err P"
  "call_ends L w env (Keeping r) s err P \<longleftrightarrow> call_ends L w env (fst (add_keep r s)) (snd (add_keep r s)) err P"
  "call_ends L w env (Removing i) s err P \<longleftrightarrow> call_ends L w env (fst (remove_take i s)) (snd (remove_take i s)) err P"
  "call_ends L w env (Dropping i) s err P \<longleftrightarrow> call_ends L w env (fst (remove_job L i s)) (snd (remove_job L i s)) err P"
  by (subst call_ends_next, simp, simp, metis prod.collapse prod.inject)+

text \<open>The loops over the tasks.\<close>

lemma set_watcher_twice [simp]: "set_watcher r x (set_watcher r y s) = set_watcher r x s"
  "set_watcher r (sh_heap s r) s = s"
  by (simp_all add: set_watcher_def)

lemma task_loop:
  assumes step: "\<And>j errs s. id_of s r = i \<Longrightarrow> P j errs s \<longleftrightarrow>
      (if j < length (w_Tasks (sh_heap s r))
       then \<exists>err t. f (env j) (w_Tasks (sh_heap s r) ! j) = Returns (err, t) \<and>
         P (Suc j) (join_into errs err)
           (set_watcher r ((sh_heap s r)\<lparr>w_Tasks := (w_Tasks (sh_heap s r))[j := t]\<rparr>) s)
       else Q errs s)"
    and "j \<le> length (w_Tasks (sh_heap s r))" and "id_of s r = i"
  shows "P j errs s \<longleftrightarrow>
    (\<exists>errs1 ts. each_task f env j errs (drop j (w_Tasks (sh_heap s r))) = Returns (errs1, ts) \<and>
       Q errs1 (set_watcher r ((sh_heap s r)\<lparr>w_Tasks := take j (w_Tasks (sh_heap s r)) @ ts\<rparr>) s))"
  using assms(2,3)
proof (induction "length (w_Tasks (sh_heap s r)) - j" arbitrary: j errs s)
  case 0
  then show ?case using step [OF 0(3)] by simp
next
  case (Suc n)
  let ?x = "sh_heap s r"
  let ?s = "\<lambda>t. set_watcher r (?x\<lparr>w_Tasks := (w_Tasks ?x)[j := t]\<rparr>) s"
  have j: "j < length (w_Tasks ?x)" using Suc.hyps(2) by simp
  have d: "drop j (w_Tasks ?x) = w_Tasks ?x ! j # drop (Suc j) (w_Tasks ?x)"
    using j by (simp add: Cons_nth_drop_Suc)
  have tk: "take (Suc j) ((w_Tasks ?x)[j := t]) = take j (w_Tasks ?x) @ [t]" for t
    using j by (simp add: take_Suc_conv_app_nth)
  have ih: "P (Suc j) errs1 (?s t) \<longleftrightarrow>
      (\<exists>errs2 ts. each_task f env (Suc j) errs1 (drop (Suc j) (w_Tasks ?x)) = Returns (errs2, ts) \<and>
         Q errs2 (set_watcher r (?x\<lparr>w_Tasks := take j (w_Tasks ?x) @ t # ts\<rparr>) s))" for errs1 t
    using Suc.hyps(1) [of "?s t" "Suc j" errs1] Suc.hyps(2) Suc.prems j by (simp add: tk id_of_def)
  show ?case
    unfolding d step [OF Suc.prems(2)] using j by (auto simp: ih run_iff)
qed

lemma call_ends_Starting:
  "call_ends L w env (Starting r 0 errs) s err P \<longleftrightarrow>
    (\<exists>errs1 ts. each_task (\<lambda>te. task_Initialize te (id_of s r)) (ae_start (ce_add env)) 0 errs (w_Tasks (sh_heap s r)) =
        Returns (errs1, ts) \<and>
      call_ends L w env
        (case errs1 of Some e \<Rightarrow> Returned (new_error (''error starting watcher: '' @ error_text e)) | None \<Rightarrow> Scheduling r)
        (set_watcher r ((sh_heap s r)\<lparr>w_Tasks := ts\<rparr>) s) err P)"
  (is "_ \<longleftrightarrow> (\<exists>errs1 ts. _ \<and> call_ends L w env (?next errs1) _ err P)")
proof -
  have "call_ends L w env (Starting r j errs) s err P \<longleftrightarrow>
      (if j < length (w_Tasks (sh_heap s r))
       then \<exists>e t. task_Initialize (ae_start (ce_add env) j) i (w_Tasks (sh_heap s r) ! j) = Returns (e, t) \<and>
         call_ends L w env (Starting r (Suc j) (join_into errs e))
           (set_watcher r ((sh_heap s r)\<lparr>w_Tasks := (w_Tasks (sh_heap s r))[j := t]\<rparr>) s) err P
       else call_ends L w env (?next errs) s err P)"
    if "id_of s r = i" for j errs s i
    using that
    by (subst call_ends_next) (auto simp: start_task_def run_iff Let_def id_of_def split: option.splits)
  from task_loop [where P = "\<lambda>j errs s. call_ends L w env (Starting r j errs) s err P" and j = 0 and s = s and errs = errs, OF this _ refl]
  show ?thesis by simp
qed

lemma call_ends_Stopping:
  "call_ends L w env (Stopping i r 0 errs) s err P \<longleftrightarrow>
    (\<exists>errs1 ts. each_task task_Close (ce_close env) 0 errs (w_Tasks (sh_heap s r)) = Returns (errs1, ts) \<and>
      call_ends L w env (case errs1 of Some e \<Rightarrow> Returned (Some e) | None \<Rightarrow> Dropping i)
        (set_watcher r ((sh_heap s r)\<lparr>w_Tasks := ts\<rparr>) s) err P)"
  (is "_ \<longleftrightarrow> (\<exists>errs1 ts. _ \<and> call_ends L w env (?next errs1) _ err P)")
proof -
  have "call_ends L w env (Stopping i r j errs) s err P \<longleftrightarrow>
      (if j < length (w_Tasks (sh_heap s r))
       then \<exists>e t. task_Close (ce_close env j) (w_Tasks (sh_heap s r) ! j) = Returns (e, t) \<and>
         call_ends L w env (Stopping i r (Suc j) (join_into errs e))
           (set_watcher r ((sh_heap s r)\<lparr>w_Tasks := (w_Tasks (sh_heap s r))[j := t]\<rparr>) s) err P
       else call_ends L w env (?next errs) s err P)"
    if "id_of s r = k" for j errs s k
    by (subst call_ends_next) (auto simp: close_task_def run_iff Let_def split: option.splits)
  from task_loop [where P = "\<lambda>j errs s. call_ends L w env (Stopping i r j errs) s err P" and j = 0 and s = s and errs = errs, OF this _ refl]
  show ?thesis by simp
qed

lemma call_ends_Ending:
  "call_ends L w env (Ending i r) s err P \<longleftrightarrow> done_of s r = Some False \<and>
     call_ends L w env (Stopping i r 0 None) (set_watcher r ((sh_heap s r)\<lparr>w_doneChan := Some True\<rparr>) s) err P"
  by (subst call_ends_next) (auto simp: close_open_def Let_def done_of_def)

subsection \<open>The Wadjit behind the pointers\<close>

lemma deref_watchers: "wj_watchers (deref w s) = map (\<lambda>(i, r). (i, sh_heap s r)) (sh_watchers s)"
  by (simp add: deref_def)

lemma deref_load: "map_of (wj_watchers (deref w s)) i = map_option (sh_heap s) (reg_of s i)"
  by (simp add: deref_watchers reg_of_def map_of_map)

lemma applyDefault_deref [simp]: "applyDefaultDNSPolicy (deref w s) x = applyDefaultDNSPolicy w x"
  by (simp add: applyDefaultDNSPolicy_def deref_def split: option.splits)

lemma map_update: "map (\<lambda>(i, r). (i, h r)) (AList.update i r m) = AList.update i (h r) (map (\<lambda>(i, r). (i, h r)) m)"
  by (induction m) auto

lemma map_delete: "map (\<lambda>(i, r). (i, h r)) (AList.delete i m) = AList.delete i (map (\<lambda>(i, r). (i, h r)) m)"
  by (induction m) auto

lemma map_heap_upd:
  "r \<notin> set (map snd m) \<Longrightarrow> map (\<lambda>(i, q). (i, (h(r := x)) q)) m = map (\<lambda>(i, q). (i, h q)) m"
  by (induction m) auto

lemma deref_simps:
  "r \<notin> set (map snd (sh_watchers s)) \<Longrightarrow> deref w (set_watcher r x s) = deref w s"
  "deref w (s\<lparr>sh_taskManager := tm\<rparr>) = (deref w s)\<lparr>wj_taskManager := tm\<rparr>"
  "deref w (s\<lparr>sh_watchers := AList.delete i (sh_watchers s)\<rparr>) =
     (deref w s)\<lparr>wj_watchers := AList.delete i (wj_watchers (deref w s))\<rparr>"
  "sh_watchers s = m \<Longrightarrow> deref w (s\<lparr>sh_watchers := sm_Store i r m\<rparr>) =
     (deref w s)\<lparr>wj_watchers := sm_Store i (sh_heap s r) (wj_watchers (deref w s))\<rparr>"
  using map_heap_upd [of r "sh_watchers s" "sh_heap s" x]
  by (auto simp: deref_def map_update map_delete sm_Store_def fun_upd_def)

lemma set_watcher_commute:
  "set_watcher r x (s\<lparr>sh_watchers := m\<rparr>) = (set_watcher r x s)\<lparr>sh_watchers := m\<rparr>"
  "set_watcher r x (s\<lparr>sh_taskManager := tm\<rparr>) = (set_watcher r x s)\<lparr>sh_taskManager := tm\<rparr>"
  "sh_taskManager (s\<lparr>sh_watchers := m\<rparr>) = sh_taskManager s"
  by (simp_all add: set_watcher_def)

subsection \<open>Adding and removing\<close>

lemma add_alone:
  assumes r: "r \<notin> set (map snd (sh_watchers s))"
  shows "call_ends L w env (Adding r) s err (\<lambda>s'. sh_heap s' r = x \<and> deref w s' = w') \<longleftrightarrow>
    AddWatcher L (ce_add env) (Some (sh_heap s r)) (deref w s) = Returns (err, Some x, w')"
proof -
  let ?P = "\<lambda>s'. sh_heap s' r = x \<and> deref w s' = w'"
  obtain verr y where v: "watcher_Validate (ae_validate (ce_add env)) (applyDefaultDNSPolicy w (Some (sh_heap s r))) = (verr, Some y)"
    and y: "w_ID y = id_of s r"
    using validated_watcher [of "ae_validate (ce_add env)" w s r] by auto
  define s1 where "s1 = set_watcher r y s"
  have d1: "deref w s1 = deref w s" "sh_heap s1 r = y" "id_of s1 r = id_of s r" "sh_watchers s1 = sh_watchers s"
    "reg_of s1 = reg_of s"
    using r y by (simp_all add: s1_def deref_simps)
  show ?thesis
  proof (cases verr)
    case (Some e)
    then show ?thesis using v d1 by (auto simp: AddWatcher_def add_validate_def s1_def Let_def)
  next
    case None
    then have av: "add_validate w env r s = (Storing r, s1)" using v by (simp add: add_validate_def s1_def)
    have dn: "w_doneChan y = Some False"
      using validated_registered_ok [OF v [unfolded None]] by (simp add: registered_ok_def)
    show ?thesis
    proof (cases "reg_of s (id_of s r)")
      case (Some q)
      then have "add_store r s1 = (Returned (new_error (''watcher with ID '' @ quoted (w_ID y) @ '' already exists'')), s1)"
        using d1 y by (simp add: add_store_def sm_LoadOrStore_def Let_def reg_of_def id_of_def)
      then show ?thesis
        using Some v None y av d1 deref_load [of w s "id_of s r"]
        by (auto simp: AddWatcher_def sm_LoadOrStore_def)
    next
      case fresh: None
      define s2 where "s2 = s1\<lparr>sh_watchers := sm_Store (w_ID y) r (sh_watchers s)\<rparr>"
      have as: "add_store r s1 = (Opening r, s2)"
        using fresh d1 y by (simp add: add_store_def sm_LoadOrStore_def Let_def reg_of_def s2_def id_of_def)
      have h2: "sh_heap s2 r = y" "id_of s2 r = w_ID y" using d1 y by (simp_all add: s2_def id_of_def)
      have so: "start_open r s2 = (Starting r 0 None, s2)" using dn h2 by (simp add: start_open_def)
      let ?start = "each_task (\<lambda>te. task_Initialize te (w_ID y)) (ae_start (ce_add env)) 0 None (w_Tasks y)"
      let ?y = "\<lambda>ts. y\<lparr>w_Tasks := ts\<rparr>" and ?s3 = "\<lambda>ts. set_watcher r (y\<lparr>w_Tasks := ts\<rparr>) s2"
      have d3: "deref w (?s3 ts) = (deref w s)\<lparr>wj_watchers := sm_Store (w_ID y) (?y ts) (wj_watchers (deref w s))\<rparr>"
        "sh_heap (?s3 ts) r = ?y ts" "sh_taskManager (?s3 ts) = wj_taskManager (deref w s)" for ts
        using r by (simp_all add: s2_def s1_def set_watcher_commute deref_simps) (simp add: deref_def)
      have run: "call_ends L w env (Adding r) s err ?P \<longleftrightarrow>
          (\<exists>errs ts. ?start = Returns (errs, ts) \<and> call_ends L w env
             (case errs of Some e \<Rightarrow> Returned (new_error (''error starting watcher: '' @ error_text e)) | None \<Rightarrow> Scheduling r)
             (?s3 ts) err ?P)"
        by (simp add: av as so h2 call_ends_Starting)
      have sch: "call_ends L w env (Scheduling r) (?s3 ts) err ?P \<longleftrightarrow>
          (case tl_ScheduleJob L (watcher_job (ae_now (ce_add env)) (?y ts)) (wj_taskManager (deref w s)) of
             (Some e, tm) \<Rightarrow> new_error (''error scheduling job: '' @ error_text e) = err \<and> ?y ts = x \<and>
               (deref w (?s3 ts))\<lparr>wj_taskManager := tm\<rparr> = w'
           | (None, tm) \<Rightarrow> None = err \<and> ?y ts = x \<and>
               (deref w (?s3 ts))\<lparr>wj_watchers := sm_Store (w_ID y) (?y ts) (wj_watchers (deref w (?s3 ts))),
                 wj_taskManager := tm\<rparr> = w')" for ts
        using d3(2,3) [of ts]
        by (auto simp: add_schedule_def add_keep_def deref_simps(2,4) split: prod.splits option.splits)
      have add: "AddWatcher L (ce_add env) (Some (sh_heap s r)) (deref w s) = and_then ?start (\<lambda>(errs, ts).
          case errs of
            Some e \<Rightarrow> Returns (new_error (''error starting watcher: '' @ error_text e), Some (?y ts), deref w (?s3 ts))
          | None \<Rightarrow>
              (case tl_ScheduleJob L (watcher_job (ae_now (ce_add env)) (?y ts)) (wj_taskManager (deref w s)) of
                 (Some e, tm) \<Rightarrow> Returns (new_error (''error scheduling job: '' @ error_text e), Some (?y ts),
                   (deref w (?s3 ts))\<lparr>wj_taskManager := tm\<rparr>)
               | (None, tm) \<Rightarrow> Returns (None, Some (?y ts),
                   (deref w (?s3 ts))\<lparr>wj_watchers := sm_Store (w_ID y) (?y ts) (wj_watchers (deref w (?s3 ts))),
                     wj_taskManager := tm\<rparr>)))"
        using v None fresh y deref_load [of w s "id_of s r"] dn
        by (cases ?start) (simp_all add: AddWatcher_def sm_LoadOrStore_def watcher_start_def d3 split_beta
            split: option.split)
      have cont: "call_ends L w env
          (case errs of Some e \<Rightarrow> Returned (new_error (''error starting watcher: '' @ error_text e)) | None \<Rightarrow> Scheduling r)
          (?s3 ts) err ?P \<longleftrightarrow>
        (case errs of
           Some e \<Rightarrow> new_error (''error starting watcher: '' @ error_text e) = err \<and> ?y ts = x \<and> deref w (?s3 ts) = w'
         | None \<Rightarrow> call_ends L w env (Scheduling r) (?s3 ts) err ?P)" for errs ts
        using d3(2) [of ts] by (cases errs) simp_all
      show ?thesis
        unfolding run add cont sch and_then_Returns by (fastforce split: option.splits prod.splits)
    qed
  qed
qed

lemma remove_alone:
  assumes p: "pointers_ok s"
  shows "call_ends L w env (Removing i) s err (\<lambda>s'. deref w s' = w') \<longleftrightarrow>
    RemoveWatcher L (\<lambda>_. ce_close env) i (deref w s) = Returns (err, w')"
proof -
  let ?P = "\<lambda>s'. deref w s' = w'"
  define s1 where "s1 = s\<lparr>sh_watchers := AList.delete i (sh_watchers s)\<rparr>"
  have d1: "deref w s1 = (deref w s)\<lparr>wj_watchers := AList.delete i (wj_watchers (deref w s))\<rparr>"
    by (simp add: s1_def deref_simps)
  show ?thesis
  proof (cases "reg_of s i")
    case None
    then have "remove_take i s = (Returned (new_error (''watcher with ID '' @ i @ '' not found'')), s1)"
      by (simp add: remove_take_def sm_LoadAndDelete_def reg_of_def s1_def)
    then show ?thesis
      using None deref_load [of w s i] d1 by (auto simp: RemoveWatcher_def sm_LoadAndDelete_def)
  next
    case (Some r)
    let ?x = "sh_heap s r"
    let ?close = "each_task task_Close (ce_close env) 0 None (w_Tasks ?x)"
    let ?s2 = "\<lambda>ts. set_watcher r (?x\<lparr>w_doneChan := Some True, w_Tasks := ts\<rparr>) s1"
    have take: "remove_take i s = (Ending i r, s1)"
      using Some by (simp add: remove_take_def sm_LoadAndDelete_def reg_of_def s1_def)
    have h1: "sh_heap s1 r = ?x" "done_of s1 r = w_doneChan ?x" by (simp_all add: s1_def done_of_def)
    have open_done: "w_doneChan ?x = Some False" using p Some by (auto simp: pointers_ok_def done_of_def)
    have gone: "r \<notin> set (map snd (sh_watchers s1))"
    proof
      assume "r \<in> set (map snd (sh_watchers s1))"
      then obtain k where k: "(k, r) \<in> set (sh_watchers s1)" by auto
      have di: "distinct (map fst (sh_watchers s1))" using p by (simp add: pointers_ok_def s1_def distinct_delete)
      have "map_of (sh_watchers s1) k = Some r" using map_of_is_SomeI [OF di k] .
      then have "k \<noteq> i" "reg_of s k = Some r" by (auto simp: s1_def reg.load_delete reg_of_def split: if_splits)
      with Some p show False by (auto simp: pointers_ok_def)
    qed
    have d2: "deref w (?s2 ts) = deref w s1" "sh_taskManager (?s2 ts) = wj_taskManager (deref w s)" for ts
      using gone by (simp_all add: deref_simps) (simp add: s1_def deref_def)
    have run: "call_ends L w env (Removing i) s err ?P \<longleftrightarrow>
        (\<exists>errs ts. ?close = Returns (errs, ts) \<and>
          call_ends L w env (case errs of Some e \<Rightarrow> Returned (Some e) | None \<Rightarrow> Dropping i) (?s2 ts) err ?P)"
      by (simp add: take call_ends_Ending call_ends_Stopping h1 open_done)
    have drop: "call_ends L w env (Dropping i) (?s2 ts) err ?P \<longleftrightarrow>
        (case tl_RemoveJob L i (wj_taskManager (deref w s)) of
           (Some e, tm) \<Rightarrow> Some (Errorf ''error removing watcher: '' e) = err \<and> (deref w s1)\<lparr>wj_taskManager := tm\<rparr> = w'
         | (None, tm) \<Rightarrow> None = err \<and> (deref w s1)\<lparr>wj_taskManager := tm\<rparr> = w')" for ts
      using d2 [of ts] by (auto simp: remove_job_def deref_simps(2) split: prod.splits option.splits)
    have rem: "RemoveWatcher L (\<lambda>_. ce_close env) i (deref w s) = and_then ?close (\<lambda>(errs, ts).
        case errs of
          Some e \<Rightarrow> Returns (Some e, deref w s1)
        | None \<Rightarrow>
            (case tl_RemoveJob L i (wj_taskManager (deref w s)) of
               (Some e, tm) \<Rightarrow> Returns (Some (Errorf ''error removing watcher: '' e), (deref w s1)\<lparr>wj_taskManager := tm\<rparr>)
             | (None, tm) \<Rightarrow> Returns (None, (deref w s1)\<lparr>wj_taskManager := tm\<rparr>)))"
      using Some deref_load [of w s i] open_done
      by (cases ?close) (simp_all add: RemoveWatcher_def sm_LoadAndDelete_def watcher_close_def d1 split_beta split: option.split)
    have cont: "call_ends L w env (case errs of Some e \<Rightarrow> Returned (Some e) | None \<Rightarrow> Dropping i) (?s2 ts) err ?P \<longleftrightarrow>
        (case errs of Some e \<Rightarrow> Some e = err \<and> deref w s1 = w' | None \<Rightarrow> call_ends L w env (Dropping i) (?s2 ts) err ?P)"
      for errs ts
      using d2(1) [of ts] by (cases errs) simp_all
    show ?thesis
      unfolding run rem cont drop and_then_Returns by (fastforce split: option.splits prod.splits)
  qed
qed

text \<open>
  The steps are the two functions. When the steps of a call run with no step of another call in
  between, adding the watcher at \<open>r\<close> returns an error and leaves a watcher and a Wadjit exactly if
  \<open>AddWatcher\<close> does so on the Wadjit behind the pointers, and removing likewise with \<open>RemoveWatcher\<close>.
\<close>

lemma steps_are_calls:
  assumes "pointers_ok s"
  shows "(r \<notin> set (map snd (sh_watchers s)) \<longrightarrow>
      ((\<exists>s'. call_run L w env (Adding r) s (Returned err) s' \<and> sh_heap s' r = x \<and> deref w s' = w') \<longleftrightarrow>
       AddWatcher L (ce_add env) (Some (sh_heap s r)) (deref w s) = Returns (err, Some x, w'))) \<and>
    ((\<exists>s'. call_run L w env (Removing i) s (Returned err) s' \<and> deref w s' = w') \<longleftrightarrow>
     RemoveWatcher L (\<lambda>_. ce_close env) i (deref w s) = Returns (err, w'))"
  using add_alone [of r s L w env err x w'] remove_alone [OF assms, of L w env i err w']
  by (simp add: call_ends_def)

section \<open>A removal during an addition\<close>

lemma calls_run_call:
  assumes "call_run L w env c s c' s'"
  shows "calls_run L w cs0 s0 cs s \<Longrightarrow> k < length cs \<Longrightarrow> cs ! k = c \<Longrightarrow> calls_run L w cs0 s0 (cs[k := c']) s'"
  using assms
proof (induction arbitrary: cs)
  case (call_refl c s)
  then show ?case by (metis list_update_id)
next
  case (call_step c s c1 s1 c2 s2)
  have "calls_run L w cs0 s0 (cs[k := c1]) s1"
    by (rule turns_step [OF call_step.prems(1,2)]) (use call_step in simp)
  from call_step.IH [OF this] call_step.prems show ?case by simp
qed

lemma remove_succeeds:
  assumes "reg_of s i = Some r" "done_of s r = Some False"
    and "each_task task_Close (ce_close env) 0 None (w_Tasks (sh_heap s r)) = Returns (None, ts)"
    and "tl_RemoveJob L i (sh_taskManager s) = (None, tm)"
  shows "call_run L w env (Removing i) s (Returned None)
    ((set_watcher r ((sh_heap s r)\<lparr>w_doneChan := Some True, w_Tasks := ts\<rparr>)
        (s\<lparr>sh_watchers := AList.delete i (sh_watchers s)\<rparr>))\<lparr>sh_taskManager := tm\<rparr>)" (is "call_run L w env _ s _ ?s'")
proof -
  have "call_ends L w env (Removing i) s None (\<lambda>s'. s' = ?s')"
    using assms by (simp add: remove_take_def sm_LoadAndDelete_def reg_of_def[symmetric] call_ends_Ending
        call_ends_Stopping remove_job_def)
  then show ?thesis by (simp add: call_ends_def)
qed

text \<open>
  C29. A removal may come between the scheduling of a job and the final \<^verbatim>\<open>Store\<close> of the \<^verbatim>\<open>AddWatcher\<close> that
  scheduled it. If it succeeds, both calls return nil, but the watcher is registered again without a
  job and with its done channel closed. From then on removing it panics, and neither \<^verbatim>\<open>Clear\<close> nor
  \<^verbatim>\<open>Close\<close> gets through.
\<close>

theorem removed_during_add:
  fixes env :: call_env
  assumes "taskman_contract L jobs" and "pointers_ok s"
    and "a < length cs" "cs ! a = Keeping r" and "b < length cs" "cs ! b = Removing i"
    and "reg_of s i = Some r"
    and "RemoveWatcher L (\<lambda>_. ce_close env) i (deref w s) = Returns (None, w1)"
    and "\<And>xs. mset (ord xs) = mset xs"
  shows "\<exists>cs' s'. calls_run L w cs s cs' s' \<and> cs' ! a = Returned None \<and> cs' ! b = Returned None \<and>
    reg_of s' i = Some r \<and> i \<notin> jobs (sh_taskManager s') \<and>
    RemoveWatcher L cenv i (deref w s') = Panics \<and>
    (\<nexists>err w'. Clear L cenv ord (deref w s') = Returns (err, w')) \<and>
    (\<nexists>w'. close_begin L cenv ord ((deref w s')\<lparr>wj_close := Closing\<rparr>) = Returns w')"
proof -
  let ?x = "sh_heap s r" and ?m = "AList.delete i (sh_watchers s)"
  have x: "id_of s r = i" "done_of s r = Some False" using assms(2,7) by (simp_all add: pointers_ok_def)
  have m: "map_of (wj_watchers (deref w s)) i = Some ?x" using assms(7) by (simp add: deref_load)
  from assms(8) obtain y tm where c: "watcher_close (ce_close env) ?x = Returns (None, y)"
    and t: "tl_RemoveJob L i (wj_taskManager (deref w s)) = (None, tm)"
    by (cases rule: RemoveWatcher_cases) (use m in auto)
  obtain ts where ts: "each_task task_Close (ce_close env) 0 None (w_Tasks ?x) = Returns (None, ts)"
    using c by (auto simp: watcher_close_def run_iff split: if_splits)
  have tm: "tl_RemoveJob L i (sh_taskManager s) = (None, tm)" using t by (simp add: deref_def)
  let ?x1 = "?x\<lparr>w_doneChan := Some True, w_Tasks := ts\<rparr>"
  let ?s1 = "(set_watcher r ?x1 (s\<lparr>sh_watchers := ?m\<rparr>))\<lparr>sh_taskManager := tm\<rparr>"
  let ?s2 = "?s1\<lparr>sh_watchers := sm_Store i r ?m\<rparr>"
  have "a \<noteq> b" using assms(4,6) by auto
  have r1: "calls_run L w cs s (cs[b := Returned None]) ?s1"
    by (rule calls_run_call [OF remove_succeeds [OF assms(7) x(2) ts tm] turns_refl assms(5,6)])
  have "call_next L w env (Keeping r) ?s1 = Returns (Returned None, ?s2)"
    using x(1) by (simp add: add_keep_def id_of_def)
  then have r2: "calls_run L w cs s (cs[b := Returned None, a := Returned None]) ?s2"
    using \<open>a \<noteq> b\<close> assms(3,4) by (intro turns_step [OF r1]) simp_all
  have reg2: "reg_of ?s2 i = Some r" by (simp add: reg.load_store)
  have load: "map_of (wj_watchers ((deref w ?s2)\<lparr>wj_close := cl\<rparr>)) i = Some ?x1"
    "map_of (wj_watchers (deref w ?s2)) i = Some ?x1" for cl
    using reg2 deref_load [of w ?s2 i] by simp_all
  have panics: "watcher_close e ?x1 = Panics" for e by (simp add: watcher_close_def)
  then have never: "watcher_close (cenv i) ?x1 \<noteq> Returns q" for q by simp
  have gone: "i \<notin> jobs (sh_taskManager ?s2)"
    using taskman_contractD(3) [OF assms(1) tm] by simp
  have pan: "RemoveWatcher L cenv i (deref w ?s2) = Panics"
    using load(2) by (simp add: RemoveWatcher_def sm_LoadAndDelete_def panics)
  show ?thesis
    using r2 reg2 gone pan \<open>a \<noteq> b\<close> assms(3,5)
      unclosable_blocks [where cenv = cenv and L = L, OF load(1) never assms(9)]
      unclosable_blocks [where cenv = cenv and L = L, OF load(2) never assms(9)]
    by (intro exI [of _ "cs[b := Returned None, a := Returned None]"] exI [of _ ?s2] conjI) simp_all
qed

theorem removed_during_add_witness:
  "\<exists>cs s. calls_run example_taskman (example_wadjit 1) [Keeping 0, Removing ''w'']
       \<lparr>sh_watchers = [(''w'', 0)], sh_heap = (\<lambda>r. example_watcher None None), sh_taskManager = [''w'']\<rparr> cs s \<and>
     cs ! 0 = Returned None \<and> cs ! 1 = Returned None \<and>
     RemoveWatcher example_taskman (\<lambda>i j. undefined) ''w'' (deref (example_wadjit 1) s) = Panics"
proof -
  let ?s = "\<lparr>sh_watchers = [(''w'', 0)], sh_heap = (\<lambda>r :: nat. example_watcher None None), sh_taskManager = [''w'']\<rparr>"
  fix env :: call_env
  let ?w1 = "(deref (example_wadjit 1) ?s)\<lparr>wj_watchers := [], wj_taskManager := []\<rparr>"
  have p: "pointers_ok ?s" "reg_of ?s ''w'' = Some 0"
    by (auto simp: pointers_ok_def reg_of_def id_of_def done_of_def example_watcher_def split: if_splits)
  have r: "RemoveWatcher example_taskman (\<lambda>_. ce_close env) ''w'' (deref (example_wadjit 1) ?s) = Returns (None, ?w1)"
    by (simp add: RemoveWatcher_def sm_LoadAndDelete_def deref_def example_close join_into_def example_taskman_def Let_def)
  show ?thesis
    using removed_during_add [where cenv = "\<lambda>i j. undefined" and ord = "\<lambda>ids. ids", OF example_contract p(1) _ _ _ _ p(2) r,
        of 0 "[Keeping 0, Removing ''w'']" 1] by auto
qed

section \<open>An example batch\<close>

definition example_shared :: "nat sync_map \<Rightarrow> string list \<Rightarrow> (nat, string list) shared" where
  "example_shared m tm = \<lparr>sh_watchers = m, sh_heap = (\<lambda>r. example_watcher None None), sh_taskManager = tm\<rparr>"

lemma example_shared_simps [simp]:
  "sh_watchers (example_shared m tm) = m" "sh_heap (example_shared m tm) r = example_watcher None None"
  "sh_taskManager (example_shared m tm) = tm" "reg_of (example_shared m tm) = map_of m"
  "id_of (example_shared m tm) r = ''w''" "done_of (example_shared m tm) r = Some False"
  "set_watcher r (example_watcher None None) (example_shared m tm) = example_shared m tm"
  "(example_shared m tm)\<lparr>sh_watchers := m'\<rparr> = example_shared m' tm"
  "(example_shared m tm)\<lparr>sh_taskManager := tm'\<rparr> = example_shared m tm'"
  by (simp_all add: example_shared_def reg_of_def id_of_def done_of_def set_watcher_def example_watcher_def fun_upd_def)

lemma example_start_loop:
  "each_task (\<lambda>te. task_Initialize te i) env 0 None (w_Tasks (example_watcher None None)) =
     Returns (None, w_Tasks (example_watcher None None))"
  by (simp add: example_watcher_def example_task_def task_Initialize_def join_into_def)

lemma example_calls:
  "call_run example_taskman (example_wadjit 1) env (Adding 0) (example_shared [] []) (Returned None)
     (example_shared [(''w'', 0)] [''w''])"
  "call_run example_taskman (example_wadjit 1) env (Adding 1) (example_shared [(''w'', 0)] [''w''])
     (Returned (new_error (''watcher with ID '' @ quoted ''w'' @ '' already exists''))) (example_shared [(''w'', 0)] [''w''])"
proof -
  let ?x = "example_watcher None None"
  have w: "w_ID ?x = ''w''" "w_doneChan ?x = Some False" "?x\<lparr>w_Tasks := w_Tasks ?x\<rparr> = ?x"
    by (simp_all add: example_watcher_def)
  have t: "tl_ScheduleJob example_taskman (watcher_job now ?x) [] = (None, [''w''])" for now
    by (simp add: example_taskman_def watcher_job_def w)
  have "call_ends example_taskman (example_wadjit 1) env (Adding 0) (example_shared [] []) None
      (\<lambda>s. s = example_shared [(''w'', 0)] [''w''])"
    by (simp add: add_validate_def example_default example_Validate add_store_def sm_LoadOrStore_def sm_Store_def w
        start_open_def call_ends_Starting example_start_loop add_schedule_def add_keep_def t)
  then show "call_run example_taskman (example_wadjit 1) env (Adding 0) (example_shared [] []) (Returned None)
     (example_shared [(''w'', 0)] [''w''])" by (simp add: call_ends_def)
  have "call_ends example_taskman (example_wadjit 1) env (Adding 1) (example_shared [(''w'', 0)] [''w''])
      (new_error (''watcher with ID '' @ quoted ''w'' @ '' already exists'')) (\<lambda>s. s = example_shared [(''w'', 0)] [''w''])"
    by (simp add: add_validate_def example_default example_Validate add_store_def sm_LoadOrStore_def w Let_def)
  then show "call_run example_taskman (example_wadjit 1) env (Adding 1) (example_shared [(''w'', 0)] [''w''])
     (Returned (new_error (''watcher with ID '' @ quoted ''w'' @ '' already exists''))) (example_shared [(''w'', 0)] [''w''])"
    by (simp add: call_ends_def)
qed

theorem concurrent_batch_correct_witness:
  "\<exists>cs s. calls_run example_taskman (example_wadjit 1) [Adding 0, Adding 1] (example_shared [] []) cs s \<and>
     cs ! 0 = Returned None \<and> cs ! 1 \<noteq> Returned None \<and> reg_of s ''w'' = Some 0 \<and> ''w'' \<in> set (sh_taskManager s)"
proof -
  let ?s0 = "example_shared [] []" and ?s1 = "example_shared [(''w'', 0)] [''w'']"
  let ?e = "new_error (''watcher with ID '' @ quoted ''w'' @ '' already exists'')"
  let ?L = example_taskman and ?w = "example_wadjit 1"
  have "calls_run ?L ?w [Adding 0, Adding 1] ?s0 [Returned None, Adding 1] ?s1"
    using calls_run_call [OF example_calls(1) turns_refl, where k = 0 and cs = "[Adding 0, Adding 1]"] by simp
  from calls_run_call [OF example_calls(2) this, where k = 1]
  have r: "calls_run ?L ?w [Adding 0, Adding 1] ?s0 [Returned None, Returned ?e] ?s1" by simp
  have b: "batch_ok ?s0 [Adding 0, Adding 1]"
    by (auto simp: batch_ok_def pointers_ok_def added_refs_def removed_ids_def less_Suc_eq nth_Cons')
  have "reg_of ?s1 ''w'' = Some 0 \<and> ''w'' \<in> set (sh_taskManager ?s1)"
    using concurrent_batch_correct [OF r example_contract b] by auto
  then show ?thesis
    using r by (intro exI [of _ "[Returned None, Returned ?e]"] exI [of _ ?s1]) (simp add: new_error_def)
qed

text \<open>The same watcher added twice and removed, at a moment in the middle.\<close>

theorem registry_invariant_witness:
  "\<exists>s. calls_run example_taskman (example_wadjit 1) [Adding 0, Adding 0, Removing ''w''] (example_shared [] [])
       [Returned None, Adding 0, Removing ''w''] s \<and>
     distinct (WatcherIDs (\<lambda>xs. xs) (deref (example_wadjit 1) s))"
proof -
  let ?L = example_taskman and ?w = "example_wadjit 1" and ?s1 = "example_shared [(''w'', 0)] [''w'']"
  have r: "calls_run ?L ?w [Adding 0, Adding 0, Removing ''w''] (example_shared [] [])
      [Returned None, Adding 0, Removing ''w''] ?s1"
    using calls_run_call [OF example_calls(1) turns_refl, where k = 0 and cs = "[Adding 0, Adding 0, Removing ''w'']"] by simp
  have "registry_wf (example_shared [] [])" by (simp add: registry_wf_def)
  from registry_invariant [OF r this, of "\<lambda>xs. xs"] r show ?thesis by auto
qed

end
