(* ===== verification/Response_Concurrent.thy ===== *)
theory Response_Concurrent
  imports Response Turns
begin

text \<open>
  \<^verbatim>\<open>Data\<close> and \<^verbatim>\<open>Reader\<close> of one HTTP response (\<^verbatim>\<open>response.go\<close>) called from several goroutines. The calls are
  cut at their atomic operations: the loads and stores of the atomic flags and the \<^verbatim>\<open>sync.Once\<close> of
  \<^verbatim>\<open>Data\<close>, whose function runs once while the other callers wait. \<^verbatim>\<open>readBody\<close> is one step, which ends with
  the store of the flag for the memory; what is read from a stream meanwhile is left out.
\<close>

section \<open>Calls\<close>

text \<open>\<open>sr_running\<close>: the function of the \<^verbatim>\<open>sync.Once\<close> has begun and not ended.\<close>

record shared_response =
  sr_h :: httpTaskResponse
  sr_running :: bool

text \<open>
  \<^verbatim>\<open>Data\<close> stands before the load of \<^verbatim>\<open>usedReader\<close>, before \<^verbatim>\<open>once.Do\<close>, inside its function, before
  its return, or has returned; \<^verbatim>\<open>Reader\<close> before \<^verbatim>\<open>dataDone()\<close>, on the branch of the memory, before
  the load and before the store of \<^verbatim>\<open>usedReader\<close>, or has returned.
\<close>

datatype response_call =
    DataCheck | DataOnce | DataRead | DataGet | DataDone bytes go_err
  | ReaderCheck | ReaderMemory | ReaderUsed | ReaderStore | ReaderDone "reader option" go_err

definition data_check :: "shared_response \<Rightarrow> response_call \<times> shared_response" where
  "data_check s = (if h_usedReader (sr_h s) then DataDone [] (Some data_after_reader) else DataOnce, s)"

definition data_once :: "shared_response \<Rightarrow> (response_call \<times> shared_response) outcome" where
  "data_once s =
     (if sr_running s then Blocks
      else if h_once (sr_h s) then Returns (DataGet, s)
      else Returns (DataRead, s\<lparr>sr_h := (sr_h s)\<lparr>h_once := True\<rparr>, sr_running := True\<rparr>))"

definition data_read :: "gotime \<Rightarrow> shared_response \<Rightarrow> (response_call \<times> shared_response) outcome" where
  "data_read now s =
     (case readBody now (sr_h s) of
        None \<Rightarrow> Panics
      | Some h1 \<Rightarrow> Returns (DataGet, s\<lparr>sr_h := h1, sr_running := False\<rparr>))"

definition data_get :: "shared_response \<Rightarrow> response_call \<times> shared_response" where
  "data_get s = (DataDone (h_data (sr_h s)) (h_dataErr (sr_h s)), s)"

definition reader_check :: "shared_response \<Rightarrow> response_call \<times> shared_response" where
  "reader_check s = (if dataDone (sr_h s) then ReaderMemory else ReaderUsed, s)"

definition reader_memory :: "shared_response \<Rightarrow> response_call \<times> shared_response" where
  "reader_memory s =
     (if h_dataErr (sr_h s) \<noteq> None then ReaderDone None (h_dataErr (sr_h s))
      else ReaderDone (Some (MemReader (h_data (sr_h s)))) None, s)"

definition reader_used :: "shared_response \<Rightarrow> response_call \<times> shared_response" where
  "reader_used s =
     (if h_usedReader (sr_h s) then ReaderDone None (Some (ErrorString ''reader already called'')) else ReaderStore, s)"

definition reader_store :: "shared_response \<Rightarrow> (response_call \<times> shared_response) outcome" where
  "reader_store s =
     (case h_resp (sr_h s) of
        None \<Rightarrow> Panics
      | Some rs \<Rightarrow>
          Returns (if rs_Body rs = None then ReaderDone None (Some body_nil) else ReaderDone (Some (TimedReader False)) None,
                   s\<lparr>sr_h := (sr_h s)\<lparr>h_usedReader := True\<rparr>\<rparr>))"

fun response_next :: "gotime \<Rightarrow> response_call \<Rightarrow> shared_response \<Rightarrow> (response_call \<times> shared_response) outcome" where
  "response_next now DataCheck s = Returns (data_check s)"
| "response_next now DataOnce s = data_once s"
| "response_next now DataRead s = data_read now s"
| "response_next now DataGet s = Returns (data_get s)"
| "response_next now (DataDone bs err) s = Blocks"
| "response_next now ReaderCheck s = Returns (reader_check s)"
| "response_next now ReaderMemory s = Returns (reader_memory s)"
| "response_next now ReaderUsed s = Returns (reader_used s)"
| "response_next now ReaderStore s = reader_store s"
| "response_next now (ReaderDone rd err) s = Blocks"

abbreviation responses_run ::
    "response_call list \<Rightarrow> shared_response \<Rightarrow> response_call list \<Rightarrow> shared_response \<Rightarrow> bool" where
  "responses_run \<equiv> turns response_next"

definition shared_of :: "httpTaskResponse \<Rightarrow> shared_response" where
  "shared_of h = \<lparr>sr_h = h, sr_running = False\<rparr>"

text \<open>Without interleaving the steps are the calls of \<open>Response\<close>.\<close>

lemma alone:
  assumes "run_schedule response_next (map (\<lambda>k. (now, 0)) [0..<n]) [c] (shared_of h) = Some ([c'], s')"
  shows "responses_run [c] (shared_of h) [c'] s'"
  using run_schedule_turns [OF assms] .

lemma data_alone:
  assumes "http_Data now h = Some ((bs, err), h1)"
  shows "responses_run [DataCheck] (shared_of h) [DataDone bs err] (shared_of h1)"
proof (cases "h_usedReader h")
  case True
  then show ?thesis
    using assms by (intro alone [where now = now and n = 1]) (auto simp: http_Data_def shared_of_def data_check_def)
next
  case False
  show ?thesis
  proof (cases "h_once h")
    case True
    then show ?thesis
      using assms False by (intro alone [where now = now and n = 3])
        (auto simp: http_Data_def shared_of_def data_check_def data_once_def data_get_def upt_rec)
  next
    case False
    then show ?thesis
      using assms \<open>\<not> h_usedReader h\<close> by (intro alone [where now = now and n = 4])
        (auto simp: http_Data_def shared_of_def data_check_def data_once_def data_get_def data_read_def upt_rec
          run_iff)
  qed
qed

lemma reader_alone:
  assumes "http_Reader h = Some ((rd, err), h1)"
  shows "responses_run [ReaderCheck] (shared_of h) [ReaderDone rd err] (shared_of h1)"
proof (cases "h_dataOnce h")
  case True
  then show ?thesis
    using assms by (intro alone [where now = zero_time and n = 2])
      (auto simp: http_Reader_def shared_of_def reader_check_def reader_memory_def upt_rec
        dest: sym split: if_splits)
next
  case nd: False
  show ?thesis
  proof (cases "h_usedReader h")
    case True
    then show ?thesis
      using assms nd by (intro alone [where now = zero_time and n = 2])
        (auto simp: http_Reader_def shared_of_def reader_check_def reader_used_def upt_rec)
  next
    case False
    then show ?thesis
      using assms nd by (intro alone [where now = zero_time and n = 3])
        (auto simp: http_Reader_def shared_of_def reader_check_def reader_used_def reader_store_def upt_rec
          run_iff split: option.splits)
  qed
qed

section \<open>The invariant\<close>

text \<open>What a single \<^verbatim>\<open>Data\<close> on a fresh response returns.\<close>

definition whole_result :: "body \<Rightarrow> httpTaskResponse \<Rightarrow> bytes \<times> go_err" where
  "whole_result b h0 = (if bd_end b = Sentinel IoEOF then (bd_rest b, None) else (h_data h0, Some (bd_end b)))"

lemma http_Data_whole:
  assumes "fresh_http rs b h0"
  shows "\<exists>h1. http_Data now h0 = Some (whole_result b h0, h1)"
  using http_Data_fresh [OF assms, of now] by (auto simp: whole_result_def)

text \<open>
  Before the body has been read the response is the fresh one but for the flags; afterwards it holds
  the result, and the flag for the memory exactly if there was no error.
\<close>

definition shared_ok :: "http_response \<Rightarrow> body \<Rightarrow> httpTaskResponse \<Rightarrow> shared_response \<Rightarrow> bool" where
  "shared_ok rs b h0 s \<longleftrightarrow>
     (if h_once (sr_h s) \<and> \<not> sr_running s
      then (h_data (sr_h s), h_dataErr (sr_h s)) = whole_result b h0 \<and> h_resp (sr_h s) \<noteq> None \<and>
        (\<exists>rs1. h_resp (sr_h s) = Some rs1 \<and> rs_Body rs1 = Some (b\<lparr>bd_rest := [], bd_closed := True\<rparr>)) \<and>
        (h_dataOnce (sr_h s) \<longleftrightarrow> bd_end b = Sentinel IoEOF)
      else h_data (sr_h s) = h_data h0 \<and> h_dataErr (sr_h s) = None \<and> \<not> h_dataOnce (sr_h s) \<and>
        h_resp (sr_h s) = Some rs) \<and>
     (sr_running s \<longrightarrow> h_once (sr_h s))"

fun call_ok :: "body \<Rightarrow> httpTaskResponse \<Rightarrow> shared_response \<Rightarrow> response_call \<Rightarrow> bool" where
  "call_ok b h0 s DataRead = (sr_running s)"
| "call_ok b h0 s DataGet = (h_once (sr_h s) \<and> \<not> sr_running s)"
| "call_ok b h0 s (DataDone bs err) =
     ((bs, err) = whole_result b h0 \<or> h_usedReader (sr_h s) \<and> bs = [] \<and> err = Some data_after_reader)"
| "call_ok b h0 s ReaderMemory = (h_once (sr_h s) \<and> \<not> sr_running s \<and> bd_end b = Sentinel IoEOF)"
| "call_ok b h0 s (ReaderDone rd err) =
     (rd = Some (MemReader (fst (whole_result b h0))) \<and> err = None \<and> snd (whole_result b h0) = None \<or>
      rd = Some (TimedReader False) \<and> err = None \<and> h_usedReader (sr_h s) \<or>
      rd = None \<and> err = Some (ErrorString ''reader already called'') \<and> h_usedReader (sr_h s))"
| "call_ok b h0 s c = True"

lemma step_shared_ok:
  assumes "fresh_http rs b h0" "shared_ok rs b h0 s" "call_ok b h0 s c" "response_next now c s = Returns (c', s')"
  shows "shared_ok rs b h0 s' \<and> call_ok b h0 s' c'"
proof (cases c)
  case DataRead
  then have r: "sr_running s" using assms(3) by simp
  then have o: "h_once (sr_h s)" "h_data (sr_h s) = h_data h0" "h_dataErr (sr_h s) = None" "\<not> h_dataOnce (sr_h s)"
    "h_resp (sr_h s) = Some rs"
    using assms(2) by (auto simp: shared_ok_def)
  have b: "rs_Body rs = Some b" "\<not> bd_closed b" using assms(1) by (simp_all add: fresh_http_def)
  show ?thesis
    using assms(4) DataRead o b
    by (auto simp: data_read_def readBody_def io_ReadAll_def io_Drain_def body_Close_def shared_ok_def whole_result_def
        split: if_splits)
next
  case ReaderStore
  then show ?thesis
    using assms by (auto simp: reader_store_def shared_ok_def fresh_http_def split: option.splits if_splits)
qed (use assms in \<open>auto simp: data_check_def data_once_def data_get_def reader_check_def reader_memory_def reader_used_def
      shared_ok_def whole_result_def split: if_splits\<close>)

lemma step_other_call_ok:
  assumes "call_ok b h0 s c" "call_ok b h0 s d" "\<not> (c = DataRead \<and> d = DataRead)"
    "response_next now c s = Returns (c', s')"
  shows "call_ok b h0 s' d \<and> \<not> (c' = DataRead \<and> d = DataRead)"
  using assms readBody_props [of now "sr_h s"]
  by (cases c; cases d)
    (auto simp: data_check_def data_once_def data_get_def data_read_def reader_check_def reader_memory_def
      reader_used_def reader_store_def split: if_splits option.splits)

interpretation response: taking_turns response_next "shared_ok rs b h0"
    "\<lambda>(g :: unit) s c. call_ok b h0 s c \<and> fresh_http rs b h0" "\<lambda>g c h d. \<not> (c = DataRead \<and> d = DataRead)"
  for rs b h0
proof
  show "shared_ok rs b h0 s' \<and> call_ok b h0 s' c' \<and> fresh_http rs b h0"
    if "shared_ok rs b h0 s" "call_ok b h0 s c \<and> fresh_http rs b h0" "response_next now c s = Returns (c', s')"
    for s c now c' s'
    using step_shared_ok that by blast
  show "(call_ok b h0 s' d \<and> fresh_http rs b h0) \<and> \<not> (c' = DataRead \<and> d = DataRead)"
    if "call_ok b h0 s c \<and> fresh_http rs b h0" "call_ok b h0 s d \<and> fresh_http rs b h0"
      "\<not> (c = DataRead \<and> d = DataRead)" "response_next now c s = Returns (c', s')" for s c d now c' s'
    using step_other_call_ok that by blast
qed auto

section \<open>Progress\<close>

fun call_rank :: "response_call \<Rightarrow> nat" where
  "call_rank DataCheck = 4"
| "call_rank DataOnce = 3"
| "call_rank DataRead = 2"
| "call_rank DataGet = 1"
| "call_rank (DataDone bs err) = 0"
| "call_rank ReaderCheck = 3"
| "call_rank ReaderMemory = 1"
| "call_rank ReaderUsed = 2"
| "call_rank ReaderStore = 1"
| "call_rank (ReaderDone rd err) = 0"

lemma rank_returned:
  "call_rank c = 0 \<Longrightarrow> (\<exists>bs err. c = DataDone bs err) \<or> (\<exists>rd err. c = ReaderDone rd err)"
  by (cases c) auto

lemma step_rank: "response_next now c s = Returns (c', s') \<Longrightarrow> call_rank c' < call_rank c"
  by (cases c)
    (auto simp: data_check_def data_once_def data_get_def data_read_def reader_check_def reader_memory_def
      reader_used_def reader_store_def split: if_splits option.splits)

lemma step_running:
  "response_next now c s = Returns (c', s') \<Longrightarrow> sr_running s' \<Longrightarrow> c' = DataRead \<or> sr_running s \<and> c \<noteq> DataRead"
  by (cases c)
    (auto simp: data_check_def data_once_def data_get_def data_read_def reader_check_def reader_memory_def
      reader_used_def reader_store_def split: if_splits option.splits)

lemma run_running:
  assumes "responses_run cs s cs' s'" "sr_running s \<longrightarrow> DataRead \<in> set cs"
  shows "sr_running s' \<longrightarrow> DataRead \<in> set cs'"
  using assms
proof (induction rule: turns.induct)
  case (turns_step cs s cs1 s1 k e c s2)
  show ?case
  proof
    assume "sr_running s2"
    with step_running [OF turns_step.hyps(3)]
    consider "c = DataRead" | "sr_running s1" "cs1 ! k \<noteq> DataRead" by blast
    then show "DataRead \<in> set (cs1[k := c])"
    proof cases
      case 1
      then show ?thesis using turns_step.hyps(2) by (simp add: set_update_memI)
    next
      case 2
      then have "DataRead \<in> set cs1" using turns_step by blast
      then obtain j where "j < length cs1" "cs1 ! j = DataRead" by (auto simp: in_set_conv_nth)
      with 2(2) have "(cs1[k := c]) ! j = DataRead" "j < length (cs1[k := c])"
        using nth_list_update_neq [of k j cs1 c] by (cases "k = j"; simp)+
      then show ?thesis by (metis nth_mem)
    qed
  qed
qed

text \<open>A call that has not returned can move, unless it waits for the reading of the body.\<close>

lemma can_move:
  assumes "shared_ok rs b h0 s" "call_rank c > 0" "\<not> (c = DataOnce \<and> sr_running s)"
  shows "\<exists>c' s'. response_next now c s = Returns (c', s')"
proof -
  obtain rs1 where "h_resp (sr_h s) = Some rs1" using assms(1) by (auto simp: shared_ok_def split: if_splits)
  then show ?thesis
    using assms(2,3) readBody_total [of "sr_h s" now]
    by (cases c) (auto simp: data_check_def data_once_def data_get_def data_read_def reader_check_def
      reader_memory_def reader_used_def reader_store_def split: if_splits option.splits)
qed

lemma some_call_moves:
  assumes "shared_ok rs b h0 s" "sr_running s \<longrightarrow> DataRead \<in> set cs" "\<exists>c \<in> set cs. call_rank c > 0"
  shows "\<exists>k c' s'. k < length cs \<and> response_next now (cs ! k) s = Returns (c', s')"
proof -
  have "\<exists>c \<in> set cs. call_rank c > 0 \<and> \<not> (c = DataOnce \<and> sr_running s)"
  proof (cases "sr_running s")
    case True
    with assms(2) show ?thesis by (intro bexI [where x = DataRead]) auto
  qed (use assms(3) in auto)
  then show ?thesis using can_move [OF assms(1)] by (metis in_set_conv_nth)
qed

definition total_rank :: "response_call list \<Rightarrow> nat" where
  "total_rank cs = sum_list (map call_rank cs)"

lemma total_rank_update: "k < length cs \<Longrightarrow> call_rank c < call_rank (cs ! k) \<Longrightarrow> total_rank (cs[k := c]) < total_rank cs"
proof (induction cs arbitrary: k)
  case (Cons a cs)
  then show ?case by (cases k) (auto simp: total_rank_def)
qed (simp add: total_rank_def)

lemma run_completes:
  assumes "response.together rs b h0 gs cs s" "sr_running s \<longrightarrow> DataRead \<in> set cs"
  shows "\<exists>cs' s'. responses_run cs s cs' s' \<and> (\<forall>c \<in> set cs'. call_rank c = 0)"
  using assms
proof (induction "total_rank cs" arbitrary: cs s rule: less_induct)
  case less
  show ?case
  proof (cases "\<exists>c \<in> set cs. call_rank c > 0")
    case True
    have "shared_ok rs b h0 s" using less.prems(1) by (rule response.together_glob)
    from some_call_moves [OF this less.prems(2) True, of zero_time]
    obtain k c s1 where k: "k < length cs" and m: "response_next zero_time (cs ! k) s = Returns (c, s1)" by blast
    have run: "responses_run cs s (cs[k := c]) s1" by (rule turns_one [where move = response_next, OF k m])
    from less.hyps [OF total_rank_update [OF k step_rank [OF m]] response.together_move [OF less.prems(1) k m]
        run_running [OF run less.prems(2)]]
    obtain cs' s' where "responses_run (cs[k := c]) s1 cs' s'" "\<forall>c \<in> set cs'. call_rank c = 0" by blast
    with run turns_trans [where move = response_next] show ?thesis by blast
  qed (auto intro: turns_refl)
qed

section \<open>Properties\<close>

lemma fresh_together:
  assumes "fresh_http rs b h0" "\<forall>c \<in> set cs. c = DataCheck \<or> c = ReaderCheck"
  shows "response.together rs b h0 (replicate (length cs) ()) cs (shared_of h0)"
proof -
  have "shared_ok rs b h0 (shared_of h0)" using assms(1) by (simp add: fresh_http_def shared_ok_def shared_of_def)
  moreover have "call_ok b h0 (shared_of h0) (cs ! k)" "cs ! k \<noteq> DataRead" if "k < length cs" for k
    using assms(2) nth_mem [OF that] by fastforce+
  ultimately show ?thesis
    using assms(1) unfolding taking_turns.together_def [OF response.taking_turns_axioms] by simp
qed

text \<open>
  C17. \<^verbatim>\<open>Data\<close> and \<^verbatim>\<open>Reader\<close> of one response called any number of times at once: in every interleaving
  the body is read at most once, so every \<^verbatim>\<open>Data\<close> that returns has its whole result or is refused
  because a \<^verbatim>\<open>Reader\<close> was taken; every \<^verbatim>\<open>Reader\<close> that returns has the bytes in memory, the stream, or
  is refused; and from every state that is reached all calls can return.
\<close>

theorem concurrent_results:
  assumes "h0 = newHTTPTaskResponse addr (Some rs)" "rs_Body rs = Some b" "\<not> bd_closed b"
    and "\<forall>c \<in> set cs. c = DataCheck \<or> c = ReaderCheck" "responses_run cs (shared_of h0) cs1 s1"
  shows "(\<forall>bs err. DataDone bs err \<in> set cs1 \<longrightarrow>
        (bs, err) = (if bd_end b = Sentinel IoEOF then (bd_rest b, None) else ([], Some (bd_end b))) \<or>
        h_usedReader (sr_h s1) \<and> (bs, err) = ([], Some data_after_reader)) \<and>
      (\<forall>rd err. ReaderDone rd err \<in> set cs1 \<longrightarrow>
        (rd, err) \<in> {(Some (TimedReader False), None), (None, Some (ErrorString ''reader already called''))} \<or>
        bd_end b = Sentinel IoEOF \<and> (rd, err) = (Some (MemReader (bd_rest b)), None)) \<and>
      (\<exists>cs2 s2. responses_run cs1 s1 cs2 s2 \<and>
        (\<forall>c \<in> set cs2. (\<exists>bs err. c = DataDone bs err) \<or> (\<exists>rd err. c = ReaderDone rd err)))"
proof (intro conjI allI impI)
  have fresh: "fresh_http rs b h0" "h_data h0 = []" using assms(1-3) by (simp_all add: fresh_http_def newHTTPTaskResponse_def)
  note t = response.together_turns [OF assms(5) fresh_together [OF fresh(1) assms(4)]]
  have ok: "call_ok b h0 s1 c" if "c \<in> set cs1" for c
    using response.together_loc [OF t that] by blast
  show "(bs, err) = (if bd_end b = Sentinel IoEOF then (bd_rest b, None) else ([], Some (bd_end b))) \<or>
      h_usedReader (sr_h s1) \<and> (bs, err) = ([], Some data_after_reader)" if "DataDone bs err \<in> set cs1" for bs err
    using ok [OF that] fresh(2) by (auto simp: whole_result_def)
  show "(rd, err) \<in> {(Some (TimedReader False), None), (None, Some (ErrorString ''reader already called''))} \<or>
      bd_end b = Sentinel IoEOF \<and> (rd, err) = (Some (MemReader (bd_rest b)), None)"
    if "ReaderDone rd err \<in> set cs1" for rd err
    using ok [OF that] by (auto simp: whole_result_def split: if_splits)
  have "sr_running (shared_of h0) \<longrightarrow> DataRead \<in> set cs" by (simp add: shared_of_def)
  from run_completes [OF t run_running [OF assms(5) this]] obtain cs2 s2
    where r: "responses_run cs1 s1 cs2 s2" "\<forall>c \<in> set cs2. call_rank c = 0" by blast
  have "\<forall>c \<in> set cs2. (\<exists>bs err. c = DataDone bs err) \<or> (\<exists>rd err. c = ReaderDone rd err)"
    using r(2) rank_returned by blast
  with r(1) show "\<exists>cs2 s2. responses_run cs1 s1 cs2 s2 \<and>
        (\<forall>c \<in> set cs2. (\<exists>bs err. c = DataDone bs err) \<or> (\<exists>rd err. c = ReaderDone rd err))"
    by (intro exI conjI)
qed

text \<open>A schedule of calls on the example response: the second \<^verbatim>\<open>Data\<close> waits for the first.\<close>

definition example_calls :: "response_call list" where
  "example_calls = [DataCheck, DataCheck, ReaderCheck]"

definition example_schedule :: "(gotime \<times> nat) list" where
  "example_schedule = map (\<lambda>k. (Instant 1, k)) [0, 1, 0, 0, 1, 1, 2, 2]"

lemma example_schedule_runs:
  "map_option fst (run_schedule response_next example_schedule example_calls (shared_of example_http)) =
     Some [DataGet, DataDone [104, 105] None, ReaderDone (Some (MemReader [104, 105])) None]"
proof -
  obtain rs where fresh: "fresh_http rs example_body example_http"
    by (simp add: fresh_http_def example_http_def newHTTPTaskResponse_def example_body_def)
  have "bd_end example_body = Sentinel IoEOF" "bd_rest example_body = [104, 105]" by (simp_all add: example_body_def)
  moreover have "h_usedReader example_http = False" "h_dataOnce example_http = False" "h_once example_http = False"
    "h_dataErr example_http = None"
    by (simp_all add: example_http_def newHTTPTaskResponse_def)
  ultimately show ?thesis
    using readBody_fresh [OF fresh, of "Instant 1" True]
    by (simp add: example_schedule_def example_calls_def shared_of_def data_check_def data_once_def data_read_def
        data_get_def reader_check_def reader_memory_def set_body_def)
qed

theorem concurrent_results_witness:
  "\<exists>cs1 s1. responses_run example_calls (shared_of example_http) cs1 s1 \<and>
     DataDone [104, 105] None \<in> set cs1 \<and> ReaderDone (Some (MemReader [104, 105])) None \<in> set cs1 \<and>
     (\<exists>cs2 s2. responses_run cs1 s1 cs2 s2 \<and>
        (\<forall>c \<in> set cs2. (\<exists>bs err. c = DataDone bs err) \<or> (\<exists>rd err. c = ReaderDone rd err)))"
proof -
  obtain cs1 s1 where r: "run_schedule response_next example_schedule example_calls (shared_of example_http) = Some (cs1, s1)"
    and c: "cs1 = [DataGet, DataDone [104, 105] None, ReaderDone (Some (MemReader [104, 105])) None]"
    using example_schedule_runs by auto
  note run = run_schedule_turns [OF r]
  have "\<forall>c \<in> set example_calls. c = DataCheck \<or> c = ReaderCheck" by (simp add: example_calls_def)
  from concurrent_results [OF example_http_def _ _ this run, of example_body]
  have "\<exists>cs2 s2. responses_run cs1 s1 cs2 s2 \<and>
      (\<forall>c \<in> set cs2. (\<exists>bs err. c = DataDone bs err) \<or> (\<exists>rd err. c = ReaderDone rd err))"
    by (simp add: example_body_def)
  moreover have "DataDone [104, 105] None \<in> set cs1" "ReaderDone (Some (MemReader [104, 105])) None \<in> set cs1"
    by (simp_all add: c)
  ultimately show ?thesis using run by blast
qed

section \<open>Races\<close>

text \<open>
  C39. The load and the store of \<^verbatim>\<open>usedReader\<close> are two operations, and \<^verbatim>\<open>Data\<close> does not set it: two calls
  of \<^verbatim>\<open>Reader\<close> can both be given the stream; and a \<^verbatim>\<open>Reader\<close> that looked for the data before \<^verbatim>\<open>Data\<close>
  read it is given the stream although \<^verbatim>\<open>Data\<close> returns the whole body without an error. Every read
  of that stream fails, as \<^verbatim>\<open>Data\<close> has closed the body.
\<close>

theorem reader_race:
  assumes "h0 = newHTTPTaskResponse addr (Some rs)" "rs_Body rs = Some b" "\<not> bd_closed b" "bd_end b = Sentinel IoEOF"
  shows "(\<exists>s1. responses_run [ReaderCheck, ReaderCheck] (shared_of h0)
        [ReaderDone (Some (TimedReader False)) None, ReaderDone (Some (TimedReader False)) None] s1) \<and>
    (\<exists>s1. responses_run [ReaderCheck, DataCheck] (shared_of h0)
        [ReaderDone (Some (TimedReader False)) None, DataDone (bd_rest b) None] s1 \<and>
      (\<forall>now n eager. \<exists>h2. timed_Read now n eager False (sr_h s1) = Some (([], Some errReadOnClosedResBody), False, h2)))"
proof -
  let ?start = "\<lparr>sr_h = h0, sr_running = False\<rparr>"
  let ?body = "b\<lparr>bd_rest := [], bd_closed := True\<rparr>"
  let ?data = "set_body rs ?body (h0\<lparr>h_once := True, h_data := bd_rest b, h_dataOnce := True,
    h_timestamps := (h_timestamps h0)\<lparr>ts_dataDone := Instant 1\<rparr>\<rparr>)"
  have fresh: "fresh_http rs b h0" using assms(1-3) by (simp add: fresh_http_def newHTTPTaskResponse_def)
  have flags: "h_usedReader h0 = False" "h_dataOnce h0 = False" "h_once h0 = False" "h_resp h0 = Some rs" "h_dataErr h0 = None"
    using assms(1) by (simp_all add: newHTTPTaskResponse_def)
  note read = readBody_fresh [OF fresh assms(4), of "Instant 1" True]
  have two: "run_schedule response_next (map (\<lambda>k. (Instant 1, k)) [0, 1, 0, 1, 0, 1]) [ReaderCheck, ReaderCheck] (shared_of h0) =
      Some ([ReaderDone (Some (TimedReader False)) None, ReaderDone (Some (TimedReader False)) None],
        \<lparr>sr_h = h0\<lparr>h_usedReader := True\<rparr>, sr_running = False\<rparr>)"
    using flags assms(2) by (simp add: shared_of_def reader_check_def reader_used_def reader_store_def)
  have data: "run_schedule response_next (map (\<lambda>k. (Instant 1, k)) [0, 1, 1, 1, 1, 0, 0]) [ReaderCheck, DataCheck] (shared_of h0) =
      Some ([ReaderDone (Some (TimedReader False)) None, DataDone (bd_rest b) None],
        \<lparr>sr_h = ?data\<lparr>h_usedReader := True\<rparr>, sr_running = False\<rparr>)"
    using flags assms(2)
    by (simp add: shared_of_def reader_check_def data_check_def data_once_def data_read_def read data_get_def
        reader_used_def reader_store_def set_body_def)
  have "\<exists>h2. timed_Read now n eager False (?data\<lparr>h_usedReader := True\<rparr>) = Some (([], Some errReadOnClosedResBody), False, h2)"
    for now n eager
    by (simp add: timed_Read_def set_body_def body_Read_def errReadOnClosedResBody_def Let_def)
  with run_schedule_turns [OF two] run_schedule_turns [OF data] show ?thesis by auto
qed

theorem reader_race_witness:
  "\<exists>s1. responses_run [ReaderCheck, DataCheck] (shared_of example_http)
        [ReaderDone (Some (TimedReader False)) None, DataDone [104, 105] None] s1"
  using reader_race [OF example_http_def, of example_body] by (auto simp: example_body_def)

end
