(* ===== verification/Response_String.thy ===== *)
theory Response_String
  imports Response
begin

text \<open>
  \<^verbatim>\<open>TaskResponseMetadata.String\<close> of \<^verbatim>\<open>response.go\<close>, with \<^verbatim>\<open>Duration.String\<close> of the standard library.
  The text of an instant depends on the time zone of the machine and is a parameter, as is the
  order in which Go ranges over the header map: \<open>hdrs\<close> lists its entries in that order.
\<close>

section \<open>Durations\<close>

text \<open>
  \<^verbatim>\<open>fmtFrac\<close>: the last \<open>prec\<close> digits of a number as a fraction without trailing zeros, before the
  text \<open>s\<close>, and the rest of the number; \<open>print\<close> tells whether a digit has been written.
\<close>

fun fmt_frac :: "nat \<Rightarrow> nat \<Rightarrow> bool \<Rightarrow> string \<Rightarrow> string \<times> nat" where
  "fmt_frac 0 v print s = (if print then ''.'' @ s else s, v)"
| "fmt_frac (Suc prec) v print s =
     (let print' = (print \<or> v mod 10 \<noteq> 0)
      in fmt_frac prec (v div 10) print' (if print' then digit_char (v mod 10) # s else s))"

lemma fmt_frac_numeral [simp]:
  "fmt_frac (numeral k) v print s =
     (let print' = (print \<or> v mod 10 \<noteq> 0)
      in fmt_frac (pred_numeral k) (v div 10) print' (if print' then digit_char (v mod 10) # s else s))"
  by (subst numeral_eq_Suc) (rule fmt_frac.simps(2))

definition micro_s :: string where
  "micro_s = [CHR 0xC2, CHR 0xB5, CHR ''s'']"

definition scaled_text :: "nat \<Rightarrow> nat \<Rightarrow> string \<Rightarrow> string" where
  "scaled_text prec u unit_text = (let (s, v) = fmt_frac prec u False unit_text in dec_string v @ s)"

definition duration_text :: "nat \<Rightarrow> string" where
  "duration_text u =
     (if u = 0 then ''0s''
      else if u < 1000 then dec_string u @ ''ns''
      else if u < 1000000 then scaled_text 3 u micro_s
      else if u < 1000000000 then scaled_text 6 u ''ms''
      else
        let (s, v) = fmt_frac 9 u False ''s'';
          secs = dec_string (v mod 60) @ s;
          mins = v div 60
        in if mins = 0 then secs
           else
             let ms = dec_string (mins mod 60) @ ''m'' @ secs
             in if mins div 60 = 0 then ms else dec_string (mins div 60) @ ''h'' @ ms)"

definition duration_String :: "duration \<Rightarrow> string" where
  "duration_String d = (if d < 0 then ''-'' else []) @ duration_text (nat \<bar>d\<bar>)"

section \<open>Metadata\<close>

fun mode_number :: "DNSRefreshMode \<Rightarrow> nat" where
  "mode_number DNSRefreshDefault = 0"
| "mode_number DNSRefreshStatic = 1"
| "mode_number DNSRefreshSingleLookup = 2"
| "mode_number DNSRefreshTTL = 3"
| "mode_number DNSRefreshCadence = 4"
| "mode_number (DNSRefreshUnnamed n) = n"

definition bool_string :: "bool \<Rightarrow> string" where
  "bool_string b = (if b then ''true'' else ''false'')"

definition headers_String :: "header \<Rightarrow> string" where
  "headers_String hdrs =
     ''{'' @ str_join '', '' (concat (map (\<lambda>(key, values). map (\<lambda>v. key @ '': '' @ v) values) hdrs)) @ ''}''"

definition dns_String :: "(gotime \<Rightarrow> string) \<Rightarrow> DNSMetadata option \<Rightarrow> string" where
  "dns_String show_time dns =
     (case dns of
        None \<Rightarrow> ''<nil>''
      | Some d \<Rightarrow>
          ''{Mode: '' @ dec_string (mode_number (dm_Mode d)) @ '', TTL: '' @ duration_String (dm_TTL d) @
          '', ExpiresAt: '' @ show_time (dm_ExpiresAt d) @
          '', Addrs: ['' @ str_join '', '' (map addr_string (dm_ResolvedAddrs d)) @
          ''], GuardRail: '' @ bool_string (dm_GuardRailTriggered d) @ ''}'')"

definition metadata_String :: "(gotime \<Rightarrow> string) \<Rightarrow> header \<Rightarrow> TaskResponseMetadata \<Rightarrow> string" where
  "metadata_String show_time hdrs m =
     ''TaskResponseMetadata{StatusCode: '' @ int_string (md_StatusCode m) @ '', '' @
     ''Headers: '' @ headers_String hdrs @ '', '' @
     ''Size: '' @ int_string (md_Size m) @ '', '' @
     ''Latency: '' @ duration_String (qt_Latency (md_TimeData m)) @ '', '' @
     ''TimeSent: '' @ show_time (qt_SentAt (md_TimeData m)) @ '', '' @
     ''TimeReceived: '' @ show_time (qt_ReceivedAt (md_TimeData m)) @ '', '' @
     ''DNS: '' @ dns_String show_time (md_DNS m) @ ''}''"

section \<open>What the text shows\<close>

lemma str_contains_hasPrefix: "str_contains (p @ s) p"
  by (rule str_contains_prefix) simp

lemma str_contains_infix: "str_contains (r @ p @ s) p"
  by (rule str_contains_append [OF str_contains_hasPrefix])

lemma str_contains_iff: "str_contains s p \<longleftrightarrow> (\<exists>r t. s = r @ p @ t)"
proof
  show "str_contains s p \<Longrightarrow> \<exists>r t. s = r @ p @ t"
  proof (induction s)
    case (Cons c s)
    show ?case
    proof (cases "str_hasPrefix (c # s) p")
      case True
      then have "c # s = [] @ p @ drop (length p) (c # s)"
        using append_take_drop_id [of "length p" "c # s"] by (simp add: str_hasPrefix_def)
      then show ?thesis by blast
    next
      case False
      with Cons obtain r t where "s = r @ p @ t" by auto
      then have "c # s = (c # r) @ p @ t" by simp
      then show ?thesis by blast
    qed
  qed simp
qed (auto intro: str_contains_infix)

lemma str_contains_in: "str_contains s p \<Longrightarrow> str_contains (r @ s @ t) p"
  unfolding str_contains_iff by (metis append.assoc)

lemma str_join_contains: "s \<in> set ss \<Longrightarrow> str_contains (str_join sep ss) s"
proof (induction sep ss rule: str_join.induct)
  case (2 sep s')
  then show ?case using str_contains_infix [of "[]" s "[]"] by simp
next
  case (3 sep a b ss)
  show ?case
  proof (cases "s = a")
    case True
    then show ?thesis by (simp add: str_contains_hasPrefix)
  next
    case False
    with 3 have "str_contains (str_join sep (b # ss)) s" by simp
    from str_contains_in [OF this, of "a @ sep" "[]"] show ?thesis by simp
  qed
qed simp

lemma str_contains_trans: "str_contains s t \<Longrightarrow> str_contains t p \<Longrightarrow> str_contains s p"
  unfolding str_contains_iff by (metis append.assoc)

lemma metadata_shows_headers: "str_contains (metadata_String show_time hdrs m) (headers_String hdrs)"
  unfolding metadata_String_def by (rule str_contains_hasPrefix | rule str_contains_append)+

lemma metadata_shows_dns: "str_contains (metadata_String show_time hdrs m) (dns_String show_time (md_DNS m))"
  unfolding metadata_String_def by (rule str_contains_hasPrefix | rule str_contains_append)+

text \<open>
  The text of a response's metadata shows every value of every header with its key, whatever the
  order of the headers, and every address of the DNS decision.
\<close>

theorem String_shows_all:
  assumes "set hdrs = set (md_Headers m)"
  shows "(\<forall>key vs v. (key, vs) \<in> set (md_Headers m) \<and> v \<in> set vs \<longrightarrow>
        str_contains (metadata_String show_time hdrs m) (key @ '': '' @ v)) \<and>
      (\<forall>d addr. md_DNS m = Some d \<and> addr \<in> set (dm_ResolvedAddrs d) \<longrightarrow>
        str_contains (metadata_String show_time hdrs m) (addr_string addr))"
proof (intro conjI allI impI)
  fix key vs v
  let ?part = "key @ '': '' @ v"
  let ?parts = "concat (map (\<lambda>(key, values). map (\<lambda>v. key @ '': '' @ v) values) hdrs)"
  assume "(key, vs) \<in> set (md_Headers m) \<and> v \<in> set vs"
  with assms have "?part \<in> set ?parts" by force
  note part = str_join_contains [OF this, of "'', ''"]
  have "str_contains (headers_String hdrs) ?part"
    unfolding headers_String_def using part by (rule str_contains_in)
  with metadata_shows_headers show "str_contains (metadata_String show_time hdrs m) ?part"
    by (rule str_contains_trans)
next
  fix d addr
  assume d: "md_DNS m = Some d \<and> addr \<in> set (dm_ResolvedAddrs d)"
  then have "addr_string addr \<in> set (map addr_string (dm_ResolvedAddrs d))" by simp
  note addr = str_join_contains [OF this, of "'', ''"]
  have "str_contains (dns_String show_time (md_DNS m)) (str_join '', '' (map addr_string (dm_ResolvedAddrs d)))"
    unfolding dns_String_def using d
    by (simp only: option.case conjunct1 [OF d]) (rule str_contains_hasPrefix | rule str_contains_append)+
  from str_contains_trans [OF this addr] metadata_shows_dns
  show "str_contains (metadata_String show_time hdrs m) (addr_string addr)" by (blast intro: str_contains_trans)
qed

definition example_metadata :: TaskResponseMetadata where
  "example_metadata = zero_metadata\<lparr>md_StatusCode := 200, md_Headers := [(''A'', [''x'', ''y''])], md_Size := -1,
     md_TimeData := zero_request_times\<lparr>qt_Latency := 1500000\<rparr>,
     md_DNS := Some \<lparr>dm_Mode = DNSRefreshTTL, dm_TTL = 90000000000, dm_ExpiresAt = Instant 5, dm_ResolvedAddrs = [AddrV4 10 0 0 1],
       dm_LookupDuration = 0, dm_GuardRailTriggered = True, dm_FallbackUsed = False, dm_Err = None\<rparr>\<rparr>"

lemma example_metadata_String:
  "metadata_String (\<lambda>t. ''T'') (md_Headers example_metadata) example_metadata =
     ''TaskResponseMetadata{StatusCode: 200, Headers: {A: x, A: y}, Size: -1, Latency: 1.5ms, TimeSent: T, TimeReceived: T, '' @
     ''DNS: {Mode: 3, TTL: 1m30s, ExpiresAt: T, Addrs: [10.0.0.1], GuardRail: true}}''"
  by (simp add: metadata_String_def example_metadata_def headers_String_def dns_String_def duration_String_def
      duration_text_def scaled_text_def int_string_def dec_string_1 dec_string_step digit_char_def bool_string_def zero_metadata_def
      zero_request_times_def string4_def char_of_def bit_Suc_0_iff)

theorem String_shows_all_witness:
  "str_contains (metadata_String (\<lambda>t. ''T'') [(''A'', [''x'', ''y''])] example_metadata) ''A: y''"
proof -
  have m: "md_Headers example_metadata = [(''A'', [''x'', ''y''])]" by (simp add: example_metadata_def)
  have "set [(''A'', [''x'', ''y''])] = set (md_Headers example_metadata)" by (simp only: m)
  from String_shows_all [OF this, of "\<lambda>t. ''T''"] show ?thesis by (simp add: m)
qed

end
