(* ===== verification/Wadjit_Queue.thy ===== *)
theory Wadjit_Queue
  imports Wadjit_Runs
begin

text \<open>
  What the two channels and the forwarding goroutine of a Wadjit promise together, until \<^verbatim>\<open>Close\<close> is
  called: they are one bounded queue of responses. The abstract queue is a step relation of its own;
  every step of the Wadjit is one of its steps, and every step it can take the Wadjit can take.
\<close>

section \<open>The abstract queue\<close>

inductive queue_step :: "nat \<Rightarrow> WatcherResponse list \<Rightarrow> event list \<Rightarrow> WatcherResponse list \<Rightarrow> bool" for n where
  put: "length q < n \<Longrightarrow> queue_step n q [Sent r] (q @ [r])"
| get: "queue_step n (r # q) [Delivered r] q"
| skip: "queue_step n q [] q"

inductive_simps queue_step_put: "queue_step n q [Sent r] q'"
inductive_simps queue_step_get: "queue_step n q [Delivered r] q'"
inductive_simps queue_step_skip: "queue_step n q [] q'"

lemmas queue_step_simps = queue_step_put queue_step_get queue_step_skip

definition queue :: "('id, 'tm) Wadjit \<Rightarrow> WatcherResponse list" where
  "queue w = ch_buf (wj_respExportChan w) @ hand (wj_listener w) @ ch_buf (wj_respGatherChan w)"

definition queue_cap :: "('id, 'tm) Wadjit \<Rightarrow> nat" where
  "queue_cap w = ch_cap (wj_respExportChan w) + 1 + ch_cap (wj_respGatherChan w)"

section \<open>Steps of the Wadjit are steps of the queue\<close>

lemma hand_length: "length (hand l) \<le> 1"
  by (cases l) auto

lemma queue_bounded: "channels_ok w \<Longrightarrow> length (queue w) \<le> queue_cap w"
  using hand_length [of "wj_listener w"] by (simp add: channels_ok_def queue_def queue_cap_def)

lemma step_queue:
  assumes "wadjit_step L w es w'" "channels_ok w" "\<not> wj_cancelled w'"
  shows "queue_cap w' = queue_cap w \<and>
    (es = [] \<and> queue w' = queue w \<or> (\<exists>r. es = [Sent r] \<and> queue w' = queue w @ [r]) \<or>
     (\<exists>r. es = [Delivered r] \<and> queue w = r # queue w'))"
  using assms(1)
proof (cases rule: wadjit_step_split)
  case call
  then show ?thesis by (simp add: same_channels_def queue_def queue_cap_def)
next
  case close_cancel
  then show ?thesis using assms(3) close_cancel_cases [of w w'] by auto
next
  case (close_begin cenv ord)
  from close_begin_cases [OF close_begin(2)] obtain errs w1 where
    c: "wj_close w = Closing" "same_channels w w1"
    "w' = w1\<lparr>wj_taskManager := tl_Stop L (wj_taskManager w1),
             wj_respGatherChan := (wj_respGatherChan w1)\<lparr>ch_closed := True\<rparr>, wj_close := Waiting errs\<rparr>"
    by metis
  then show ?thesis using assms(2,3) by (simp add: channels_ok_def same_channels_def)
next
  case close_finish
  then show ?thesis using assms(2,3) by (auto simp: channels_ok_def elim!: close_finish_cases)
next
  case receive
  then show ?thesis using assms(2,3)
    by (auto simp: listen_receive_def listen_got_def dropped_by_def queue_def queue_cap_def channels_ok_def Let_def
        split: if_splits list.splits)
next
  case forward
  then show ?thesis
    by (auto simp: listen_forward_def queue_def queue_cap_def Let_def split: if_splits listener.splits)
next
  case (consume r)
  then show ?thesis
    by (auto simp: consumer_receive_def Responses_def queue_def queue_cap_def Let_def split: if_splits list.splits)
next
  case (meet_export r)
  then show ?thesis
    by (auto simp: meet_export_def queue_def queue_cap_def split: if_splits listener.splits)
qed (use assms(3) in \<open>auto simp: task_send_def meet_gather_def listen_got_def listen_done_def dropped_by_def
      queue_def queue_cap_def Let_def split: if_splits\<close>)

section \<open>Steps of the queue are runs of the Wadjit\<close>

definition open_channels :: "('id, 'tm) Wadjit \<Rightarrow> bool" where
  "open_channels w \<longleftrightarrow> \<not> wj_cancelled w \<and> wj_listener w \<noteq> Exited \<and> \<not> ch_closed (wj_respGatherChan w) \<and>
     \<not> ch_closed (wj_respExportChan w)"

lemma not_cancelled_open: "channels_ok w \<Longrightarrow> \<not> wj_cancelled w \<Longrightarrow> open_channels w"
  by (cases "wj_close w") (auto simp: channels_ok_def open_channels_def)

text \<open>The goroutine takes the next response from the gather channel.\<close>

lemma take_next:
  assumes "open_channels w" "wj_listener w = Listening" "ch_buf (wj_respGatherChan w) = r # rs"
  shows "\<exists>w'. wadjit_step L w [] w' \<and> open_channels w' \<and> queue w' = queue w \<and> wj_listener w' = Handing r \<and>
    wj_respGatherChan w' = (wj_respGatherChan w)\<lparr>ch_buf := rs\<rparr> \<and> wj_respExportChan w' = wj_respExportChan w"
proof -
  let ?w' = "w\<lparr>wj_respGatherChan := (wj_respGatherChan w)\<lparr>ch_buf := rs\<rparr>, wj_listener := Handing r\<rparr>"
  have "listen_receive w = Returns ?w'" "dropped_by w (ch_buf (wj_respGatherChan w)) = []"
    using assms by (auto simp: listen_receive_def listen_got_def open_channels_def dropped_by_def)
  with step_receive [of w ?w'] have "wadjit_step L w [] ?w'" by metis
  then show ?thesis using assms by (intro exI [of _ ?w']) (simp add: open_channels_def queue_def)
qed

text \<open>The goroutine can hand on what it holds to an export channel with room.\<close>

lemma hand_on:
  assumes "open_channels w" "length (queue w) < queue_cap w"
    and "length (ch_buf (wj_respGatherChan w)) = ch_cap (wj_respGatherChan w)"
  shows "\<exists>w'. wadjit_run L w [] w' \<and> open_channels w' \<and> queue w' = queue w \<and> wj_listener w' = Listening \<and>
    wj_respGatherChan w' = wj_respGatherChan w"
proof (cases "wj_listener w")
  case (Handing r)
  let ?w' = "w\<lparr>wj_respExportChan := (wj_respExportChan w)\<lparr>ch_buf := ch_buf (wj_respExportChan w) @ [r]\<rparr>,
    wj_listener := Listening\<rparr>"
  have "listen_forward w = Returns ?w'"
    using assms Handing by (auto simp: listen_forward_def open_channels_def queue_def queue_cap_def Let_def)
  from run_one [OF step_forward [OF this]] show ?thesis
    using assms(1) Handing by (intro exI [of _ ?w']) (simp add: open_channels_def queue_def)
next
  case Listening
  then show ?thesis using assms(1) run_refl by blast
qed (use assms(1) in \<open>simp add: open_channels_def\<close>)

lemma send_now:
  assumes "open_channels w"
    and "length (ch_buf (wj_respGatherChan w)) < ch_cap (wj_respGatherChan w) \<or>
      wj_listener w = Listening \<and> ch_buf (wj_respGatherChan w) = []"
  shows "\<exists>w'. wadjit_step L w [Sent r] w' \<and> queue w' = queue w @ [r]"
proof (cases "length (ch_buf (wj_respGatherChan w)) < ch_cap (wj_respGatherChan w)")
  case True
  let ?w' = "w\<lparr>wj_respGatherChan := (wj_respGatherChan w)\<lparr>ch_buf := ch_buf (wj_respGatherChan w) @ [r]\<rparr>\<rparr>"
  have "task_send r w = Returns ?w'" using assms(1) True by (simp add: task_send_def open_channels_def Let_def)
  from step_send [OF this] show ?thesis by (intro exI [of _ ?w']) (simp add: queue_def)
next
  case False
  then have l: "wj_listener w = Listening" "ch_buf (wj_respGatherChan w) = []" using assms(2) by auto
  let ?w' = "w\<lparr>wj_listener := Handing r\<rparr>"
  have "meet_gather r w = Returns ?w'" "dropped_by w [r] = []"
    using assms(1) l by (simp_all add: meet_gather_def listen_got_def open_channels_def dropped_by_def)
  with step_meet_gather [of r w ?w'] have "wadjit_step L w [Sent r] ?w'" by metis
  then show ?thesis using l by (intro exI [of _ ?w']) (simp add: queue_def)
qed

lemma can_put:
  assumes "open_channels w" "channels_ok w" "length (queue w) < queue_cap w"
  shows "\<exists>w'. wadjit_run L w [Sent r] w' \<and> queue w' = queue w @ [r]"
proof (cases "length (ch_buf (wj_respGatherChan w)) < ch_cap (wj_respGatherChan w)")
  case True
  then show ?thesis using send_now [OF assms(1)] run_one by blast
next
  case False
  then have full: "length (ch_buf (wj_respGatherChan w)) = ch_cap (wj_respGatherChan w)"
    using assms(2) by (simp add: channels_ok_def)
  obtain w1 where w1: "wadjit_run L w [] w1" "open_channels w1" "queue w1 = queue w" "wj_listener w1 = Listening"
    "wj_respGatherChan w1 = wj_respGatherChan w"
    using hand_on [OF assms(1,3) full] by blast
  show ?thesis
  proof (cases "ch_buf (wj_respGatherChan w)")
    case Nil
    then obtain w2 where "wadjit_step L w1 [Sent r] w2" "queue w2 = queue w1 @ [r]"
      using send_now [OF w1(2)] w1(4,5) by metis
    then show ?thesis using run_step [OF w1(1)] w1(3) by fastforce
  next
    case (Cons a as)
    obtain w2 where w2: "wadjit_step L w1 [] w2" "open_channels w2" "queue w2 = queue w1"
      "wj_respGatherChan w2 = (wj_respGatherChan w)\<lparr>ch_buf := as\<rparr>"
      using take_next [OF w1(2,4)] w1(5) Cons by metis
    then have "length (ch_buf (wj_respGatherChan w2)) < ch_cap (wj_respGatherChan w2)" using full Cons by simp
    then obtain w3 where w3: "wadjit_step L w2 [Sent r] w3" "queue w3 = queue w2 @ [r]"
      using send_now [OF w2(2)] by blast
    have "wadjit_run L w (([] @ []) @ [Sent r]) w3" by (rule run_step [OF run_step [OF w1(1) w2(1)] w3(1)])
    then show ?thesis using w1(3) w2(3) w3(2) by auto
  qed
qed

lemma deliver_held:
  assumes "open_channels w" "ch_buf (wj_respExportChan w) = []" "wj_listener w = Handing r"
  shows "\<exists>w'. wadjit_step L w [Delivered r] w' \<and> queue w' = tl (queue w)"
proof -
  have "meet_export w = Returns (r, w\<lparr>wj_listener := Listening\<rparr>)"
    using assms by (simp add: meet_export_def open_channels_def)
  from step_meet_export [OF this] show ?thesis
    using assms by (intro exI [of _ "w\<lparr>wj_listener := Listening\<rparr>"]) (simp add: queue_def)
qed

lemma can_get:
  assumes "open_channels w" "queue w = r # q"
  shows "\<exists>w'. wadjit_run L w [Delivered r] w' \<and> queue w' = q"
proof (cases "ch_buf (wj_respExportChan w)")
  case (Cons a as)
  let ?w' = "w\<lparr>wj_respExportChan := (wj_respExportChan w)\<lparr>ch_buf := as\<rparr>\<rparr>"
  have "consumer_receive w = Returns (Some r, ?w')" "queue ?w' = q"
    using Cons assms(2) by (simp_all add: consumer_receive_def Responses_def queue_def)
  with run_one [OF step_consume] show ?thesis by blast
next
  case export: Nil
  show ?thesis
  proof (cases "wj_listener w")
    case (Handing a)
    then have "a = r" using assms(2) export by (simp add: queue_def)
    with deliver_held [OF assms(1) export Handing] assms(2) show ?thesis using run_one by fastforce
  next
    case Listening
    then have "ch_buf (wj_respGatherChan w) = r # q" using assms(2) export by (simp add: queue_def)
    from take_next [OF assms(1) Listening this] obtain w1 where w1: "wadjit_step L w [] w1" "open_channels w1"
      "queue w1 = queue w" "wj_listener w1 = Handing r" "wj_respExportChan w1 = wj_respExportChan w" by blast
    obtain w2 where w2: "wadjit_step L w1 [Delivered r] w2" "queue w2 = tl (queue w1)"
      using deliver_held [OF w1(2) _ w1(4)] w1(5) export by metis
    have "wadjit_run L w ([] @ [Delivered r]) w2" by (rule run_step [OF run_one [OF w1(1)] w2(1)])
    then show ?thesis using w1(3) w2(2) assms(2) by auto
  qed (use assms(1) in \<open>simp add: open_channels_def\<close>)
qed

section \<open>Property\<close>

text \<open>
  C3. Until \<^verbatim>\<open>Close\<close> is called, the two channels with the forwarding goroutine are a queue that holds one
  response more than the two buffers. In every state that a run reaches: whatever happens next is a
  step of the queue of that bound, and each step the queue could take, putting any response while
  there is room or getting the oldest one, the Wadjit has a run for that shows nothing else.
\<close>

theorem wadjit_refines_queue:
  assumes "New L G opts = Returns w0" "wadjit_run L w0 es w" "\<not> wj_cancelled w"
  shows "(\<forall>fs w'. wadjit_step L w fs w' \<and> \<not> wj_cancelled w' \<longrightarrow>
        queue_cap w' = queue_cap w \<and> queue_step (queue_cap w) (queue w) fs (queue w')) \<and>
      (\<forall>fs q. queue_step (queue_cap w) (queue w) fs q \<longrightarrow> (\<exists>w'. wadjit_run L w fs w' \<and> queue w' = q))"
proof (intro conjI allI impI)
  have ok: "channels_ok w" using run_ok [OF assms(2,1)] by blast
  note op = not_cancelled_open [OF ok assms(3)]
  fix fs w'
  assume s: "wadjit_step L w fs w' \<and> \<not> wj_cancelled w'"
  note q = step_queue [OF conjunct1 [OF s] ok conjunct2 [OF s]]
  then show "queue_cap w' = queue_cap w" by blast
  have "length (queue w') \<le> queue_cap w"
    using queue_bounded [OF step_channels_ok [OF conjunct1 [OF s] ok]] q by simp
  with q show "queue_step (queue_cap w) (queue w) fs (queue w')"
    by (auto simp: queue_step_simps)
next
  have ok: "channels_ok w" using run_ok [OF assms(2,1)] by blast
  note op = not_cancelled_open [OF ok assms(3)]
  fix fs q
  assume "queue_step (queue_cap w) (queue w) fs q"
  then show "\<exists>w'. wadjit_run L w fs w' \<and> queue w' = q"
  proof cases
    case (put r)
    then show ?thesis using can_put [OF op ok] by simp
  next
    case (get r)
    from can_get [OF op get(1)] get(2) show ?thesis by simp
  next
    case skip
    then show ?thesis using run_refl by blast
  qed
qed

theorem wadjit_refines_queue_witness:
  "\<exists>w. wadjit_run example_taskman (example_wadjit 1) [Sent example_resp] w \<and> queue w = [example_resp] \<and>
     queue_cap (example_wadjit 1 :: (nat, string list) Wadjit) = 3"
proof -
  let ?w = "example_wadjit 1 :: (nat, string list) Wadjit"
  have q: "queue ?w = []" "queue_cap ?w = 3" "\<not> wj_cancelled ?w"
    by (simp_all add: queue_def queue_cap_def example_wadjit_def)
  have "queue_step (queue_cap ?w) (queue ?w) [Sent example_resp] [example_resp]"
    using q by (simp add: queue_step_simps)
  then show ?thesis
    using conjunct2 [OF wadjit_refines_queue [OF example_New [of 1] run_refl q(3)]] q(2) by blast
qed

end
