(* ===== verification/WS_Concurrent.thy ===== *)
theory WS_Concurrent
  imports WS_Properties
begin

text \<open>
  A persistent endpoint under any interleaving: executions that overlap, read pumps and calls of
  \<^verbatim>\<open>Close\<close> take turns at the points where \<^verbatim>\<open>task_ws.go\<close> does not hold the mutex. What holds of all
  interleavings, and what goes wrong when two executions reconnect at the same time.
\<close>

section \<open>The participants\<close>

text \<open>
  How far an execution has come: it looks at the connection, and in \<^verbatim>\<open>reconnect\<close> looks again,
  closes the old connection, waits for the pump, dials under the mutex, and then sends under the
  mutex. The worker that runs it may execute the task again afterwards.
\<close>

datatype exec_at = AtCheck | AtReconnect | AtClose | AtWait | AtDial | AtSend | AtDone go_err

fun exec_move ::
    "('req, 'resp, 'id) jsonrpc_lib \<Rightarrow> ws_env \<Rightarrow> exec_at \<Rightarrow> 'id WSEndpoint \<Rightarrow> (exec_at \<times> 'id WSEndpoint) outcome" where
  "exec_move L env AtCheck e =
     and_then (nilConn e) (\<lambda>(isNil, e1). Returns (if isNil then AtReconnect else AtSend, e1))"
| "exec_move L env AtReconnect e =
     (if we_Mode e \<noteq> PersistentJSONRPC
      then Returns (AtDone (Some (ErrorString ''can only reconnect for long-lived connections'')), e)
      else and_then (nilConn e) (\<lambda>(isNil, e1). Returns (if isNil then AtWait else AtClose, e1)))"
| "exec_move L env AtClose e =
     and_then (close_old env e) (\<lambda>(err, e1). Returns (if err \<noteq> None then AtDone err else AtWait, e1))"
| "exec_move L env AtWait e = and_then (wait_pump e) (\<lambda>e1. Returns (AtDial, e1))"
| "exec_move L env AtDial e =
     and_then (redial env e) (\<lambda>(err, e1). Returns (if err \<noteq> None then AtDone err else AtSend, e1))"
| "exec_move L env AtSend e = and_then (persistent_send L env e) (\<lambda>(err, e1). Returns (AtDone err, e1))"
| "exec_move L env (AtDone err) e = Returns (AtCheck, e)"

text \<open>
  A read pump begins its turn, or waits for its read. Pumps do not differ, so a pump of the list
  stands for any that runs, and none moves while the wait group is empty. A pump that waits may
  see its read return after the endpoint has changed.
\<close>

datatype ws_actor = Executing exec_at | Pump bool | Closer

fun ws_move ::
    "('req, 'resp, 'id) jsonrpc_lib \<Rightarrow> ws_env \<Rightarrow> ws_actor \<Rightarrow> 'id WSEndpoint \<Rightarrow> (ws_actor \<times> 'id WSEndpoint) outcome" where
  "ws_move L env (Executing at) e = and_then (exec_move L env at e) (\<lambda>(at1, e1). Returns (Executing at1, e1))"
| "ws_move L env (Pump reading) e =
     (if we_pumps e = 0 then Blocks
      else if reading
      then
        (case we_URL e of
           None \<Rightarrow> Panics
         | Some u \<Rightarrow> and_then (pump_read L env u e) (\<lambda>(goes_on, e1). Returns (Pump False, e1)))
      else
        (case we_ctx e of
           None \<Rightarrow> Panics
         | Some True \<Rightarrow> Returns (Pump False, pump_done e)
         | Some False \<Rightarrow> if we_URL e = None \<or> we_conn e = None then Panics else Returns (Pump True, e)))"
| "ws_move L env Closer e = and_then (ws_Close env e) (\<lambda>(err, e1). Returns (Closer, e1))"

text \<open>Moves that are not interrupted are the operations: the turn of a pump and an execution.\<close>

lemma pump_moves:
  assumes "we_pumps e \<noteq> 0" and "readPump L env e = Returns (goes_on, e1)"
  shows "\<exists>n. run_schedule (ws_move L) (replicate n (env, 0)) [Pump False] e = Some ([Pump False], e1)"
proof (cases "we_ctx e = Some True")
  case True
  with assms have "run_schedule (ws_move L) (replicate 1 (env, 0)) [Pump False] e = Some ([Pump False], e1)"
    by (simp add: readPump_def)
  then show ?thesis by blast
next
  case False
  with assms(2) obtain u where u: "we_ctx e = Some False" "we_URL e = Some u" "we_conn e \<noteq> None"
    "pump_read L env u e = Returns (goes_on, e1)"
    by (auto simp: readPump_def split: option.splits bool.splits if_splits)
  with assms(1) have "run_schedule (ws_move L) (replicate 2 (env, 0)) [Pump False] e = Some ([Pump False], e1)"
    by (simp add: numeral_2_eq_2)
  then show ?thesis by blast
qed

lemma execution_moves:
  assumes "persistent_Execute L env JSONRPC e = Returns (err, e1)"
  shows "\<exists>n. run_schedule (ws_move L) (replicate n (env, 0)) [Executing AtCheck] e =
    Some ([Executing (AtDone err)], e1)"
proof -
  let ?run = "\<lambda>n. run_schedule (ws_move L) (replicate n (env, 0)) [Executing AtCheck] e"
  have free: "\<not> we_locked e" using assms by (auto simp: persistent_Execute_def nilConn_def we_lock_def split: if_splits)
  show ?thesis
  proof (cases "we_conn e = None")
    case False
    with assms free have "?run 2 = Some ([Executing (AtDone err)], e1)"
      by (auto simp: persistent_Execute_def numeral_2_eq_2)
    then show ?thesis by blast
  next
    case nil: True
    show ?thesis
    proof (cases "we_Mode e = PersistentJSONRPC")
      case False
      with assms free nil have "?run 2 = Some ([Executing (AtDone err)], e1)"
        by (simp add: persistent_Execute_def reconnect_def numeral_2_eq_2)
      then show ?thesis by blast
    next
      case True
      with assms free nil obtain er e2 where w: "we_pumps e = 0" "redial env e = Returns (er, e2)"
        "(if er \<noteq> None then Returns (er, e2) else persistent_send L env e2) = Returns (err, e1)"
        by (auto simp: persistent_Execute_def reconnect_def wait_pump_def run_iff split: if_splits)
      show ?thesis
      proof (cases er)
        case None
        with w True free nil have "?run 5 = Some ([Executing (AtDone err)], e1)"
          by (simp add: wait_pump_def numeral_eq_Suc)
        then show ?thesis by blast
      next
        case (Some x)
        with w True free nil have "?run 4 = Some ([Executing (AtDone err)], e1)"
          by (auto simp: wait_pump_def numeral_eq_Suc)
        then show ?thesis by blast
      qed
    qed
  qed
qed

section \<open>What holds of all interleavings\<close>

text \<open>
  The invariant of the endpoint: the mutex is free between the moves, a pump runs as long as there
  is a connection that has not been shut down, and what is in flight is filed under its identifier.
\<close>

definition ws_inv :: "'id WSEndpoint \<Rightarrow> bool" where
  "ws_inv e \<longleftrightarrow>
     \<not> we_locked e \<and> we_Mode e = PersistentJSONRPC \<and>
     (we_conn e \<noteq> None \<and> we_ctx e = Some False \<longrightarrow> we_pumps e \<noteq> 0) \<and>
     (\<forall>k msg. we_inflight e k = Some msg \<longrightarrow> im_inflightID msg = k)"

definition is_exec :: "ws_actor \<Rightarrow> bool" where
  "is_exec a \<longleftrightarrow> (case a of Executing at \<Rightarrow> True | _ \<Rightarrow> False)"

definition dialling :: "ws_actor \<Rightarrow> bool" where
  "dialling a \<longleftrightarrow> a = Executing AtDial"

lemma actor_simps [simp]:
  "is_exec (Executing at)" "\<not> is_exec (Pump b)" "\<not> is_exec Closer"
  "dialling (Executing at) \<longleftrightarrow> at = AtDial" "\<not> dialling (Pump b)" "\<not> dialling Closer"
  by (simp_all add: is_exec_def dialling_def)

lemma ws_inv_send:
  assumes inv: "ws_inv e" and send: "persistent_send L env e = Returns (err, e1)"
  shows "ws_inv e1 \<and> we_pumps e1 = we_pumps e"
proof -
  have free: "\<not> we_locked e" using inv by (simp add: ws_inv_def)
  show ?thesis
  proof (cases "we_URL e = None \<or> we_ctx e \<noteq> Some False")
    case True
    with inv send free show ?thesis
      by (auto simp: persistent_send_def split: option.splits bool.splits)
  next
    case False
    then obtain u where u: "we_URL e = Some u" "we_ctx e = Some False" by auto
    show ?thesis
    proof (cases "prepareJSONRPCMessage L env e")
      case (Inl f)
      with inv send u free show ?thesis
        by (auto simp: persistent_send_def ws_inv_def we_unlock_def send_error_def send_resp_def)
    next
      case (Inr pm)
      obtain payload msg where pm: "pm = (payload, msg)" by (cases pm)
      have "wv_write env = None"
        using send u Inr pm free
        by (cases "wv_write env") (auto simp: persistent_send_def Let_def write_message_def
            handleWriteError_blocks split: if_splits)
      with inv send u Inr pm free show ?thesis
        by (auto simp: persistent_send_def Let_def ws_inv_def we_unlock_def write_message_def split: if_splits)
    qed
  qed
qed

lemma ws_inv_redial:
  assumes "ws_inv e" and "redial env e = Returns (err, e1)"
  shows "ws_inv e1 \<and> we_pumps e1 = we_pumps e + (if err = None then 1 else 0)"
  using assms by (auto simp: redial_def ws_inv_def we_unlock_def split: if_splits sum.splits)

text \<open>An execution, which adds to the pumps only what it had claimed when it began to dial.\<close>

lemma ws_inv_exec:
  assumes "ws_inv e" and "exec_move L env at e = Returns (at1, e1)"
  shows "ws_inv e1" "we_pumps e1 + (if at1 = AtDial then 1 else 0) \<le> we_pumps e + (if at = AtDial then 1 else 0) \<or>
    at1 = AtDial \<and> we_pumps e1 = 0"
proof -
  have free: "\<not> we_locked e" using assms(1) by (simp add: ws_inv_def)
  have "ws_inv e1 \<and> (we_pumps e1 + (if at1 = AtDial then 1 else 0) \<le> we_pumps e + (if at = AtDial then 1 else 0) \<or>
    at1 = AtDial \<and> we_pumps e1 = 0)"
  proof (cases at)
    case AtDial
    with assms(2) obtain err where "redial env e = Returns (err, e1)" "at1 = (if err \<noteq> None then AtDone err else AtSend)"
      by (auto simp: run_iff)
    with ws_inv_redial [OF assms(1) this(1)] AtDial show ?thesis by auto
  next
    case AtSend
    with assms(2) obtain err where "persistent_send L env e = Returns (err, e1)" "at1 = AtDone err"
      by (auto simp: run_iff)
    with ws_inv_send [OF assms(1) this(1)] AtSend show ?thesis by auto
  qed (use assms free in \<open>auto simp: run_iff close_old_def wait_pump_def split: if_splits\<close>)
  then show "ws_inv e1" "we_pumps e1 + (if at1 = AtDial then 1 else 0) \<le> we_pumps e + (if at = AtDial then 1 else 0) \<or>
    at1 = AtDial \<and> we_pumps e1 = 0" by auto
qed

lemma ws_inv_read:
  assumes inv: "ws_inv e" and read: "pump_read L env u e = Returns (goes_on, e1)"
  shows "ws_inv e1 \<and> we_pumps e1 \<le> we_pumps e"
proof (cases "wv_read env")
  case (Inl err)
  have free: "\<not> we_locked e" using inv by (simp add: ws_inv_def)
  have "we_ctx e \<noteq> None"
    using read Inl by (cases "we_ctx e") (simp_all add: pump_read_def handleWebSocketReadError_def)
  then obtain rs where "handleWebSocketReadError env err u e =
      Returns (foldl (\<lambda>e r. send_error r u e) e rs\<lparr>we_conn := None\<rparr>)"
    using handleWebSocketReadError_spec [OF free, of env err u] by auto
  with inv read Inl show ?thesis by (auto simp: pump_read_def ws_inv_def pump_done_def)
next
  case (Inr p)
  with inv read show ?thesis
    by (auto simp: pump_read_def ws_inv_def Let_def dest!: handleJSONRPCResponse_inflight)
qed

lemma ws_inv_close:
  "ws_inv e \<Longrightarrow> ws_Close env e = Returns (err, e1) \<Longrightarrow> ws_inv e1 \<and> we_pumps e1 = we_pumps e"
  by (auto simp: ws_Close_def ws_inv_def we_unlock_def split: if_splits option.splits)

text \<open>
  The pumps that run and the executions that are about to dial are together at most as many as there
  are executions.
\<close>

definition actors_ok :: "ws_actor list \<Rightarrow> 'id WSEndpoint \<Rightarrow> bool" where
  "actors_ok cs e \<longleftrightarrow> ws_inv e \<and>
     we_pumps e + length (filter dialling cs) \<le> max 1 (length (filter is_exec cs))"

lemma filter_update:
  "k < length cs \<Longrightarrow> length (filter P (cs[k := c])) + (if P (cs ! k) then 1 else 0) =
     length (filter P cs) + (if P c then 1 else 0)"
proof (induction cs arbitrary: k)
  case (Cons a cs)
  show ?case
  proof (cases k)
    case (Suc j)
    with Cons.prems have "j < length cs" by simp
    from Cons.IH [OF this] Suc show ?thesis by (simp split: if_splits)
  qed simp
qed simp

lemma ws_move_kind: "ws_move L env c e = Returns (c1, e1) \<Longrightarrow> is_exec c1 = is_exec c"
  by (cases c) (auto simp: run_iff split: if_splits option.splits bool.splits)

lemma dialling_exec: "length (filter dialling cs) \<le> length (filter is_exec cs)"
  by (induction cs) (auto simp: dialling_def)

lemma ws_move_ok:
  assumes ok: "actors_ok cs e" and k: "k < length cs" and m: "ws_move L env (cs ! k) e = Returns (c, e1)"
  shows "actors_ok (cs[k := c]) e1"
proof -
  let ?d = "\<lambda>cs. length (filter dialling cs)" and ?x = "\<lambda>cs. length (filter is_exec cs)"
  have inv: "ws_inv e" using ok by (simp add: actors_ok_def)
  have x: "?x (cs[k := c]) = ?x cs" using filter_update [OF k, of is_exec c] ws_move_kind [OF m] by simp
  note d = filter_update [OF k, of dialling c]
  have "ws_inv e1 \<and> (we_pumps e1 + ?d (cs[k := c]) \<le> we_pumps e + ?d cs \<or> we_pumps e1 = 0)"
  proof (cases "cs ! k")
    case (Executing at)
    with m obtain at1 where "exec_move L env at e = Returns (at1, e1)" "c = Executing at1" by (auto simp: run_iff)
    with ws_inv_exec [OF inv this(1)] d Executing show ?thesis by (auto split: if_splits)
  next
    case (Pump reading)
    show ?thesis
    proof (cases reading)
      case True
      with m Pump obtain u goes_on where "pump_read L env u e = Returns (goes_on, e1)" "c = Pump False"
        by (auto simp: run_iff split: if_splits option.splits)
      with ws_inv_read [OF inv this(1)] d Pump show ?thesis by simp
    next
      case False
      then have "e1 = e \<or> we_ctx e = Some True \<and> e1 = pump_done e" "\<not> dialling c"
        using m unfolding Pump by (auto split: if_splits option.splits bool.splits)
      with inv d Pump show ?thesis by (auto simp: ws_inv_def pump_done_def)
    qed
  next
    case Closer
    with m obtain err where "ws_Close env e = Returns (err, e1)" "c = Closer" by (auto simp: run_iff)
    with ws_inv_close [OF inv this(1)] d Closer show ?thesis by simp
  qed
  then show ?thesis
    using ok x dialling_exec [of "cs[k := c]"] by (auto simp: actors_ok_def)
qed

lemma turns_ok:
  assumes "turns (ws_move L) cs e cs' e'" and "actors_ok cs e"
  shows "actors_ok cs' e' \<and> length (filter is_exec cs') = length (filter is_exec cs)"
  using assms
proof (induction rule: turns.induct)
  case (turns_step cs e cs1 e1 k env c e2)
  then have IH: "actors_ok cs1 e1" "length (filter is_exec cs1) = length (filter is_exec cs)" by auto
  have "length (filter is_exec (cs1[k := c])) = length (filter is_exec cs1)"
    using filter_update [OF turns_step.hyps(2), of is_exec c] ws_move_kind [OF turns_step.hyps(3)] by simp
  with ws_move_ok [OF IH(1) turns_step.hyps(2,3)] IH(2) show ?case by simp
qed simp

lemma ws_Initialize_ok:
  assumes "ws_Initialize env wid (NewWSEndpoint u h PersistentJSONRPC payload i) = Returns (err, e)"
  shows "ws_inv e" "we_pumps e \<le> 1"
  using assms
  by (auto simp: ws_Initialize_def NewWSEndpoint_def connect_def ws_inv_def we_unlock_def Let_def
      split: if_splits sum.splits)

section \<open>Properties\<close>

text \<open>
  C18. Read pumps under any interleaving: from the initialisation of a persistent endpoint on, with
  any number of executions under way, read pumps and calls of \<^verbatim>\<open>Close\<close> taking turns wherever the
  mutex is free, there are never more read pumps than overlapping executions, so at most one if
  the executions do not overlap; a pump runs as long as the connection is there and the endpoint
  has not been shut down; no turn leaves the mutex locked, and every message in flight is filed
  under its own identifier.
\<close>

theorem read_pumps_bounded:
  assumes "ws_Initialize env wid (NewWSEndpoint u h PersistentJSONRPC payload i) = Returns (err, e0)"
    and "turns (ws_move L) cs e0 cs' e" and "\<forall>at. Executing at \<in> set cs \<longrightarrow> at = AtCheck"
  shows "we_pumps e \<le> max 1 (length (filter is_exec cs)) \<and>
    (we_conn e \<noteq> None \<and> we_ctx e = Some False \<longrightarrow> we_pumps e \<noteq> 0) \<and>
    \<not> we_locked e \<and> (\<forall>k msg. we_inflight e k = Some msg \<longrightarrow> im_inflightID msg = k)"
proof -
  have "filter dialling cs = []"
    using assms(3) by (auto simp: filter_empty_conv dialling_def)
  with ws_Initialize_ok [OF assms(1)] have "actors_ok cs e0" by (simp add: actors_ok_def)
  from turns_ok [OF assms(2) this] show ?thesis by (auto simp: actors_ok_def ws_inv_def)
qed

theorem read_pumps_bounded_witness:
  "\<exists>e0 e :: string WSEndpoint. ws_Initialize example_ws_env ''w''
       (NewWSEndpoint (Some \<lparr>url_Scheme = ''ws'', url_Host = ''h'', url_Path = []\<rparr>) None PersistentJSONRPC [49] ''id'')
       = Returns (None, e0) \<and>
     turns (ws_move example_jsonrpc) [Executing AtCheck, Closer] e0 [Executing AtSend, Closer] e \<and> we_pumps e \<le> 1"
proof -
  let ?new = "NewWSEndpoint (Some \<lparr>url_Scheme = ''ws'', url_Host = ''h'', url_Path = []\<rparr>) None
    PersistentJSONRPC [49] ''id'' :: string WSEndpoint"
  have "\<exists>e0 e. ws_Initialize example_ws_env ''w'' ?new = Returns (None, e0) \<and> \<not> we_locked e0 \<and>
      we_conn e0 \<noteq> None \<and> ws_Close example_ws_env e0 = Returns (None, e)"
    by (simp add: ws_Initialize_def NewWSEndpoint_def connect_def example_ws_env_def ws_Close_def
        we_unlock_def Let_def)
  then obtain e0 e where init: "ws_Initialize example_ws_env ''w'' ?new = Returns (None, e0)"
    and c: "\<not> we_locked e0" "we_conn e0 \<noteq> None" "ws_Close example_ws_env e0 = Returns (None, e)" by blast
  have "run_schedule (ws_move example_jsonrpc) [(example_ws_env, 0), (example_ws_env, 1)] [Executing AtCheck, Closer] e0 =
      Some ([Executing AtSend, Closer], e)"
    using c by simp
  from run_schedule_turns [OF this] have
    run: "turns (ws_move example_jsonrpc) [Executing AtCheck, Closer] e0 [Executing AtSend, Closer] e" .
  from read_pumps_bounded [OF init run] init run show ?thesis by auto
qed

text \<open>
  C30. Two executions that overlap both reconnect: when the connection is gone, both find it so and no
  pump running, since \<^verbatim>\<open>reconnect\<close> waits for the pump before it takes the mutex and does not look
  again; both dial and both start a read pump, and the first connection is overwritten without
  being closed. The two pumps read from the same connection, of which each should have exclusive
  use; and when one of them drops it after a read error, the other panics at its next turn.
\<close>

theorem overlapping_executions_two_pumps:
  fixes env env1 env2 env3 :: ws_env
  assumes "\<not> we_locked e" and "we_Mode e = PersistentJSONRPC" and "we_conn e = None" and "we_pumps e = 0"
    and "we_ctx e = Some False" and "we_URL e = Some u"
    and "wv_dial env1 = Inr a1" and "wv_dial env2 = Inr a2" and "wv_read env3 = Inl err"
  shows "\<exists>e2 e3.
    turns (ws_move L) [Executing AtCheck, Executing AtCheck, Pump False, Pump False] e
      [Executing AtSend, Executing AtSend, Pump False, Pump False] e2 \<and>
    we_pumps e2 = 2 \<and> we_conn e2 = Some a2 \<and>
    turns (ws_move L) [Executing AtSend, Executing AtSend, Pump False, Pump False] e2
      [Executing AtSend, Executing AtSend, Pump False, Pump False] e3 \<and>
    we_pumps e3 = 1 \<and> we_conn e3 = None \<and> ws_move L env (Pump False) e3 = Panics"
proof -
  let ?e2 = "e\<lparr>we_conn := Some a2, we_pumps := 2\<rparr>"
  let ?start = "[Executing AtCheck, Executing AtCheck, Pump False, Pump False]"
  let ?sent = "[Executing AtSend, Executing AtSend, Pump False, Pump False]"
  have d: "redial env1 e = Returns (None, e\<lparr>we_conn := Some a1, we_pumps := 1\<rparr>)"
    "redial env2 (e\<lparr>we_conn := Some a1, we_pumps := 1\<rparr>) = Returns (None, ?e2)"
    using assms by (cases e; simp add: redial_def we_unlock_def)+
  have "run_schedule (ws_move L) [(env1, 0), (env2, 1), (env1, 0), (env2, 1), (env1, 0), (env2, 1), (env1, 0), (env2, 1)]
      ?start e = Some (?sent, ?e2)"
    using assms(1-4) d by (simp add: wait_pump_def)
  from run_schedule_turns [OF this] have t: "turns (ws_move L) ?start e ?sent ?e2" .
  obtain rs where h: "handleWebSocketReadError env3 err u ?e2 =
      Returns (foldl (\<lambda>e r. send_error r u e) ?e2 rs\<lparr>we_conn := None\<rparr>)"
    using handleWebSocketReadError_spec [of ?e2 env3 err u] assms(1,5) by auto
  let ?e3 = "pump_done (foldl (\<lambda>e r. send_error r u e) ?e2 rs\<lparr>we_conn := None\<rparr>)"
  have "run_schedule (ws_move L) [(env3, 2), (env3, 2)] ?sent ?e2 = Some (?sent, ?e3)"
    using assms h by (simp add: pump_read_def)
  from run_schedule_turns [OF this] have t3: "turns (ws_move L) ?sent ?e2 ?sent ?e3" .
  have "we_pumps ?e3 = 1" "we_conn ?e3 = None" "ws_move L env (Pump False) ?e3 = Panics"
    using assms(5) by (simp_all add: pump_done_def)
  with t t3 show ?thesis by (intro exI [of _ ?e2] exI [of _ ?e3]) simp
qed

theorem overlapping_executions_two_pumps_witness:
  "\<exists>e2. turns (ws_move example_jsonrpc) [Executing AtCheck, Executing AtCheck, Pump False, Pump False]
      (example_ws PersistentJSONRPC) [Executing AtSend, Executing AtSend, Pump False, Pump False] e2 \<and> we_pumps e2 = 2"
proof -
  have p: "we_pumps (example_ws PersistentJSONRPC) = 0" by (simp add: example_ws_def NewWSEndpoint_def)
  have v: "wv_dial example_ws_env = Inr ''a''"
    "wv_read (example_ws_env\<lparr>wv_read := Inl (CloseError 1006 ''x'' ''eof'')\<rparr>) = Inl (CloseError 1006 ''x'' ''eof'')"
    by (simp_all add: example_ws_env_def)
  from overlapping_executions_two_pumps [where L = example_jsonrpc and e = "example_ws PersistentJSONRPC" and env = example_ws_env,
      OF _ _ _ p _ _ v(1) v(1) v(2)]
  show ?thesis by auto
qed

text \<open>
  C37. A task may panic when the connection breaks under it: if the pump drops the connection on a
  read error after the task has found the connection in place and before it takes the mutex, the
  task writes to a connection that is nil.
\<close>

theorem send_after_pump_exit_panics:
  fixes env env1 :: ws_env
  assumes "ws_live u e" and "we_pumps e = 1" and "wv_read env1 = Inl err"
    and "prepareJSONRPCMessage L env e = Inr pm"
  shows "\<exists>e2. turns (ws_move L) [Executing AtCheck, Pump False] e [Executing AtSend, Pump False] e2 \<and>
    we_conn e2 = None \<and> ws_move L env (Executing AtSend) e2 = Panics"
proof -
  obtain payload msg where pm: "pm = (payload, msg)" by (cases pm)
  have e: "\<not> we_locked e" "we_ctx e = Some False" "we_URL e = Some u" "we_conn e \<noteq> None"
    using assms(1) by (simp_all add: ws_live_def)
  obtain rs where h: "handleWebSocketReadError env1 err u e =
      Returns (foldl (\<lambda>e r. send_error r u e) e rs\<lparr>we_conn := None\<rparr>)"
    using handleWebSocketReadError_spec [OF e(1), of env1 err u] e(2) by auto
  let ?e2 = "pump_done (foldl (\<lambda>e r. send_error r u e) e rs\<lparr>we_conn := None\<rparr>)"
  have "run_schedule (ws_move L) [(env, 0), (env1, 1), (env1, 1)] [Executing AtCheck, Pump False] e =
      Some ([Executing AtSend, Pump False], ?e2)"
    using e assms(2,3) h by (simp add: pump_read_def)
  from run_schedule_turns [OF this]
  have t: "turns (ws_move L) [Executing AtCheck, Pump False] e [Executing AtSend, Pump False] ?e2" .
  have pay: "we_Payload (foldl (\<lambda>e r. send_error r u e) e rs) = we_Payload e"
    "we_URL (foldl (\<lambda>e r. send_error r u e) e rs) = we_URL e" for rs
    by (induction rs arbitrary: e) (auto simp: send_error_def)
  have "prepareJSONRPCMessage L env ?e2 = Inr (payload, msg)"
    using assms(4) pm prepareJSONRPCMessage_cong [of e ?e2 L env] by (simp add: pump_done_def pay)
  then have "persistent_send L env ?e2 = Panics"
    using e pay by (simp add: persistent_send_def pump_done_def Let_def)
  then have "ws_move L env (Executing AtSend) ?e2 = Panics" by simp
  with t show ?thesis by (intro exI [of _ ?e2]) (simp add: pump_done_def)
qed

lemma example_prepare: "\<exists>pm. prepareJSONRPCMessage example_jsonrpc example_ws_env example_persistent = Inr pm"
  by (simp add: prepareJSONRPCMessage_def example_jsonrpc_def example_persistent_def NewWSEndpoint_def Let_def)

theorem send_after_pump_exit_panics_witness:
  "\<exists>e2. turns (ws_move example_jsonrpc) [Executing AtCheck, Pump False] example_persistent [Executing AtSend, Pump False] e2 \<and>
     ws_move example_jsonrpc example_ws_env (Executing AtSend) e2 = Panics"
proof -
  let ?u = "\<lparr>url_Scheme = ''ws'', url_Host = ''h'', url_Path = []\<rparr>"
  have live: "ws_live ?u example_persistent" "we_pumps example_persistent = 1"
    by (simp_all add: ws_live_def example_persistent_def NewWSEndpoint_def)
  have r: "wv_read (example_ws_env\<lparr>wv_read := Inl (CloseError 1001 ''x'' ''bye'')\<rparr>) = Inl (CloseError 1001 ''x'' ''bye'')"
    by simp
  obtain pm where pm: "prepareJSONRPCMessage example_jsonrpc example_ws_env example_persistent = Inr pm"
    using example_prepare by blast
  from send_after_pump_exit_panics [OF live r pm] show ?thesis by blast
qed

end
