(* ===== verification/Delivery.thy ===== *)
theory Delivery
  imports Wadjit_Properties Wadjit_Queue WS_Concurrent
begin

text \<open>
  The whole program: the task manager executes the tasks of the registered watchers, the read pumps
  of persistent endpoints take turns, the responses wait to be sent to the gather channel, the
  forwarding goroutine hands them on, and the user adds, removes and closes. What reaches the
  consumer is what the tasks produced.
\<close>

section \<open>Executing a task\<close>

text \<open>
  The outside of one execution. A user's own task may send any responses; the endpoints of the
  package send to the channel they were initialised with, which for WebSocket endpoints is the
  list of what was sent.
\<close>

record run_env =
  re_http :: exec_env
  re_ws :: ws_env
  re_custom :: "go_err \<times> WatcherResponse list"

definition ws_sent :: "'id WSEndpoint \<Rightarrow> 'id WSEndpoint \<Rightarrow> WatcherResponse list" where
  "ws_sent e e1 = drop (length (we_respChan e)) (we_respChan e1)"

text \<open>
  The job runs the tasks that \<open>task_Task\<close> gave when it was made. They hold the endpoint and, for
  HTTP, its method and payload, which nothing changes afterwards.
\<close>

definition task_Execute ::
    "('req, 'resp, 'id) jsonrpc_lib \<Rightarrow> run_env \<Rightarrow> 'id WatcherTask
       \<Rightarrow> (go_err \<times> 'id WatcherTask \<times> WatcherResponse list) outcome" where
  "task_Execute J env t =
     (case t of
        HTTPTask e \<Rightarrow>
          (case http_Execute (re_http env) (http_Task e) e of
             None \<Rightarrow> Panics
           | Some (e1, wrs, err) \<Rightarrow> Returns (err, HTTPTask e1, wrs))
      | WSTask e \<Rightarrow>
          and_then
            (case ws_Task e of
               wsPersistent protocol \<Rightarrow> persistent_Execute J (re_ws env) protocol e
             | wsOneHit \<Rightarrow> oneHit_Execute (re_ws env) e)
            (\<lambda>(err, e1). Returns (err, WSTask e1, ws_sent e e1))
      | CustomTask c \<Rightarrow> Returns (fst (re_custom env), t, snd (re_custom env)))"

section \<open>Runs of the whole\<close>

text \<open>
  Beside the Wadjit there are the watchers that have left the registry and the responses that tasks
  have produced and that wait to be sent. A job can go on after its watcher has left, as when the
  watcher could not be closed, so a removed watcher's tasks may still be executed here. An event is
  something that happened to a task of a watcher, with the responses it produced, or an event of
  the channels.
\<close>

record ('id, 'tm) system =
  sy_wadjit :: "('id, 'tm) Wadjit"
  sy_removed :: "(string \<times> 'id Watcher) list"
  sy_pending :: "WatcherResponse list"

datatype 'id system_event =
    Executed string "'id WatcherTask" "WatcherResponse list"
  | Turned string "'id WatcherTask" "WatcherResponse list"
  | Channel event

datatype place = Registered string | Removed nat

fun watcher_at :: "place \<Rightarrow> ('id, 'tm) system \<Rightarrow> (string \<times> 'id Watcher) option" where
  "watcher_at (Registered i) s = map_option (Pair i) (map_of (wj_watchers (sy_wadjit s)) i)"
| "watcher_at (Removed k) s = (if k < length (sy_removed s) then Some (sy_removed s ! k) else None)"

definition set_task :: "nat \<Rightarrow> 'id WatcherTask \<Rightarrow> 'id Watcher \<Rightarrow> 'id Watcher" where
  "set_task j t x = x\<lparr>w_Tasks := (w_Tasks x)[j := t]\<rparr>"

fun put_watcher :: "place \<Rightarrow> 'id Watcher \<Rightarrow> ('id, 'tm) system \<Rightarrow> ('id, 'tm) system" where
  "put_watcher (Registered i) x s =
     s\<lparr>sy_wadjit := (sy_wadjit s)\<lparr>wj_watchers := sm_Store i x (wj_watchers (sy_wadjit s))\<rparr>\<rparr>"
| "put_watcher (Removed k) x s = s\<lparr>sy_removed := (sy_removed s)[k := (fst (sy_removed s ! k), x)]\<rparr>"

definition produce :: "WatcherResponse list \<Rightarrow> ('id, 'tm) system \<Rightarrow> ('id, 'tm) system" where
  "produce wrs s = s\<lparr>sy_pending := sy_pending s @ wrs\<rparr>"

text \<open>The Wadjit moves on; the watchers that are in the registry no more are kept aside.\<close>

definition advance :: "('id, 'tm) Wadjit \<Rightarrow> ('id, 'tm) system \<Rightarrow> ('id, 'tm) system" where
  "advance w s =
     s\<lparr>sy_wadjit := w,
       sy_removed := sy_removed s @
         filter (\<lambda>(i, x). map_of (wj_watchers w) i = None) (wj_watchers (sy_wadjit s))\<rparr>"

text \<open>
  The steps: a task of a watcher is executed; a participant of a WebSocket endpoint moves, so that
  the parts of its executions, its pumps and \<^verbatim>\<open>Close\<close> interleave; the body of a response of an
  HTTP endpoint is read to its end or closed, which frees its connection; a waiting response is
  sent; anything else that happens to the Wadjit.
\<close>

definition body_read :: "nat \<Rightarrow> bool \<Rightarrow> HTTPEndpoint \<Rightarrow> HTTPEndpoint" where
  "body_read k keep e =
     e\<lparr>ep_client := map_option (\<lambda>c. c\<lparr>hc_transport := release k keep (hc_transport c)\<rparr>) (ep_client e)\<rparr>"

inductive system_step ::
    "('tm, 'opt, 'lg, 'mode) taskman_lib \<Rightarrow> ('req, 'resp, 'id) jsonrpc_lib \<Rightarrow> ('id, 'tm) system
       \<Rightarrow> 'id system_event list \<Rightarrow> ('id, 'tm) system \<Rightarrow> bool"
  for L J where
  sys_execute:
    "watcher_at p s = Some (i, x) \<Longrightarrow> j < length (w_Tasks x) \<Longrightarrow>
     task_Execute J env (w_Tasks x ! j) = Returns (err, t, wrs) \<Longrightarrow>
     system_step L J s [Executed i (w_Tasks x ! j) wrs] (produce wrs (put_watcher p (set_task j t x) s))"
| sys_turn:
    "watcher_at p s = Some (i, x) \<Longrightarrow> j < length (w_Tasks x) \<Longrightarrow> w_Tasks x ! j = WSTask e \<Longrightarrow>
     ws_move J env c e = Returns (c1, e1) \<Longrightarrow>
     system_step L J s [Turned i (WSTask e) (ws_sent e e1)]
       (produce (ws_sent e e1) (put_watcher p (set_task j (WSTask e1) x) s))"
| sys_body:
    "watcher_at p s = Some (i, x) \<Longrightarrow> j < length (w_Tasks x) \<Longrightarrow> w_Tasks x ! j = HTTPTask e \<Longrightarrow>
     system_step L J s [] (put_watcher p (set_task j (HTTPTask (body_read k keep e)) x) s)"
| sys_send:
    "wadjit_step L (sy_wadjit s) es w \<Longrightarrow> sents es = [r] \<Longrightarrow> r \<in> set (sy_pending s) \<Longrightarrow>
     system_step L J s (map Channel es) ((advance w s)\<lparr>sy_pending := remove1 r (sy_pending s)\<rparr>)"
| sys_other:
    "wadjit_step L (sy_wadjit s) es w \<Longrightarrow> sents es = [] \<Longrightarrow> system_step L J s (map Channel es) (advance w s)"

abbreviation system_run ::
    "('tm, 'opt, 'lg, 'mode) taskman_lib \<Rightarrow> ('req, 'resp, 'id) jsonrpc_lib \<Rightarrow> ('id, 'tm) system
       \<Rightarrow> 'id system_event list \<Rightarrow> ('id, 'tm) system \<Rightarrow> bool" where
  "system_run L J \<equiv> runs (system_step L J)"

lemmas sys_refl = runs_refl [where step = "system_step L J"] for L J
lemmas sys_one = runs_one [where step = "system_step L J"] for L J
lemmas sys_step = runs_step [where step = "system_step L J"] for L J
lemmas sys_trans = runs_trans [where step = "system_step L J"] for L J

fun produced :: "'id system_event list \<Rightarrow> WatcherResponse list" where
  "produced [] = []"
| "produced (Executed i t wrs # es) = wrs @ produced es"
| "produced (Turned i t wrs # es) = wrs @ produced es"
| "produced (Channel e # es) = produced es"

fun channel_events :: "'id system_event list \<Rightarrow> event list" where
  "channel_events [] = []"
| "channel_events (Executed i t wrs # es) = channel_events es"
| "channel_events (Turned i t wrs # es) = channel_events es"
| "channel_events (Channel e # es) = e # channel_events es"

lemma system_events_append [simp]:
  "produced (es @ fs) = produced es @ produced fs"
  "channel_events (es @ fs) = channel_events es @ channel_events fs"
  by (induction es rule: produced.induct) auto

lemma channel_only [simp]: "produced (map Channel es) = []" "channel_events (map Channel es) = es"
  by (induction es) auto

section \<open>What the endpoints send\<close>

text \<open>Between two states of a WebSocket endpoint: it is the same endpoint and sent under its own name.\<close>

definition sends_own :: "'id WSEndpoint \<Rightarrow> 'id WSEndpoint \<Rightarrow> bool" where
  "sends_own e e1 \<longleftrightarrow> we_ID e1 = we_ID e \<and> we_watcherID e1 = we_watcherID e \<and>
     (\<exists>wrs. we_respChan e1 = we_respChan e @ wrs \<and>
       (\<forall>wr \<in> set wrs. wr_TaskID wr = we_ID e \<and> wr_WatcherID wr = we_watcherID e))"

lemma sends_own_refl: "sends_own e e"
  by (simp add: sends_own_def)

lemma sends_own_same:
  "we_ID e1 = we_ID e \<Longrightarrow> we_watcherID e1 = we_watcherID e \<Longrightarrow> we_respChan e1 = we_respChan e \<Longrightarrow> sends_own e e1"
  by (simp add: sends_own_def)

lemma sends_own_trans [trans]: "sends_own e e1 \<Longrightarrow> sends_own e1 e2 \<Longrightarrow> sends_own e e2"
  by (auto simp: sends_own_def)

lemma sends_own_ws_sent:
  assumes "sends_own e e1"
  shows "we_ID e1 = we_ID e" "we_watcherID e1 = we_watcherID e"
    "\<forall>wr \<in> set (ws_sent e e1). wr_TaskID wr = we_ID e \<and> wr_WatcherID wr = we_watcherID e"
  using assms by (auto simp: sends_own_def ws_sent_def)

lemma send_error_own: "sends_own e (send_error err u e)"
  by (simp add: sends_own_def send_error_def errorResponse_def send_resp_def)

lemma send_resp_own: "wr_TaskID wr = we_ID e \<Longrightarrow> wr_WatcherID wr = we_watcherID e \<Longrightarrow> sends_own e (send_resp wr e)"
  by (simp add: sends_own_def send_resp_def)

lemma we_lock_Returns: "we_lock e = Returns e1 \<longleftrightarrow> \<not> we_locked e \<and> e1 = e\<lparr>we_locked := True\<rparr>"
  by (auto simp: we_lock_def)

lemma nilConn_Returns: "nilConn e = Returns (b, e1) \<longleftrightarrow> \<not> we_locked e \<and> e1 = e \<and> b = (we_conn e = None)"
  by (auto simp: nilConn_def run_iff we_lock_Returns)

lemma redial_own:
  assumes "redial env e = Returns (err, e1)"
  shows "sends_own e e1"
  using assms
  by (auto simp: redial_def we_unlock_def we_lock_Returns run_iff sends_own_def split: if_splits sum.splits)

lemma reconnect_own:
  assumes "reconnect env e = Returns (err, e1)"
  shows "sends_own e e1"
  using assms redial_own
  by (fastforce simp: reconnect_def close_old_def wait_pump_def nilConn_Returns run_iff sends_own_refl split: if_splits)

lemma ws_Close_own:
  assumes "ws_Close env e = Returns (err, e1)"
  shows "sends_own e e1"
  using assms
  by (auto simp: ws_Close_def we_unlock_def we_lock_Returns run_iff sends_own_def split: if_splits option.splits)

lemma handleWriteError_blocks': "we_locked e \<Longrightarrow> handleWriteError env err u e \<noteq> Returns r"
  by (simp add: handleWriteError_blocks)

lemma persistent_send_own:
  assumes "persistent_send J env e = Returns (err, e1)"
  shows "sends_own e e1"
  using assms
  by (auto simp: persistent_send_def we_unlock_def we_lock_Returns run_iff sends_own_def write_message_def Let_def
      send_error_def send_resp_def errorResponse_def handleWriteError_blocks
      split: if_splits option.splits sum.splits bool.splits)

lemma oneHit_own:
  assumes "oneHit_Execute env e = Returns (err, e1)"
  shows "sends_own e e1" "length (ws_sent e e1) \<le> 1"
  using assms
  by (auto simp: oneHit_Execute_def we_unlock_def we_lock_Returns run_iff sends_own_def ws_sent_def write_message_def
      Let_def send_error_def send_resp_def errorResponse_def
      split: if_splits option.splits sum.splits bool.splits prod.splits)

lemma closing_own:
  assumes "closing env e = Returns e1"
  shows "sends_own e e1"
  using assms by (auto simp: closing_def closeConn_def we_unlock_def we_lock_Returns run_iff sends_own_def split: if_splits)

lemma readError_own:
  assumes "handleWebSocketReadError env err u e = Returns e1"
  shows "sends_own e e1"
proof -
  have "closing env e = Returns e1 \<or> (\<exists>er. closing env (send_error er u e) = Returns e1)"
    using assms
    by (auto simp: handleWebSocketReadError_def handleWebSocketCloseError_def handleNetworkError_def
        split: option.splits bool.splits if_splits prod.splits)
  then show ?thesis using closing_own send_error_own sends_own_trans by metis
qed

lemma pump_read_own:
  assumes "pump_read J env u e = Returns (goes_on, e1)"
  shows "sends_own e e1"
proof -
  have "sends_own e e1" if "handleWebSocketReadError env err u e = Returns e2" "e1 = pump_done e2" for err u e2
    using readError_own [OF that(1)] that(2) by (auto simp: sends_own_def pump_done_def)
  moreover have "sends_own e (handleJSONRPCResponse J p ts u e)" for p ts u
    using handleJSONRPCResponse_one [of J p ts u e] by (auto simp: sends_own_def)
  moreover have "sends_own e (handleRegularResponse p u e)" for p u
    by (simp add: handleRegularResponse_def send_resp_own)
  ultimately show ?thesis
    using assms by (auto simp: pump_read_def run_iff Let_def split: if_splits sum.splits)
qed

lemma exec_move_own: "exec_move J env at e = Returns (at1, e1) \<Longrightarrow> sends_own e e1"
  by (cases at) (auto simp: run_iff nilConn_Returns close_old_def wait_pump_def sends_own_refl
      split: if_splits intro: redial_own persistent_send_own)

lemma ws_move_own:
  assumes "ws_move J env c e = Returns (c1, e1)"
  shows "sends_own e e1"
proof (cases c)
  case (Executing at)
  with assms show ?thesis by (auto simp: run_iff intro: exec_move_own)
next
  case (Pump reading)
  have "sends_own e (pump_done e)" by (simp add: sends_own_def pump_done_def)
  with assms Pump show ?thesis
    by (auto simp: run_iff sends_own_refl intro: pump_read_own split: if_splits option.splits bool.splits)
next
  case Closer
  with assms show ?thesis by (auto simp: run_iff intro: ws_Close_own)
qed

lemma persistent_Execute_own:
  assumes "persistent_Execute J env protocol e = Returns (err, e1)"
  shows "sends_own e e1"
proof (cases "protocol = JSONRPC")
  case True
  with assms obtain er e2 where m: "(if we_conn e = None then reconnect env e else Returns (None, e)) = Returns (er, e2)"
    "(if er \<noteq> None then Returns (er, e2) else persistent_send J env e2) = Returns (err, e1)"
    by (auto simp: persistent_Execute_def nilConn_Returns run_iff)
  have "sends_own e e2" using m(1) reconnect_own sends_own_refl by (auto split: if_splits)
  moreover have "sends_own e2 e1" using m(2) persistent_send_own sends_own_refl by (auto split: if_splits)
  ultimately show ?thesis by (rule sends_own_trans)
qed (use assms in \<open>simp add: persistent_Execute_def sends_own_refl\<close>)

text \<open>An execution of an HTTP endpoint that returns sends one response, and the endpoint stays the same.\<close>

lemma http_Execute_own:
  assumes "http_Execute x r e = Some (e1, wrs, err)"
  shows "ep_ID e1 = ep_ID e" "ep_watcherID e1 = ep_watcherID e"
    "\<exists>wr. wrs = [wr] \<and> wr_TaskID wr = ep_ID e \<and> wr_WatcherID wr = ep_watcherID e"
proof -
  obtain u where u: "ep_URL e = Some u" using assms by (auto simp: http_Execute_def run_iff)
  have "ep_ID e1 = ep_ID e \<and> ep_watcherID e1 = ep_watcherID e \<and>
      (\<exists>wr. wrs = [wr] \<and> wr_TaskID wr = ep_ID e \<and> wr_WatcherID wr = ep_watcherID e)"
  proof (cases "NewRequest x (hr_method r) u (hr_data r)")
    case (Inl er)
    then show ?thesis using assms http_Execute_invalid [OF u Inl] by (auto simp: errorResponse_def)
  next
    case (Inr req0)
    obtain c where c: "ep_client e = Some c" using assms u Inr by (auto simp: http_Execute_def run_iff)
    obtain p trips res where "client_Do x (hc_transport c) (task_request e req0) = Some (p, trips, res)"
      using client_Do_total by blast
    from http_Execute_run [where x = x and r = r, OF u c Inr this] assms show ?thesis by auto
  qed
  then show "ep_ID e1 = ep_ID e" "ep_watcherID e1 = ep_watcherID e"
    "\<exists>wr. wrs = [wr] \<and> wr_TaskID wr = ep_ID e \<and> wr_WatcherID wr = ep_watcherID e" by auto
qed

section \<open>Names\<close>

text \<open>Every task of a watcher that has been added knows the watcher's ID.\<close>

fun task_named :: "string \<Rightarrow> 'id WatcherTask \<Rightarrow> bool" where
  "task_named i (HTTPTask e) = (ep_watcherID e = i)"
| "task_named i (WSTask e) = (we_watcherID e = i)"
| "task_named i (CustomTask c) = True"

definition watcher_named :: "string \<times> 'id Watcher \<Rightarrow> bool" where
  "watcher_named ix \<longleftrightarrow> list_all (task_named (fst ix)) (w_Tasks (snd ix))"

lemma connect_own:
  assumes "connect env e = Returns (err, e1)"
  shows "sends_own e e1"
  using assms
  by (auto simp: connect_def we_unlock_def we_lock_Returns run_iff sends_own_def split: if_splits option.splits sum.splits)

lemma task_Initialize_named:
  assumes "task_Initialize env i t = Returns (err, t1)"
  shows "task_named i t1"
proof (cases t)
  case (HTTPTask e)
  then show ?thesis
    using assms by (auto simp: task_Initialize_def http_Initialize_def Let_def run_iff split: option.splits)
next
  case (WSTask e)
  have "we_watcherID e2 = i" if "ws_Initialize (te_ws env) i e = Returns (er, e2)" for er e2
    using that connect_own [of "te_ws env"]
    by (auto simp: ws_Initialize_def we_unlock_def we_lock_Returns run_iff Let_def sends_own_def
        split: WSEndpointMode.splits) fastforce+
  then show ?thesis using assms WSTask by (auto simp: task_Initialize_def run_iff)
qed (use assms in \<open>auto simp: task_Initialize_def\<close>)

lemma started_named:
  assumes "watcher_start env c x = Returns (err, y)"
  shows "watcher_named (w_ID x, y)"
proof -
  obtain errs0 where t: "each_task (\<lambda>te. task_Initialize te (w_ID x)) env 0 errs0 (w_Tasks x) = Returns (err, w_Tasks y)"
    using assms by (auto simp: watcher_start_def Let_def run_iff split: if_splits)
  from each_task_Returns [OF t] show ?thesis
    using task_Initialize_named by (fastforce simp: watcher_named_def list_all_length)
qed

definition registry_named :: "('id, 'tm) Wadjit \<Rightarrow> bool" where
  "registry_named w \<longleftrightarrow> list_all watcher_named (wj_watchers w)"

lemma named_Store: "list_all watcher_named m \<Longrightarrow> watcher_named (i, x) \<Longrightarrow> list_all watcher_named (sm_Store i x m)"
  by (induction m) (auto simp: sm_Store_def)

lemma named_delete: "list_all watcher_named m \<Longrightarrow> list_all watcher_named (fold AList.delete ids m)"
proof (induction ids arbitrary: m)
  case (Cons i ids)
  have "list_all watcher_named (AList.delete i m)"
    using Cons.prems by (induction m) auto
  from Cons.IH [OF this] show ?case by simp
qed simp

lemma named_load: "list_all watcher_named m \<Longrightarrow> map_of m i = Some x \<Longrightarrow> watcher_named (i, x)"
  using map_of_SomeD by (fastforce simp: list_all_iff)

lemma step_registry_named:
  assumes "wadjit_step L w es w'" "registry_named w"
  shows "registry_named w'"
  using assms(1)
proof (cases rule: step_registry)
  case same
  then show ?thesis using assms(2) by (simp add: registry_named_def)
next
  case (deleted ids)
  then show ?thesis using assms(2) by (simp add: registry_named_def named_delete)
next
  case (added env x err x')
  from added show ?thesis
  proof (cases rule: AddWatcher_cases)
    case rejected
    then show ?thesis using assms(2) by simp
  next
    case (unstarted y y1 e)
    then show ?thesis using assms(2) started_named [OF unstarted(3)] by (simp add: registry_named_def named_Store)
  next
    case (unscheduled y y1 e tm)
    then show ?thesis using assms(2) started_named [OF unscheduled(3)] by (simp add: registry_named_def named_Store)
  next
    case (added y y1 tm)
    then show ?thesis using assms(2) started_named [OF added(3)] by (simp add: registry_named_def named_Store)
  qed
qed

text \<open>That a response is the task's own, and what an event may produce.\<close>

fun task_owns :: "string \<Rightarrow> 'id WatcherTask \<Rightarrow> WatcherResponse \<Rightarrow> bool" where
  "task_owns i (HTTPTask e) wr = (wr_TaskID wr = ep_ID e \<and> wr_WatcherID wr = i)"
| "task_owns i (WSTask e) wr = (wr_TaskID wr = we_ID e \<and> wr_WatcherID wr = i)"
| "task_owns i (CustomTask c) wr = True"

fun event_ok :: "'id system_event \<Rightarrow> bool" where
  "event_ok (Executed i t wrs) = (list_all (task_owns i t) wrs \<and>
     (case t of
        HTTPTask e \<Rightarrow> length wrs = 1
      | WSTask e \<Rightarrow> we_Mode e \<noteq> PersistentJSONRPC \<longrightarrow> length wrs \<le> 1
      | CustomTask c \<Rightarrow> True))"
| "event_ok (Turned i t wrs) = list_all (task_owns i t) wrs"
| "event_ok (Channel e) = True"

lemma task_Execute_ok:
  assumes "task_Execute J env t = Returns (err, t1, wrs)" "task_named i t"
  shows "event_ok (Executed i t wrs) \<and> task_named i t1"
proof (cases t)
  case (HTTPTask e)
  then obtain e1 where h: "http_Execute (re_http env) (http_Task e) e = Some (e1, wrs, err)" "t1 = HTTPTask e1"
    using assms(1) by (auto simp: task_Execute_def split: option.splits)
  then show ?thesis using http_Execute_own [OF h(1)] assms(2) HTTPTask by auto
next
  case (WSTask e)
  obtain e1 where e1: "t1 = WSTask e1" "wrs = ws_sent e e1" "sends_own e e1"
    "we_Mode e \<noteq> PersistentJSONRPC \<longrightarrow> length wrs \<le> 1"
    using assms(1) WSTask oneHit_own [of "re_ws env" e] persistent_Execute_own [of J "re_ws env" _ e]
    by (cases "we_Mode e") (auto simp: task_Execute_def ws_Task_def run_iff)
  then show ?thesis using sends_own_ws_sent [OF e1(3)] assms(2) WSTask by (simp add: list_all_iff)
qed (use assms in \<open>auto simp: task_Execute_def list_all_iff\<close>)

section \<open>The invariant of the runs\<close>

definition system_ok :: "'id system_event list \<Rightarrow> ('id, 'tm) system \<Rightarrow> bool" where
  "system_ok es s \<longleftrightarrow>
     channels_ok (sy_wadjit s) \<and> fifo (channel_events es) (sy_wadjit s) \<and>
     registry_named (sy_wadjit s) \<and> list_all watcher_named (sy_removed s) \<and>
     mset (produced es) = mset (sents (channel_events es)) + mset (sy_pending s) \<and> list_all event_ok es"

lemma set_task_named: "watcher_named (i, x) \<Longrightarrow> task_named i t \<Longrightarrow> watcher_named (i, set_task j t x)"
  by (simp add: watcher_named_def set_task_def list_all_update)

lemma watcher_at_named:
  assumes "system_ok es s" "watcher_at p s = Some (i, x)"
  shows "watcher_named (i, x)"
  using assms named_load by (cases p) (auto simp: system_ok_def registry_named_def list_all_length split: if_splits)

lemma put_watcher_ok:
  assumes "system_ok es s" "watcher_at p s = Some (i, x)" "watcher_named (i, y)"
    and "event_ok ev" "produced [ev] = wrs" "channel_events [ev] = []"
  shows "system_ok (es @ [ev]) (produce wrs (put_watcher p y s))"
proof (cases p)
  case (Registered k)
  have "same_channels (sy_wadjit s) (sy_wadjit (put_watcher p y s))"
    by (simp add: Registered same_channels_def)
  from same_channels_ok [OF this] assms Registered show ?thesis
    by (auto simp: system_ok_def produce_def registry_named_def named_Store)
next
  case (Removed k)
  then show ?thesis
    using assms by (auto simp: system_ok_def produce_def list_all_update split: if_splits)
qed

lemma put_watcher_quiet:
  assumes "system_ok es s" "watcher_at p s = Some (i, x)" "watcher_named (i, y)"
  shows "system_ok es (put_watcher p y s)"
proof (cases p)
  case (Registered k)
  have "same_channels (sy_wadjit s) (sy_wadjit (put_watcher p y s))"
    by (simp add: Registered same_channels_def)
  from same_channels_ok [OF this] assms Registered show ?thesis
    by (auto simp: system_ok_def registry_named_def named_Store)
next
  case (Removed k)
  then show ?thesis
    using assms by (auto simp: system_ok_def list_all_update split: if_splits)
qed

lemma advance_ok:
  assumes ok: "system_ok es s" and st: "wadjit_step L (sy_wadjit s) cs w"
    and sent: "mset (sy_pending s) = mset (sents cs) + mset ps"
  shows "system_ok (es @ map Channel cs) ((advance w s)\<lparr>sy_pending := ps\<rparr>)"
  using ok sent step_channels_ok [OF st] step_fifo [OF st] step_registry_named [OF st]
  by (auto simp: system_ok_def advance_def registry_named_def list_all_iff)

lemma system_step_ok:
  assumes "system_step L J s es s'" "system_ok fs s"
  shows "system_ok (fs @ es) s'"
  using assms(1)
proof (cases rule: system_step.cases)
  case (sys_execute p i x j env err t wrs)
  have n: "watcher_named (i, x)" by (rule watcher_at_named [OF assms(2) sys_execute(3)])
  then have "task_named i (w_Tasks x ! j)"
    using sys_execute(4) by (simp add: watcher_named_def list_all_length)
  from task_Execute_ok [OF sys_execute(5) this] n have
    "event_ok (Executed i (w_Tasks x ! j) wrs)" "watcher_named (i, set_task j t x)"
    by (auto simp: set_task_named)
  from put_watcher_ok [OF assms(2) sys_execute(3) this(2,1)] sys_execute(1,2) show ?thesis by simp
next
  case (sys_turn p i x j e env c c1 e1)
  have n: "watcher_named (i, x)" by (rule watcher_at_named [OF assms(2) sys_turn(3)])
  then have "task_named i (WSTask e)"
    using sys_turn(4,5) by (metis fst_conv list_all_length snd_conv watcher_named_def)
  with sends_own_ws_sent [OF ws_move_own [OF sys_turn(6)]] n have
    "event_ok (Turned i (WSTask e) (ws_sent e e1))" "watcher_named (i, set_task j (WSTask e1) x)"
    by (auto simp: set_task_named list_all_iff)
  from put_watcher_ok [OF assms(2) sys_turn(3) this(2,1)] sys_turn(1,2) show ?thesis by simp
next
  case (sys_body p i x j e k keep)
  have n: "watcher_named (i, x)" by (rule watcher_at_named [OF assms(2) sys_body(3)])
  then have "task_named i (w_Tasks x ! j)"
    using sys_body(4) by (metis fst_conv list_all_length snd_conv watcher_named_def)
  then have "watcher_named (i, set_task j (HTTPTask (body_read k keep e)) x)"
    using n sys_body(5) by (simp add: set_task_named body_read_def)
  from put_watcher_quiet [OF assms(2) sys_body(3) this] sys_body(1,2) show ?thesis by simp
next
  case (sys_send cs w r)
  show ?thesis
    unfolding sys_send(1,2) by (rule advance_ok [OF assms(2) sys_send(3)]) (use sys_send in simp)
next
  case (sys_other cs w)
  have "(advance w s)\<lparr>sy_pending := sy_pending s\<rparr> = advance w s" by (simp add: advance_def)
  with advance_ok [OF assms(2) sys_other(3), of "sy_pending s"] sys_other(1,2,4) show ?thesis by simp
qed

interpretation whole: run_invariant "system_step L J" system_ok for L J
  by unfold_locales (rule system_step_ok)

definition new_system :: "('id, 'tm) Wadjit \<Rightarrow> ('id, 'tm) system" where
  "new_system w = \<lparr>sy_wadjit = w, sy_removed = [], sy_pending = []\<rparr>"

lemma system_run_ok:
  assumes "system_run L J s0 es s" "New L G opts = Returns w0" "s0 = new_system w0"
  shows "system_ok es s"
  using whole.always [OF assms(1)] New_cases [OF assms(2)] assms(3)
  by (simp add: system_ok_def new_system_def registry_named_def)

section \<open>Delivery\<close>

text \<open>
  C1. From the tasks to the consumer. In every run of a new Wadjit with its watchers, tasks, pumps and
  calls, the responses the tasks produced are, each as often as it was produced, those the consumer
  has received, those in the two channels and in the hand of the forwarding goroutine, those waiting
  to be sent, and at most one that was dropped, which happens only after the cancellation. Every
  response the consumer receives was produced by an execution or a pump of a task, and carries the
  ID of that task and of the watcher it was added with; an execution of an HTTP endpoint produces
  exactly one response, one of a one-hit WebSocket endpoint at most one. Received are the responses
  in the order in which they were sent.
\<close>

theorem delivery:
  assumes "New L G opts = Returns w0" and "system_run L J (new_system w0) es s"
    and "w = sy_wadjit s" and "cs = channel_events es"
  shows "mset (produced es) = mset (delivereds cs) + mset (ch_buf (Responses w)) + mset (hand (wj_listener w)) +
      mset (ch_buf (wj_respGatherChan w)) + mset (sy_pending s) + mset (droppeds cs) \<and>
    length (droppeds cs) \<le> 1 \<and> (\<not> wj_cancelled w \<longrightarrow> droppeds cs = []) \<and>
    (\<exists>rest. sents cs = delivereds cs @ rest) \<and>
    (\<forall>r \<in> set (delivereds cs). \<exists>i t wrs. (Executed i t wrs \<in> set es \<or> Turned i t wrs \<in> set es) \<and>
       r \<in> set wrs \<and> task_owns i t r) \<and>
    (\<forall>ev \<in> set es. event_ok ev)"
proof -
  have ok: "system_ok es s" by (rule system_run_ok [OF assms(2,1) refl])
  then have f: "fifo cs w" "channels_ok w" and p: "mset (produced es) = mset (sents cs) + mset (sy_pending s)"
    and ev: "list_all event_ok es"
    by (simp_all add: system_ok_def assms(3,4))
  have from_task: "\<exists>i t wrs. (Executed i t wrs \<in> set es \<or> Turned i t wrs \<in> set es) \<and> r \<in> set wrs \<and> task_owns i t r"
    if "r \<in> set (produced es)" for r
    using that ev
  proof (induction es rule: produced.induct)
    case (2 i t wrs es)
    then show ?case by (auto simp: list_all_iff)
  next
    case (3 i t wrs es)
    then show ?case by (auto simp: list_all_iff)
  qed auto
  have "set (delivereds cs) \<subseteq> set (produced es)"
    using f(1) mset_eq_setD [of "produced es" "sents cs @ sy_pending s"] p by (auto simp: fifo_def)
  moreover have "mset (sents cs) = mset (delivereds cs) + mset (ch_buf (Responses w)) + mset (hand (wj_listener w)) +
      mset (droppeds cs) + mset (ch_buf (wj_respGatherChan w))"
    using f(1) by (simp add: fifo_def Responses_def)
  moreover have "\<not> wj_cancelled w \<longrightarrow> droppeds cs = []" "length (droppeds cs) \<le> 1"
    "\<exists>rest. sents cs = delivereds cs @ rest"
    using f by (auto simp: fifo_def channels_ok_def)
  ultimately show ?thesis
    using p from_task ev by (auto simp: list_all_iff ac_simps)
qed

text \<open>A watcher of one HTTP endpoint is added, executed once, and its response delivered.\<close>

definition example_started :: HTTPEndpoint where
  "example_started = (example_endpoint zero_policy)\<lparr>ep_watcherID := ''w'',
     ep_client := Some \<lparr>hc_transport = new_transport zero_policy False, hc_tls = None\<rparr>\<rparr>"

definition example_http_watcher :: "HTTPEndpoint \<Rightarrow> nat Watcher" where
  "example_http_watcher e = \<lparr>w_ID = ''w'', w_Cadence = 5, w_Tasks = [HTTPTask e], w_doneChan = Some False\<rparr>"

definition example_system :: "HTTPEndpoint \<Rightarrow> listener \<Rightarrow> WatcherResponse list \<Rightarrow> (nat, string list) system" where
  "example_system e l ps =
     \<lparr>sy_wadjit = (example_wadjit 1)\<lparr>wj_watchers := [(''w'', example_http_watcher e)], wj_taskManager := [''w''],
        wj_listener := l\<rparr>, sy_removed = [], sy_pending = ps\<rparr>"

lemma example_add_http:
  "AddWatcher example_taskman env (Some (example_http_watcher (example_endpoint zero_policy))) (example_wadjit 1) =
     Returns (None, Some (example_http_watcher example_started), sy_wadjit (example_system example_started Listening []))"
proof -
  let ?x = "example_http_watcher (example_endpoint zero_policy)"
  have d: "ep_dnsDecisionHook (example_endpoint zero_policy) = False" by (simp add: example_endpoint_def NewHTTPEndpoint_def WithDNSPolicy_def)
  have v: "watcher_Validate e (Some ?x) = (None, Some ?x)" for e
    by (simp add: watcher_Validate_def example_http_watcher_def task_Validate_def http_Validate_def join_into_def
        zero_policy_Validate Let_def)
  have s: "watcher_start e True ?x = Returns (None, example_http_watcher example_started)" for e
    by (simp add: watcher_start_def example_http_watcher_def task_Initialize_def http_Initialize_def join_into_def
        zero_policy_Validate example_started_def d Let_def)
  have w: "wj_watchers (example_wadjit n) = []" "wj_taskManager (example_wadjit n) = []" "w_ID (example_http_watcher e) = ''w''"
    "wj_listener (example_wadjit n) = Listening" for n e
    by (simp_all add: example_wadjit_def example_http_watcher_def)
  have t: "tl_ScheduleJob example_taskman (watcher_job now (example_http_watcher e)) [] = (None, [''w''])" for now e
    by (simp add: example_taskman_def watcher_job_def w)
  show ?thesis
    by (simp add: AddWatcher_def example_default v sm_LoadOrStore_def sm_Store_def w s t Let_def example_system_def)
qed

lemma example_started_Execute:
  "\<exists>e1 wr err. http_Execute (example_exec (Inl (ErrorString ''down'')) example_net) (http_Task example_started) example_started =
     Some (e1, [wr], err) \<and> wr_TaskID wr = ''id''"
proof -
  let ?x = "example_exec (Inl (ErrorString ''down'')) example_net"
  have e: "ep_URL example_started = Some example_url" "ep_ID example_started = ''id''" "hr_method (http_Task example_started) = ''GET''"
    "\<exists>c. ep_client example_started = Some c"
    by (simp_all add: example_started_def http_Task_def)
      (simp add: example_endpoint_def NewHTTPEndpoint_def WithDNSPolicy_def)
  then obtain c where c: "ep_client example_started = Some c" by blast
  obtain req0 where req: "NewRequest ?x (hr_method (http_Task example_started)) example_url (hr_data (http_Task example_started)) = Inr req0"
    using example_NewRequest e(3) by metis
  obtain p trips res where "client_Do ?x (hc_transport c) (task_request example_started req0) = Some (p, trips, res)"
    using client_Do_total by blast
  from http_Execute_run [OF e(1) c req this] e(2) show ?thesis by auto
qed

lemma example_executed:
  "\<exists>J es s r e1. system_run example_taskman (J :: (nat, nat, nat) jsonrpc_lib) (new_system (example_wadjit 1)) es s \<and>
     es = [Executed ''w'' (HTTPTask example_started) [r]] \<and> s = example_system e1 Listening [r] \<and>
     produced es = [r] \<and> wr_TaskID r = ''id'' \<and> \<not> wj_cancelled (sy_wadjit s)"
proof -
  fix J :: "(nat, nat, nat) jsonrpc_lib" and aenv :: add_env
  let ?L = example_taskman and ?w0 = "example_wadjit 1"
  let ?x = "example_exec (Inl (ErrorString ''down'')) example_net"
  obtain e1 wr err where ex: "http_Execute ?x (http_Task example_started) example_started = Some (e1, [wr], err)" "wr_TaskID wr = ''id''"
    using example_started_Execute by blast
  let ?env = "\<lparr>re_http = ?x, re_ws = undefined, re_custom = undefined\<rparr>"
  have te: "task_Execute J ?env (w_Tasks (example_http_watcher example_started) ! 0) = Returns (err, HTTPTask e1, [wr])"
    using ex by (simp add: task_Execute_def example_http_watcher_def)
  have n: "sy_wadjit (new_system ?w0) = ?w0"
    "advance (sy_wadjit (example_system e l [])) (new_system ?w0) = example_system e l []" for e l
    by (simp_all add: new_system_def advance_def example_system_def example_wadjit_def)
  have r1: "system_run ?L J (new_system ?w0) ([] @ map Channel []) (example_system example_started Listening [])"
    using sys_step [OF sys_refl sys_other [where s = "new_system ?w0" and J = J, unfolded n(1),
          OF step_add [OF example_add_http [of aenv]]]] n(2) by simp
  have p: "produce [wr] (put_watcher (Registered ''w'') (set_task 0 (HTTPTask e1) (example_http_watcher example_started))
      (example_system example_started Listening [])) = example_system e1 Listening [wr]"
    by (simp add: produce_def example_system_def set_task_def sm_Store_def example_http_watcher_def)
  have "system_run ?L J (new_system ?w0) [Executed ''w'' (HTTPTask example_started) [wr]] (example_system e1 Listening [wr])"
    using sys_step [OF r1 sys_execute [where p = "Registered ''w''", OF _ _ te]] p
    by (simp add: example_system_def example_http_watcher_def)
  moreover have "\<not> wj_cancelled (sy_wadjit (example_system e1 Listening [wr]))"
    by (simp add: example_system_def example_wadjit_def)
  ultimately show ?thesis using ex(2) by fastforce
qed

theorem delivery_witness:
  "\<exists>J es s r. system_run example_taskman (J :: (nat, nat, nat) jsonrpc_lib) (new_system (example_wadjit 1)) es s \<and>
     delivereds (channel_events es) = [r] \<and> wr_TaskID r = ''id'' \<and> task_owns ''w'' (HTTPTask example_started) r"
proof -
  let ?L = example_taskman and ?s0 = "new_system (example_wadjit 1)"
  let ?t = "HTTPTask example_started :: nat WatcherTask"
  obtain J wr e1 where r2: "system_run ?L (J :: (nat, nat, nat) jsonrpc_lib) ?s0 [Executed ''w'' ?t [wr]] (example_system e1 Listening [wr])"
    and tid: "wr_TaskID wr = ''id''"
    using example_executed by auto
  have n: "advance (sy_wadjit (example_system e l ps)) (example_system e l' ps) = example_system e l ps" for e l l' ps
    by (simp add: advance_def example_system_def example_wadjit_def)
  have m: "meet_gather wr (sy_wadjit (example_system e1 Listening [wr])) = Returns (sy_wadjit (example_system e1 (Handing wr) [wr]))"
    "meet_export (sy_wadjit (example_system e1 (Handing wr) [])) = Returns (wr, sy_wadjit (example_system e1 Listening []))"
    "dropped_by (sy_wadjit (example_system e1 Listening [wr])) [wr] = []"
    by (simp_all add: meet_gather_def meet_export_def listen_got_def dropped_by_def example_system_def example_wadjit_def)
  have q: "(example_system e1 (Handing wr) [wr])\<lparr>sy_pending := []\<rparr> = example_system e1 (Handing wr) []"
    "sy_pending (example_system e l ps) = ps" for e l ps
    by (simp_all add: example_system_def)
  have r3: "system_run ?L J ?s0 [Executed ''w'' ?t [wr], Channel (Sent wr)] (example_system e1 (Handing wr) [])"
    using sys_step [OF r2 sys_send [OF step_meet_gather [OF m(1)], of wr]] m(3) n q by simp
  have r4: "system_run ?L J ?s0 [Executed ''w'' ?t [wr], Channel (Sent wr), Channel (Delivered wr)]
      (example_system e1 Listening [])"
    using sys_step [OF r3 sys_other [OF step_meet_export [OF m(2)]]] n by simp
  have "event_ok (Executed ''w'' ?t [wr])"
    using delivery [OF example_New [of 1] r4 refl refl] by simp
  then have "task_owns ''w'' ?t wr" by simp
  with r4 tid show ?thesis by fastforce
qed

section \<open>Nothing gets stuck\<close>

text \<open>The way still to go of all responses under way.\<close>

definition under_way :: "('id, 'tm) system \<Rightarrow> nat" where
  "under_way s =
     4 * length (sy_pending s) + 3 * length (ch_buf (wj_respGatherChan (sy_wadjit s))) +
     2 * length (hand (wj_listener (sy_wadjit s))) + length (ch_buf (wj_respExportChan (sy_wadjit s)))"

lemma advance_same [simp]:
  assumes "wj_watchers w = wj_watchers (sy_wadjit s)"
  shows "advance w s = s\<lparr>sy_wadjit := w\<rparr>"
proof -
  have "filter (\<lambda>(i, x). map_of (wj_watchers (sy_wadjit s)) i = None) (wj_watchers (sy_wadjit s)) = []"
    by (auto simp: filter_empty_conv map_of_eq_None_iff intro: rev_image_eqI)
  with assms show ?thesis by (cases s) (simp add: advance_def)
qed

text \<open>As long as something is under way, the consumer and the goroutine have a step that brings it closer.\<close>

lemma flow_step:
  assumes "open_channels (sy_wadjit s)" "under_way s \<noteq> 0"
  shows "\<exists>fs s'. system_step L J s fs s' \<and> produced fs = [] \<and> open_channels (sy_wadjit s') \<and> under_way s' < under_way s"
proof -
  let ?w = "sy_wadjit s"
  have other: "system_step L J s (map Channel cs) (s\<lparr>sy_wadjit := w'\<rparr>)"
    if "wadjit_step L ?w cs w'" "sents cs = []" "wj_watchers w' = wj_watchers ?w" for cs w'
    using sys_other [OF that(1,2), where J = J] that(3) by simp
  show ?thesis
  proof (cases "ch_buf (wj_respExportChan ?w)")
    case (Cons r rs)
    let ?w' = "?w\<lparr>wj_respExportChan := (wj_respExportChan ?w)\<lparr>ch_buf := rs\<rparr>\<rparr>"
    have "consumer_receive ?w = Returns (Some r, ?w')"
      using Cons by (simp add: consumer_receive_def Responses_def)
    from other [OF step_consume [OF this]] have "system_step L J s [Channel (Delivered r)] (s\<lparr>sy_wadjit := ?w'\<rparr>)" by simp
    then show ?thesis
      using assms(1) Cons by (intro exI [of _ "[Channel (Delivered r)]"] exI [of _ "s\<lparr>sy_wadjit := ?w'\<rparr>"])
        (simp add: open_channels_def under_way_def)
  next
    case export: Nil
    show ?thesis
    proof (cases "wj_listener ?w")
      case (Handing r)
      let ?w' = "?w\<lparr>wj_listener := Listening\<rparr>"
      have "meet_export ?w = Returns (r, ?w')"
        using Handing export assms(1) by (simp add: meet_export_def open_channels_def)
      from other [OF step_meet_export [OF this]] have "system_step L J s [Channel (Delivered r)] (s\<lparr>sy_wadjit := ?w'\<rparr>)" by simp
      then show ?thesis
        using assms(1) Handing by (intro exI [of _ "[Channel (Delivered r)]"] exI [of _ "s\<lparr>sy_wadjit := ?w'\<rparr>"])
          (simp add: open_channels_def under_way_def)
    next
      case Listening
      show ?thesis
      proof (cases "ch_buf (wj_respGatherChan ?w)")
        case (Cons r rs)
        let ?w' = "?w\<lparr>wj_respGatherChan := (wj_respGatherChan ?w)\<lparr>ch_buf := rs\<rparr>, wj_listener := Handing r\<rparr>"
        have "listen_receive ?w = Returns ?w'" "dropped_by ?w xs = []" for xs
          using Cons Listening assms(1) by (auto simp: listen_receive_def listen_got_def open_channels_def dropped_by_def)
        with other [OF step_receive [of ?w ?w']] have "system_step L J s [] (s\<lparr>sy_wadjit := ?w'\<rparr>)" by simp
        then show ?thesis
          using assms(1) Cons Listening by (intro exI [of _ "[]"] exI [of _ "s\<lparr>sy_wadjit := ?w'\<rparr>"])
            (simp add: open_channels_def under_way_def)
      next
        case gather: Nil
        obtain r ps where ps: "sy_pending s = r # ps"
          using assms(2) export Listening gather by (cases "sy_pending s") (auto simp: under_way_def)
        let ?w' = "?w\<lparr>wj_listener := Handing r\<rparr>" and ?s' = "s\<lparr>sy_wadjit := ?w\<lparr>wj_listener := Handing r\<rparr>, sy_pending := ps\<rparr>"
        have m: "meet_gather r ?w = Returns ?w'" "dropped_by ?w [r] = []"
          using Listening gather assms(1) by (auto simp: meet_gather_def listen_got_def open_channels_def dropped_by_def)
        have "system_step L J s [Channel (Sent r)] ?s'"
          using sys_send [OF step_meet_gather [OF m(1)], where J = J and r = r] m(2) ps by simp
        then show ?thesis
          using assms(1) Listening ps by (intro exI [of _ "[Channel (Sent r)]"] exI [of _ ?s']) (simp add: open_channels_def under_way_def)
      qed
    qed (use assms(1) in \<open>simp add: open_channels_def\<close>)
  qed
qed

lemma flow_run:
  assumes "open_channels (sy_wadjit s)"
  shows "\<exists>fs s'. system_run L J s fs s' \<and> produced fs = [] \<and> open_channels (sy_wadjit s') \<and> under_way s' = 0"
  using assms
proof (induction "under_way s" arbitrary: s rule: less_induct)
  case less
  show ?case
  proof (cases "under_way s = 0")
    case True
    then show ?thesis using less.prems by (intro exI [of _ "[]"] exI [of _ s]) (simp add: sys_refl)
  next
    case False
    obtain fs s1 where s1: "system_step L J s fs s1" "produced fs = []" "open_channels (sy_wadjit s1)" "under_way s1 < under_way s"
      using flow_step [OF less.prems False] by blast
    obtain gs s2 where s2: "system_run L J s1 gs s2" "produced gs = []" "open_channels (sy_wadjit s2)" "under_way s2 = 0"
      using less.hyps [OF s1(4,3)] by blast
    have "system_run L J s (fs @ gs) s2" by (rule sys_trans [OF sys_one s2(1)]) (rule s1(1))
    with s1 s2 show ?thesis by (intro exI [of _ "fs @ gs"] exI [of _ s2]) simp
  qed
qed

text \<open>
  C10. Nothing gets stuck before \<^verbatim>\<open>Close\<close>. From every state that a run reaches, as long as the Wadjit is not
  cancelled, the consumer by receiving, the forwarding goroutine and the waiting senders can bring
  every response that any task has produced so far to the consumer, each exactly as often as it was
  produced, without any further execution; also with unbuffered channels.
\<close>

theorem nothing_stuck:
  assumes "New L G opts = Returns w0" and "system_run L J (new_system w0) es s"
    and "\<not> wj_cancelled (sy_wadjit s)"
  shows "\<exists>fs s'. system_run L J s fs s' \<and> produced fs = [] \<and> \<not> wj_cancelled (sy_wadjit s') \<and>
    mset (delivereds (channel_events (es @ fs))) = mset (produced es) \<and>
    sy_pending s' = [] \<and> ch_buf (Responses (sy_wadjit s')) = [] \<and> wj_listener (sy_wadjit s') = Listening"
proof -
  have "system_ok es s" by (rule system_run_ok [OF assms(2,1) refl])
  then have "open_channels (sy_wadjit s)" using assms(3) by (intro not_cancelled_open) (simp_all add: system_ok_def)
  from flow_run [OF this] obtain fs s' where r: "system_run L J s fs s'" "produced fs = []" "open_channels (sy_wadjit s')"
    "under_way s' = 0" by blast
  have ok: "system_ok (es @ fs) s'"
    by (rule system_run_ok [OF sys_trans [OF assms(2) r(1)] assms(1) refl])
  have e: "sy_pending s' = []" "ch_buf (Responses (sy_wadjit s')) = []" "ch_buf (wj_respGatherChan (sy_wadjit s')) = []"
    "hand (wj_listener (sy_wadjit s')) = []"
    using r(4) by (simp_all add: under_way_def Responses_def)
  have "wj_listener (sy_wadjit s') = Listening"
    using r(3) e(4) by (cases "wj_listener (sy_wadjit s')") (simp_all add: open_channels_def)
  moreover have "mset (delivereds (channel_events (es @ fs))) = mset (produced es)"
  proof -
    define cs where "cs = channel_events (es @ fs)"
    have f: "fifo cs (sy_wadjit s')" and p: "mset (produced (es @ fs)) = mset (sents cs) + mset (sy_pending s')"
      using ok by (simp_all only: system_ok_def cs_def)
    have "droppeds cs = []" using f r(3) by (auto simp: fifo_def open_channels_def)
    then have "sents cs = delivereds cs" using f e by (simp add: fifo_def Responses_def)
    then show ?thesis using p e(1) r(2) unfolding cs_def by simp
  qed
  ultimately show ?thesis using r e(1,2) by (auto simp: open_channels_def)
qed

theorem nothing_stuck_witness:
  "\<exists>J es s. system_run example_taskman (J :: (nat, nat, nat) jsonrpc_lib) (new_system (example_wadjit 1)) es s \<and>
     (\<exists>r. delivereds (channel_events es) = [r] \<and> wr_TaskID r = ''id'')"
proof -
  obtain J es s r where run: "system_run example_taskman (J :: (nat, nat, nat) jsonrpc_lib) (new_system (example_wadjit 1)) es s"
    and p: "produced es = [r]" "wr_TaskID r = ''id''" and c: "\<not> wj_cancelled (sy_wadjit s)"
    using example_executed by blast
  obtain fs s' where fs: "system_run example_taskman J s fs s'" "mset (delivereds (channel_events (es @ fs))) = mset [r]"
    using nothing_stuck [OF example_New [of 1] run c] p by metis
  then show ?thesis
    using sys_trans [OF run fs(1)] p(2) by (metis mset_single_iff_right mset.simps(1,2))
qed

end
