(* ===== verification/Spec2Isabelle.thy ===== *)
theory Spec2Isabelle
  imports DNS_Resolver DNS_Concurrent Wadjit_Concurrent Response_Concurrent Response_String Delivery
begin

text \<open>
  A model of the Go package \<^verbatim>\<open>wadjit\<close>, a library that watches HTTP and WebSocket endpoints, with the
  theorems that make it correct.

  \<^bold>\<open>The program.\<close> A \<^verbatim>\<open>Wadjit\<close> (\<^verbatim>\<open>wadjit.go\<close>) keeps a registry of watchers. A watcher (\<^verbatim>\<open>watcher.go\<close>) has an ID,
  a cadence and tasks (\<^verbatim>\<open>task.go\<close>), which are HTTP endpoints (\<^verbatim>\<open>task_http.go\<close>), WebSocket endpoints
  (\<^verbatim>\<open>task_ws.go\<close>) or implementations of the user's. Adding a watcher validates it, initialises its tasks and
  hands a job to the task manager, which executes the tasks at the cadence. Each execution sends a
  \<^verbatim>\<open>WatcherResponse\<close> (\<^verbatim>\<open>response.go\<close>, with the times of \<^verbatim>\<open>timing.go\<close>) to a gather channel, from which a goroutine
  forwards to the channel of \<^verbatim>\<open>Responses()\<close>. The requests of an HTTP endpoint go through a transport that
  asks a DNS manager (\<^verbatim>\<open>dns_policy_manager.go\<close>) for the address to dial: static, looked up once, by TTL or by
  cadence (\<^verbatim>\<open>dns_policy.go\<close>), with the package's own resolver (\<^verbatim>\<open>dns_resolver.go\<close>) by default, and with a
  guard rail that flushes connections or forces a lookup after repeated failures.

  \<^bold>\<open>The theories\<close>, in the order of imports.
  \<^item> \<open>Prelude\<close>, \<open>Go_Errors\<close>, \<open>Net_Addr\<close>, \<open>HTTP_Model\<close>: what the program uses of Go and its standard library:
    64-bit integers, instants, panics, strings; error values with \<^verbatim>\<open>errors.Is\<close> and \<^verbatim>\<open>errors.Join\<close>; addresses and
    their text; URLs, headers, bodies, contexts and the connections of \<^verbatim>\<open>http.Transport\<close>, which are idle
    or in use until the body of a response has been read or closed; only the idle ones can be flushed.
  \<^item> \<open>Turns\<close>: operations that may block; runs of a step relation with a log of events, whose invariants are
    the locale \<open>run_invariant\<close>; any number of participants that take turns on a shared state, runs by a
    schedule, and the locale \<open>taking_turns\<close>, which turns what one step guarantees into an invariant of all
    interleavings.
  \<^item> \<open>DNS_Policy\<close>: the policy, its validation, the clamping of TTLs, the decision record.
  \<^item> \<open>DNS_Resolver\<close>: all of \<^verbatim>\<open>dns_resolver.go\<close>: reading an answer section, fail-over between servers, merging
    A and AAAA records, the fallback to the system resolver.
  \<^item> \<open>DNS_Manager\<close>: the state and the operations of the manager. \<open>DNS_Resolve\<close>: the contract of a refresh mode
    as the locale \<open>refresh_strategy\<close>, interpreted for the three modes, and what follows for sequences of
    requests. \<open>DNS_Guard\<close>: the guard rail against an abstract list of failures.
  \<^item> \<open>DNS_Transport\<close>: \<^verbatim>\<open>prepareRequest\<close>, \<^verbatim>\<open>dialContext\<close> and \<^verbatim>\<open>RoundTrip\<close> over the connection pool: a request
    travels to an address the policy has not given up, unless over a connection that was in use when the
    address was given up and has come back since.
  \<^item> \<open>DNS_Concurrent\<close>: any number of requests on one manager, interleaved between the critical sections of
    its mutex and sharing lookups through \<^verbatim>\<open>singleflight\<close>; lemmas relate the sections to
    \<^verbatim>\<open>prepareRequest\<close>.
  \<^item> \<open>Timing\<close>: the trace callbacks as a fold over the events of a request, and the durations derived.
  \<^item> \<open>Response\<close>: the three kinds of payload behind the locale \<open>task_response\<close>, \<^verbatim>\<open>Data\<close> and \<^verbatim>\<open>Reader\<close>.
    \<open>Response_String\<close>: the text of the metadata. \<open>Response_Concurrent\<close>: calls of \<^verbatim>\<open>Data\<close> and \<^verbatim>\<open>Reader\<close> on one
    response, interleaved between the atomic flags, as an instance of \<open>taking_turns\<close>.
  \<^item> \<open>HTTP_Task\<close>: the endpoint, its options, and \<^verbatim>\<open>Execute\<close> with the client's loop over redirects.
  \<^item> \<open>WS_Endpoint\<close>, \<open>WS_Properties\<close>: the WebSocket endpoint with its mutex, connection, read pump and in-flight
    messages, and what each operation does. \<open>WS_Concurrent\<close>: executions that overlap, read pumps and \<^verbatim>\<open>Close\<close>
    in any interleaving of their parts (\<open>ws_move\<close>).
  \<^item> \<open>Watcher\<close>: the dispatch on the kinds of tasks and the loops over a watcher's tasks.
  \<^item> \<open>Wadjit\<close>: options, state, calls, and the moves of the forwarding goroutine. \<open>Wadjit_Registry\<close>: \<^verbatim>\<open>sync.Map\<close>
    as the locale \<open>registry\<close>, the branches of adding and removing. \<open>Wadjit_Runs\<close>: all interleavings of calls,
    each in one step, with tasks, goroutine and consumer. \<open>Wadjit_Queue\<close>: the two channels and the goroutine refine one bounded queue.
    \<open>Wadjit_Properties\<close>: what single calls do, also when they fail.
  \<^item> \<open>Wadjit_Concurrent\<close>: \<^verbatim>\<open>AddWatcher\<close> and \<^verbatim>\<open>RemoveWatcher\<close> cut at the operations that are atomic, with
    watchers behind pointers, as instances of \<open>taking_turns\<close>: what holds of the registry under any calls,
    and that overlapping calls on different watchers do what they mean to. A lemma relates the steps, run
    without interruption, to the two functions.
  \<^item> \<open>Delivery\<close>: the whole: executions of tasks, as wholes or in parts, turns of pumps, the channels, calls and the consumer as one
    step relation. What the consumer receives is what the tasks produced, under their own IDs, and as long as
    \<^verbatim>\<open>Close\<close> has not been called all of it can reach the consumer.

  \<^bold>\<open>Conventions.\<close> A function of the source has a definition of its name, with a prefix where several
  types have the method (\<^verbatim>\<open>(w *Watcher) close\<close> is \<open>watcher_close\<close>, \<^verbatim>\<open>(e *WSEndpoint) Close\<close> is \<open>ws_Close\<close>). A receiver
  that is mutated is an argument and part of the result. A result that may be a panic is an option
  in the DNS and HTTP parts; where an operation may also block for ever it is an \<open>outcome\<close>
  (\<open>Returns\<close>, \<open>Blocks\<close>, \<open>Panics\<close>). Go errors are values: \<open>None\<close> is nil. What a call sees of the outside (the
  clock, replies of the network, random identifiers) is a record of the call's environment; theorems
  hold for all of them. Watchers and endpoints are values: two watchers do not share a task.

  \<^bold>\<open>Parameters.\<close> Code outside the repository appears as arguments: the DNS client, the configuration file
  and the system resolver (\<open>DNS_Resolver\<close>), the WebSocket and JSON-RPC libraries (\<open>ws_env\<close>, \<open>jsonrpc_lib\<close>),
  the task manager (\<open>taskman_lib\<close>; its contract is the hypothesis \<open>taskman_contract\<close>), the logger, and the
  order in which \<^verbatim>\<open>sync.Map\<close> ranges. Of \<^verbatim>\<open>singleflight\<close> only this is assumed: a caller starts a lookup of its
  host or joins one that is under way, and it gets the reply of a lookup of that host or is cancelled.

  \<^bold>\<open>Bounds.\<close> The client's loop has 9 redirects left after its first request, so that the tenth request is
  the last, as in \<^verbatim>\<open>net/http\<close>; all other loops are structural on a list (of servers, records, tasks, IDs,
  options). Counters that could leave 64 bits are wrapped; durations saturate as \<^verbatim>\<open>time.Sub\<close> does.

  \<^bold>\<open>What the lemmas show\<close> beside correct behaviour: paths on which the code does something else than it
  means to. A failed write on a persistent WebSocket connection blocks for ever and with it \<^verbatim>\<open>Close\<close>
  (\<open>persistent_write_error_blocks\<close>, \<open>locked_endpoint_blocks_close\<close>); executions that overlap can start two read
  pumps on one connection (\<open>overlapping_executions_two_pumps\<close>) and write to a connection that is nil
  (\<open>send_after_pump_exit_panics\<close>); a connection in use when its address is given up carries requests later
  (\<open>held_over_connection_reused\<close>); a failed start leaves the watcher registered
  (\<open>unstarted_watcher_stays\<close>); a removal during an addition leaves a closed watcher in the registry, on
  which the next removal and \<^verbatim>\<open>Close\<close> panic (\<open>removed_during_add\<close>); a failed close leaves the job running (\<open>close_error_keeps_job\<close>); the address
  cache is not keyed by host (\<open>redirects_keep_address\<close>); a stored decision is never cleared
  (\<open>stale_decision_attached\<close>); \<^verbatim>\<open>Data\<close> after \<^verbatim>\<open>OptReadFast\<close> reports an error (\<open>data_after_read_fast\<close>);
  concurrent calls of \<^verbatim>\<open>Reader\<close> can both be given the stream (\<open>reader_race\<close>).

  \<^bold>\<open>Not modelled.\<close> What the task manager reports in \<^verbatim>\<open>Metrics\<close> and the text of an instant are parameters. In
  the operations of a WebSocket endpoint the channel is the list of what was sent (\<open>send_resp\<close>): a send that
  has to wait for room, with the mutex held where the code sends under the mutex, is not modelled there;
  \<open>Delivery\<close> lets these responses wait for the gather channel. An execution of an HTTP or one-hit task is one
  step, and so are a read of the pump with its handling and a critical section of a mutex. Connections that a
  server or a time-out closes while they are idle, and the retries of \<^verbatim>\<open>net/http\<close> on them, are left out. \<^verbatim>\<open>AddWatcher\<close> and \<^verbatim>\<open>RemoveWatcher\<close> are single steps in
  \<open>Wadjit_Runs\<close> and \<open>Delivery\<close>; their interleaving is in \<open>Wadjit_Concurrent\<close>, which leaves the channels out.
  Deadlines of dialling and of control messages have no clock: whether they pass is a result of the outside.
  The example program and the tests are left out.
\<close>

end
